theory Spec2Isabelle
  imports Complex_Main
begin

section \<open>Errors\<close>

text \<open>
  The exceptions of \<^verbatim>\<open>rnn_sac/sac_lstm/sac.py\<close> that the model keeps as values:
  the \<^verbatim>\<open>assert\<close> of \<^verbatim>\<open>compute_critic_loss\<close>, the read of a local variable that was
  never bound, a tensor operation that the tensor library refuses (shapes that do not
  broadcast, a view that does not fit, an index out of range), a modulo by zero and the
  read of an attribute that was never set. An exception leaves the agent as it was
  when it was raised, so a failing function returns the error together with that agent.
\<close>

datatype py_error =
  AssertionError | UnboundLocalError | RuntimeError | ZeroDivisionError | AttributeError

section \<open>Tensors\<close>

text \<open>
  A tensor of rank two: its shape and its entries. Arithmetic is over the reals, the
  idealisation of the floating point numbers of the source. A tensor of rank one and
  length \<open>m\<close> is written as the \<open>1 \<times> m\<close> tensor that the broadcasting rule turns it into when
  it meets a tensor of rank two.
\<close>

record tensor =
  nrows :: nat
  ncols :: nat
  elem :: "nat \<Rightarrow> nat \<Rightarrow> real"

definition shape :: "tensor \<Rightarrow> nat \<times> nat" where
  "shape t = (nrows t, ncols t)"

text \<open>Two sizes broadcast when they are equal or one of them is 1.\<close>

definition bcompat :: "nat \<Rightarrow> nat \<Rightarrow> bool" where
  "bcompat m n = (m = n \<or> m = 1 \<or> n = 1)"

definition bdim :: "nat \<Rightarrow> nat \<Rightarrow> nat" where
  "bdim m n = (if m = 1 then n else m)"

definition broadcastable :: "tensor \<Rightarrow> tensor \<Rightarrow> bool" where
  "broadcastable a b = (bcompat (nrows a) (nrows b) \<and> bcompat (ncols a) (ncols b))"

text \<open>The entry that a tensor contributes at position \<open>(i, j)\<close> of a broadcast result.\<close>

definition bat :: "tensor \<Rightarrow> nat \<Rightarrow> nat \<Rightarrow> real" where
  "bat t i j = elem t (if nrows t = 1 then 0 else i) (if ncols t = 1 then 0 else j)"

text \<open>An element-wise binary operation (\<^verbatim>\<open>*\<close>, \<^verbatim>\<open>+\<close>, \<^verbatim>\<open>-\<close>, \<^verbatim>\<open>torch.min\<close> of two tensors).\<close>

definition tbin :: "(real \<Rightarrow> real \<Rightarrow> real) \<Rightarrow> tensor \<Rightarrow> tensor \<Rightarrow> py_error + tensor" where
  "tbin f a b =
     (if broadcastable a b
      then Inr \<lparr>nrows = bdim (nrows a) (nrows b), ncols = bdim (ncols a) (ncols b),
                elem = (\<lambda>i j. f (bat a i j) (bat b i j))\<rparr>
      else Inl RuntimeError)"

text \<open>An operation with a Python scalar (\<^verbatim>\<open>self.gamma * t\<close>, \<^verbatim>\<open>1 - t\<close>, \<^verbatim>\<open>self.alpha * t\<close>).\<close>

definition tmap :: "(real \<Rightarrow> real) \<Rightarrow> tensor \<Rightarrow> tensor" where
  "tmap f t = \<lparr>nrows = nrows t, ncols = ncols t, elem = (\<lambda>i j. f (elem t i j))\<rparr>"

text \<open>\<^verbatim>\<open>t.sum(dim=1, keepdim=True)\<close>\<close>

definition sum_dim1 :: "tensor \<Rightarrow> tensor" where
  "sum_dim1 t = \<lparr>nrows = nrows t, ncols = 1, elem = (\<lambda>i j. \<Sum>a<ncols t. elem t i a)\<rparr>"

text \<open>\<^verbatim>\<open>t.view(-1, 1)\<close>: the entries in row-major order, as one column.\<close>

definition view_col :: "tensor \<Rightarrow> tensor" where
  "view_col t = \<lparr>nrows = nrows t * ncols t, ncols = 1,
                 elem = (\<lambda>i j. elem t (i div ncols t) (i mod ncols t))\<rparr>"

text \<open>\<^verbatim>\<open>t.long()\<close>: every entry is rounded toward zero.\<close>

definition to_long :: "real \<Rightarrow> int" where
  "to_long x = (if x < 0 then \<lceil>x\<rceil> else \<lfloor>x\<rfloor>)"

definition long :: "tensor \<Rightarrow> tensor" where
  "long t = tmap (\<lambda>x. real_of_int (to_long x)) t"

text \<open>
  \<^verbatim>\<open>t.gather(1, index)\<close>: entry \<open>(i, j)\<close> of the result is \<open>t[i][index[i][j]]\<close>. The
  library refuses an index tensor with more rows than \<open>t\<close> and an index that is negative
  or not below the number of columns of \<open>t\<close>.
\<close>

definition gather_dim1 :: "tensor \<Rightarrow> tensor \<Rightarrow> py_error + tensor" where
  "gather_dim1 t index =
     (if nrows index \<le> nrows t
         \<and> (\<forall>i<nrows index. \<forall>j<ncols index.
               0 \<le> elem index i j \<and> elem index i j < real (ncols t))
      then Inr \<lparr>nrows = nrows index, ncols = ncols index,
                elem = (\<lambda>i j. elem t i (nat \<lfloor>elem index i j\<rfloor>))\<rparr>
      else Inl RuntimeError)"

text \<open>
  \<^verbatim>\<open>t.mean()\<close>, the sum of all entries over their number. (Of a tensor without entries
  the library returns \<^verbatim>\<open>nan\<close>; the division of the reals by zero gives 0 here.)
\<close>

definition tmean :: "tensor \<Rightarrow> real" where
  "tmean t = (\<Sum>i<nrows t. \<Sum>j<ncols t. elem t i j) / real (nrows t * ncols t)"

text \<open>\<^verbatim>\<open>(a - b).pow(2).mean()\<close>\<close>

definition mse :: "tensor \<Rightarrow> tensor \<Rightarrow> py_error + real" where
  "mse a b = (case tbin (-) a b of Inl e \<Rightarrow> Inl e | Inr d \<Rightarrow> Inr (tmean (tmap (\<lambda>x. x ^ 2) d)))"

section \<open>Parameters, networks and the agent\<close>

text \<open>
  Parameter tensors live in a heap: an address holds the parameter's data, its
  \<^verbatim>\<open>requires_grad\<close> flag and its \<^verbatim>\<open>.grad\<close>. Two handles that hold the same address are
  aliases. One cell stands for one parameter; the arithmetic of the source on a parameter
  is element-wise and is written on one real component.
\<close>

type_synonym addr = nat

record cell =
  data :: real
  requires_grad :: bool
  grad :: "real option"

text \<open>
  An \<^verbatim>\<open>ActorCritic\<close> module (\<^verbatim>\<open>rnn_sac/sac_lstm/core.py\<close>, a collaborator whose code is
  not part of this file) is known here by the addresses of the parameters of its four
  sub-modules. \<^verbatim>\<open>parameters()\<close> yields them in the order in which the sub-modules are
  registered; the order is the same for a module and for its deep copy.
\<close>

record actor_critic =
  ac_pi :: "addr list"
  ac_q1 :: "addr list"
  ac_q2 :: "addr list"
  ac_memory :: "addr list"

definition parameters :: "actor_critic \<Rightarrow> addr list" where
  "parameters m = ac_pi m @ ac_q1 m @ ac_q2 m @ ac_memory m"

definition vals :: "(addr \<Rightarrow> cell) \<Rightarrow> addr list \<Rightarrow> real list" where
  "vals h as = map (\<lambda>a. data (h a)) as"

text \<open>One sampled episode, as \<^verbatim>\<open>EpisodicBuffer.get\<close> hands it to the losses.\<close>

record 'h episode =
  b_obs :: tensor
  b_act :: tensor
  b_rew :: tensor
  b_obs2 :: tensor
  b_done :: tensor
  b_prev_act :: tensor
  b_prev_rew :: tensor
  b_hid :: 'h
  b_hid_out :: 'h

text \<open>One call of \<^verbatim>\<open>EpisodicBuffer.store\<close>.\<close>

record ('o, 'h) transition =
  t_obs :: 'o
  t_next_obs :: 'o
  t_action :: int
  t_reward :: real
  t_done :: bool
  t_prev_action :: int
  t_prev_reward :: real
  t_hidden_in :: 'h
  t_hidden_out :: 'h

text \<open>
  The buffer is a collaborator; the model keeps the calls made on it, oldest first.
\<close>

datatype ('o, 'h) buffer_call =
  Store "('o, 'h) transition" | Finish_path | Reset

text \<open>
  An optimizer holds the list of parameters it was built from and a private state (the
  moment estimates and the learning rate of Adam).
\<close>

record 'k optimizer =
  opt_params :: "addr list"
  opt_state :: 'k

text \<open>
  The fields of \<^verbatim>\<open>SAC\<close>. Environments are objects in a store of their own, known by a
  handle; \<open>rng\<close> is the state of the process-wide random number generators.
  \<open>q_params\<close> and \<open>pi_params\<close> are \<^verbatim>\<open>itertools.chain\<close> iterators: the field holds the
  items the iterator has yet to yield.
\<close>

record ('e, 'o, 'h, 'r, 'k) sac =
  max_ep_len :: int
  epochs :: int
  number_of_trajectories :: int
  gamma :: real
  polyak :: real
  clip_ratio :: real
  start_steps :: int
  update_every :: int
  batch_size :: int
  hidden_size :: int
  global_steps :: int
  global_test_steps :: int
  current_epoch :: int
  save_freq :: int
  steps_per_epoch :: int
  heap :: "addr \<Rightarrow> cell"
  heap_size :: nat
  ac :: actor_critic
  ac_targ :: actor_critic
  use_alpha_annealing :: bool
  log_alpha :: "addr option"
  alpha :: real
  q_params :: "addr list"
  pi_params :: "addr list"
  pi_optimizer :: "'k optimizer"
  q_optimizer :: "'k optimizer"
  alpha_optimizer :: "'k optimizer option"
  envs :: "nat \<Rightarrow> 'e"
  env :: nat
  test_env :: "nat option"
  buffer :: "('o, 'h) buffer_call list"
  rng :: 'r

text \<open>
  The collaborators, as functions the model is parameterised by: the forward passes of
  the networks (given the current data of the module's parameters), the environment,
  the sampling of the buffer, automatic differentiation, the Adam step, and the
  exponential of \<^verbatim>\<open>log_alpha.exp()\<close>. \<open>view_hidden h n\<close> is \<^verbatim>\<open>h.view(1, 1, n)\<close> on a
  recurrent state, \<open>None\<close> when the library refuses the view because the entries of \<open>h\<close>
  do not fit the shape. \<open>backward_q\<close>, \<open>backward_pi\<close> and \<open>backward_alpha\<close> give the
  derivative of a loss with respect to a parameter, \<open>None\<close> for a parameter that the
  forward pass did not use.
\<close>

record ('e, 'o, 'h, 'r, 'k) world =
  q1_forward :: "real list \<Rightarrow> tensor \<Rightarrow> tensor"
  q2_forward :: "real list \<Rightarrow> tensor \<Rightarrow> tensor"
  memory_forward :: "real list \<Rightarrow> tensor \<Rightarrow> tensor \<Rightarrow> tensor \<Rightarrow> 'h \<Rightarrow> tensor"
  pi_sample :: "real list \<Rightarrow> tensor \<Rightarrow> 'r \<Rightarrow> (tensor \<times> tensor) \<times> 'r"
  ac_act :: "real list \<Rightarrow> 'o \<Rightarrow> int \<Rightarrow> real \<Rightarrow> 'h \<Rightarrow> int \<times> 'h"
  ac_explore :: "real list \<Rightarrow> 'o \<Rightarrow> int \<Rightarrow> real \<Rightarrow> 'h \<Rightarrow> 'r \<Rightarrow> (int \<times> 'h) \<times> 'r"
  zeros_hidden :: 'h
  view_hidden :: "'h \<Rightarrow> int \<Rightarrow> 'h option"
  env_reset :: "'e \<Rightarrow> 'o \<times> 'e"
  env_step :: "'e \<Rightarrow> int \<Rightarrow> ('o \<times> real \<times> bool \<times> bool) \<times> 'e"
  action_space_sample :: "'e \<Rightarrow> int \<times> 'e"
  np_random :: "'r \<Rightarrow> real \<times> 'r"
  buffer_get :: "('o, 'h) buffer_call list \<Rightarrow> int \<Rightarrow> 'r \<Rightarrow> 'h episode list \<times> 'r"
  backward_q :: "(addr \<Rightarrow> cell) \<Rightarrow> 'h episode \<Rightarrow> addr \<Rightarrow> real option"
  backward_pi :: "(addr \<Rightarrow> cell) \<Rightarrow> 'h episode \<Rightarrow> addr \<Rightarrow> real option"
  backward_alpha :: "(addr \<Rightarrow> cell) \<Rightarrow> tensor \<Rightarrow> addr \<Rightarrow> real option"
  clip_coef :: "real \<Rightarrow> real list \<Rightarrow> real"
  adam_step :: "'k \<Rightarrow> (real \<times> real option) list \<Rightarrow> 'k \<times> real list"
  scheduler_step :: "'k \<Rightarrow> 'k"
  torch_exp :: "real \<Rightarrow> real"

section \<open>The critic's bootstrap target\<close>

text \<open>
  Lines 162 to 166 of \<^verbatim>\<open>compute_critic_loss\<close>: the element-wise minimum of the two
  target critics, and \<^verbatim>\<open>(a2 * (q_targ - self.alpha * logp_a2)).sum(dim=1, keepdim=True)\<close>.
\<close>

definition soft_value ::
  "real \<Rightarrow> tensor \<Rightarrow> tensor \<Rightarrow> tensor \<Rightarrow> tensor \<Rightarrow> py_error + tensor"
where
  "soft_value al a2 logp_a2 q1_targ q2_targ =
     (case tbin min q1_targ q2_targ of Inl e \<Rightarrow> Inl e | Inr q_targ \<Rightarrow>
     (case tbin (-) q_targ (tmap ((*) al) logp_a2) of Inl e \<Rightarrow> Inl e | Inr x \<Rightarrow>
     (case tbin (*) a2 x of Inl e \<Rightarrow> Inl e | Inr y \<Rightarrow> Inr (sum_dim1 y))))"

text \<open>
  Lines 168 and 169: the assertion on the shapes, then
  \<^verbatim>\<open>backup = rew + self.gamma * (1 - done) * next_q\<close>.
\<close>

definition backup_of :: "real \<Rightarrow> tensor \<Rightarrow> tensor \<Rightarrow> tensor \<Rightarrow> py_error + tensor" where
  "backup_of g rew done next_q =
     (if shape rew \<noteq> shape next_q then Inl AssertionError
      else case tbin (*) (tmap ((*) g) (tmap ((-) 1) done)) next_q of
             Inl e \<Rightarrow> Inl e
           | Inr z \<Rightarrow> tbin (+) rew z)"

text \<open>
  What \<^verbatim>\<open>compute_critic_loss\<close> returns: the loss, as its value and the parameters that
  its automatic differentiation graph reaches, and the dictionary \<^verbatim>\<open>q_info\<close>, as the pair
  of \<^verbatim>\<open>Q1Vals\<close> and \<^verbatim>\<open>Q2Vals\<close>. The model also keeps the local variable \<^verbatim>\<open>backup\<close>.
\<close>

record critic_loss =
  cl_loss_q :: real
  cl_graph :: "addr list"
  cl_q_info :: "real \<times> real"
  cl_backup :: tensor

text \<open>
  \<^verbatim>\<open>compute_critic_loss\<close>, line by line. The view of line 142, the gathers of lines 150
  and 151 and the arithmetic on tensors can be refused by the library; an error comes
  with the agent as it is then (the call of \<^verbatim>\<open>pi.sample\<close> advances the random number
  generator). The forward passes of lines 147 and 148 record a graph that reaches the
  parameters of the two online critics. Lines 155 to 166 run under \<^verbatim>\<open>torch.no_grad()\<close>
  and record nothing, and the rewards and the done flags are data: the graph of the loss
  is that of \<^verbatim>\<open>q1\<close> and \<^verbatim>\<open>q2\<close>. Line 178 takes \<^verbatim>\<open>Q2Vals\<close> from \<^verbatim>\<open>q1\<close>.
\<close>

definition compute_critic_loss ::
  "('e, 'o, 'h, 'r, 'k) world \<Rightarrow> ('e, 'o, 'h, 'r, 'k) sac \<Rightarrow> 'h episode
     \<Rightarrow> (py_error \<times> ('e, 'o, 'h, 'r, 'k) sac) + (critic_loss \<times> ('e, 'o, 'h, 'r, 'k) sac)"
where
  "compute_critic_loss w s batch =
     (case view_hidden w (b_hid_out batch) (hidden_size s) of
        None \<Rightarrow> Inl (RuntimeError, s)
      | Some h_out \<Rightarrow>
     (let rew = view_col (b_rew batch);
          q1 = q1_forward w (vals (heap s) (ac_q1 (ac s))) (b_obs batch);
          q2 = q2_forward w (vals (heap s) (ac_q2 (ac s))) (b_obs batch)
      in case gather_dim1 q1 (long (view_col (b_act batch))) of
           Inl e \<Rightarrow> Inl (e, s)
         | Inr q1_a \<Rightarrow>
      (case gather_dim1 q2 (long (view_col (b_act batch))) of
           Inl e \<Rightarrow> Inl (e, s)
         | Inr q2_a \<Rightarrow>
      (let memory_emb_pi = memory_forward w (vals (heap s) (ac_memory (ac s)))
                             (b_obs2 batch) (b_act batch) rew h_out;
           sampled = pi_sample w (vals (heap s) (ac_pi (ac s))) memory_emb_pi (rng s);
           a2 = fst (fst sampled);
           logp_a2 = snd (fst sampled);
           s' = s\<lparr>rng := snd sampled\<rparr>;
           q1_targ = q1_forward w (vals (heap s) (ac_q1 (ac_targ s))) (b_obs2 batch);
           q2_targ = q2_forward w (vals (heap s) (ac_q2 (ac_targ s))) (b_obs2 batch)
       in case soft_value (alpha s) a2 logp_a2 q1_targ q2_targ of
            Inl e \<Rightarrow> Inl (e, s')
          | Inr next_q \<Rightarrow>
       (case backup_of (gamma s) rew (b_done batch) next_q of
            Inl e \<Rightarrow> Inl (e, s')
          | Inr backup \<Rightarrow>
       (case mse q1_a backup of
            Inl e \<Rightarrow> Inl (e, s')
          | Inr loss_q1 \<Rightarrow>
       (case mse q2_a backup of
            Inl e \<Rightarrow> Inl (e, s')
          | Inr loss_q2 \<Rightarrow>
              Inr (\<lparr>cl_loss_q = loss_q1 + loss_q2,
                    cl_graph = ac_q1 (ac s) @ ac_q2 (ac s),
                    cl_q_info = (tmean q1_a, tmean q1_a),
                    cl_backup = backup\<rparr>, s'))))))))"

section \<open>The policy loss\<close>

text \<open>
  What \<^verbatim>\<open>compute_policy_loss\<close> returns: the loss, as its value and the parameters that
  its graph reaches, and the log-probabilities, which the temperature step reads.
\<close>

record policy_loss =
  pl_loss_pi :: real
  pl_graph :: "addr list"
  pl_logp_pi :: tensor

text \<open>
  \<^verbatim>\<open>compute_policy_loss\<close>. The memory encoder and the policy head run with the graph
  recorded; the two critics of lines 196 to 198 run under \<^verbatim>\<open>torch.no_grad()\<close>.
\<close>

definition compute_policy_loss ::
  "('e, 'o, 'h, 'r, 'k) world \<Rightarrow> ('e, 'o, 'h, 'r, 'k) sac \<Rightarrow> 'h episode
     \<Rightarrow> (py_error \<times> ('e, 'o, 'h, 'r, 'k) sac) + (policy_loss \<times> ('e, 'o, 'h, 'r, 'k) sac)"
where
  "compute_policy_loss w s batch =
     (case view_hidden w (b_hid batch) (hidden_size s) of
        None \<Rightarrow> Inl (RuntimeError, s)
      | Some h_in \<Rightarrow>
     (let prev_rew = view_col (b_prev_rew batch);
          memory_emb = memory_forward w (vals (heap s) (ac_memory (ac s)))
                         (b_obs batch) (b_prev_act batch) prev_rew h_in;
          sampled = pi_sample w (vals (heap s) (ac_pi (ac s))) memory_emb (rng s);
          pi_a = fst (fst sampled);
          logp_pi = snd (fst sampled);
          s' = s\<lparr>rng := snd sampled\<rparr>;
          q1_pi = q1_forward w (vals (heap s) (ac_q1 (ac s))) (b_obs batch);
          q2_pi = q2_forward w (vals (heap s) (ac_q2 (ac s))) (b_obs batch)
      in case tbin min q1_pi q2_pi of Inl e \<Rightarrow> Inl (e, s') | Inr q_pi \<Rightarrow>
         (case tbin (*) pi_a logp_pi of Inl e \<Rightarrow> Inl (e, s') | Inr pl \<Rightarrow>
         (case tbin (*) q_pi pi_a of Inl e \<Rightarrow> Inl (e, s') | Inr qp \<Rightarrow>
         (case tbin (-) (tmap uminus (sum_dim1 qp))
                        (tmap ((*) (alpha s)) (tmap uminus (sum_dim1 pl))) of
            Inl e \<Rightarrow> Inl (e, s')
          | Inr losses \<Rightarrow>
              Inr (\<lparr>pl_loss_pi = tmean losses,
                    pl_graph = ac_pi (ac s) @ ac_memory (ac s),
                    pl_logp_pi = logp_pi\<rparr>, s'))))))"

section \<open>Gradients and optimizers\<close>

text \<open>
  \<^verbatim>\<open>optimizer.zero_grad()\<close>: the gradients of the optimizer's parameters are dropped
  (set to \<^verbatim>\<open>None\<close>, the default of the library).
\<close>

definition zero_grad :: "addr list \<Rightarrow> (addr \<Rightarrow> cell) \<Rightarrow> (addr \<Rightarrow> cell)" where
  "zero_grad ps h = (\<lambda>a. if a \<in> set ps then (h a)\<lparr>grad := None\<rparr> else h a)"

text \<open>
  \<^verbatim>\<open>loss.backward()\<close>: automatic differentiation accumulates a gradient into a parameter
  that the graph of the loss reaches, and only if the parameter requires a gradient. The
  derivative is the collaborator's (\<open>g\<close>).
\<close>

definition backward ::
  "addr list \<Rightarrow> (addr \<Rightarrow> real option) \<Rightarrow> (addr \<Rightarrow> cell) \<Rightarrow> (addr \<Rightarrow> cell)"
where
  "backward graph g h =
     (\<lambda>a. if a \<in> set graph \<and> requires_grad (h a)
          then (case g a of
                  None \<Rightarrow> h a
                | Some x \<Rightarrow> (h a)\<lparr>grad := Some (case grad (h a) of None \<Rightarrow> x | Some y \<Rightarrow> y + x)\<rparr>)
          else h a)"

text \<open>\<^verbatim>\<open>nn.utils.clip_grad_norm_(params, max_norm)\<close> scales the gradients that are there.\<close>

definition clip_grad_norm ::
  "('e, 'o, 'h, 'r, 'k) world \<Rightarrow> addr list \<Rightarrow> real \<Rightarrow> (addr \<Rightarrow> cell) \<Rightarrow> (addr \<Rightarrow> cell)"
where
  "clip_grad_norm w ps c h =
     (let k = clip_coef w c (List.map_filter (\<lambda>a. grad (h a)) ps)
      in (\<lambda>a. if a \<in> set ps then (h a)\<lparr>grad := map_option ((*) k) (grad (h a))\<rparr> else h a))"

text \<open>\<^verbatim>\<open>optimizer.step()\<close> writes new data into its parameters that have a gradient.\<close>

fun write_data :: "(addr \<times> real) list \<Rightarrow> (addr \<Rightarrow> cell) \<Rightarrow> (addr \<Rightarrow> cell)" where
  "write_data [] h = h"
| "write_data ((a, v) # xs) h =
     write_data xs (if grad (h a) = None then h else h(a := (h a)\<lparr>data := v\<rparr>))"

definition opt_step ::
  "('e, 'o, 'h, 'r, 'k) world \<Rightarrow> 'k optimizer \<Rightarrow> (addr \<Rightarrow> cell) \<Rightarrow> 'k optimizer \<times> (addr \<Rightarrow> cell)"
where
  "opt_step w opt h =
     (let ps = opt_params opt;
          stepped = adam_step w (opt_state opt) (map (\<lambda>a. (data (h a), grad (h a))) ps)
      in (opt\<lparr>opt_state := fst stepped\<rparr>, write_data (zip ps (snd stepped)) h))"

section \<open>Construction of the agent\<close>

text \<open>
  The arguments of \<^verbatim>\<open>SAC.__init__\<close> that the model reads. \<open>i_fresh_model\<close> is the data
  of the parameters that \<^verbatim>\<open>ActorCritic(...)\<close> draws, \<open>i_model_file_to_load\<close> the data
  that \<^verbatim>\<open>torch.load\<close> reads when a file is given; \<open>i_rng\<close> is the generator state after
  seeding and \<open>i_adam\<close> the state of a new Adam optimizer.
\<close>

record model_values =
  mv_pi :: "real list"
  mv_q1 :: "real list"
  mv_q2 :: "real list"
  mv_memory :: "real list"

record ('e, 'r, 'k) init_args =
  i_env :: nat
  i_envs :: "nat \<Rightarrow> 'e"
  i_rng :: 'r
  i_adam :: 'k
  i_max_ep_len :: int
  i_save_every_n_update :: int
  i_gamma :: real
  i_polyak :: real
  i_epochs :: int
  i_batch_size :: int
  i_hidden_size :: int
  i_start_steps :: int
  i_update_every :: int
  i_clip_ratio :: real
  i_number_of_trajectories :: int
  i_use_alpha_annealing :: bool
  i_model_file_to_load :: "model_values option"
  i_fresh_model :: model_values

text \<open>New parameters take the next free addresses and require a gradient.\<close>

definition alloc :: "real list \<Rightarrow> (addr \<Rightarrow> cell) \<Rightarrow> nat \<Rightarrow> addr list \<times> (addr \<Rightarrow> cell) \<times> nat" where
  "alloc vs h n =
     ([n ..< n + length vs],
      (\<lambda>a. if n \<le> a \<and> a < n + length vs
           then \<lparr>data = vs ! (a - n), requires_grad = True, grad = None\<rparr> else h a),
      n + length vs)"

definition new_module ::
  "model_values \<Rightarrow> (addr \<Rightarrow> cell) \<Rightarrow> nat \<Rightarrow> actor_critic \<times> (addr \<Rightarrow> cell) \<times> nat"
where
  "new_module mv h n =
     (let (p, h1, n1) = alloc (mv_pi mv) h n;
          (q1, h2, n2) = alloc (mv_q1 mv) h1 n1;
          (q2, h3, n3) = alloc (mv_q2 mv) h2 n2;
          (m, h4, n4) = alloc (mv_memory mv) h3 n3
      in (\<lparr>ac_pi = p, ac_q1 = q1, ac_q2 = q2, ac_memory = m\<rparr>, h4, n4))"

definition create_or_load_model ::
  "('e, 'r, 'k) init_args \<Rightarrow> (addr \<Rightarrow> cell) \<Rightarrow> nat \<Rightarrow> actor_critic \<times> (addr \<Rightarrow> cell) \<times> nat"
where
  "create_or_load_model args h n =
     (case i_model_file_to_load args of
        None \<Rightarrow> new_module (i_fresh_model args) h n
      | Some mv \<Rightarrow> new_module mv h n)"

text \<open>\<^verbatim>\<open>copy.deepcopy\<close>: every parameter is copied, cell by cell, to a new address.\<close>

definition copy_cells :: "addr list \<Rightarrow> (addr \<Rightarrow> cell) \<Rightarrow> nat \<Rightarrow> addr list \<times> (addr \<Rightarrow> cell) \<times> nat" where
  "copy_cells as h n =
     ([n ..< n + length as],
      (\<lambda>a. if n \<le> a \<and> a < n + length as then h (as ! (a - n)) else h a),
      n + length as)"

definition deepcopy ::
  "actor_critic \<Rightarrow> (addr \<Rightarrow> cell) \<Rightarrow> nat \<Rightarrow> actor_critic \<times> (addr \<Rightarrow> cell) \<times> nat"
where
  "deepcopy m h n =
     (let (p, h1, n1) = copy_cells (ac_pi m) h n;
          (q1, h2, n2) = copy_cells (ac_q1 m) h1 n1;
          (q2, h3, n3) = copy_cells (ac_q2 m) h2 n2;
          (mem, h4, n4) = copy_cells (ac_memory m) h3 n3
      in (\<lparr>ac_pi = p, ac_q1 = q1, ac_q2 = q2, ac_memory = mem\<rparr>, h4, n4))"

text \<open>\<^verbatim>\<open>for p in ps: p.requires_grad = b\<close>\<close>

definition set_requires_grad :: "addr list \<Rightarrow> bool \<Rightarrow> (addr \<Rightarrow> cell) \<Rightarrow> (addr \<Rightarrow> cell)" where
  "set_requires_grad ps b h = (\<lambda>a. if a \<in> set ps then (h a)\<lparr>requires_grad := b\<rparr> else h a)"

text \<open>
  \<^verbatim>\<open>Adam(params, lr)\<close> stores \<^verbatim>\<open>list(params)\<close>: an iterator passed as \<^verbatim>\<open>params\<close> is
  drained. The result is the optimizer and what is left of the iterator.
\<close>

definition Adam :: "'k \<Rightarrow> addr list \<Rightarrow> 'k optimizer \<times> addr list" where
  "Adam k params = (\<lparr>opt_params = params, opt_state = k\<rparr>, [])"

definition init ::
  "('e, 'o, 'h, 'r, 'k) world \<Rightarrow> ('e, 'r, 'k) init_args \<Rightarrow> ('e, 'o, 'h, 'r, 'k) sac"
where
  "init w args =
     (let h0 = (\<lambda>a. \<lparr>data = 0, requires_grad = False, grad = None\<rparr>);
          (m, h1, n1) = create_or_load_model args h0 0;
          (mt, h2, n2) = deepcopy m h1 n1;
          h3 = set_requires_grad (parameters mt) False h2;
          h4 = (if i_use_alpha_annealing args
                then h3(n2 := \<lparr>data = 0, requires_grad = True, grad = None\<rparr>) else h3);
          n4 = (if i_use_alpha_annealing args then n2 + 1 else n2);
          q_params0 = ac_q1 m @ ac_q2 m;
          pi_params0 = ac_pi m @ ac_memory m;
          (pi_opt, pi_params1) = Adam (i_adam args) pi_params0;
          (q_opt, q_params1) = Adam (i_adam args) q_params0
      in \<lparr>max_ep_len = i_max_ep_len args,
          epochs = i_epochs args,
          number_of_trajectories = i_number_of_trajectories args,
          gamma = i_gamma args,
          polyak = i_polyak args,
          clip_ratio = i_clip_ratio args,
          start_steps = i_start_steps args,
          update_every = i_update_every args,
          batch_size = i_batch_size args,
          hidden_size = i_hidden_size args,
          global_steps = 0,
          global_test_steps = 0,
          current_epoch = 0,
          save_freq = i_save_every_n_update args * i_update_every args,
          steps_per_epoch = i_number_of_trajectories args * i_max_ep_len args,
          heap = h4,
          heap_size = n4,
          ac = m,
          ac_targ = mt,
          use_alpha_annealing = i_use_alpha_annealing args,
          log_alpha = (if i_use_alpha_annealing args then Some n2 else None),
          alpha = (if i_use_alpha_annealing args then torch_exp w (data (h4 n2)) else 0.2),
          q_params = q_params1,
          pi_params = pi_params1,
          pi_optimizer = pi_opt,
          q_optimizer = q_opt,
          alpha_optimizer =
            (if i_use_alpha_annealing args then Some (fst (Adam (i_adam args) [n2])) else None),
          envs = i_envs args,
          env = i_env args,
          test_env = None,
          buffer = [],
          rng = i_rng args\<rparr>)"

section \<open>One optimization cycle\<close>

text \<open>Lines 222 to 227 of \<^verbatim>\<open>update\<close>: the critic step on one episode.\<close>

definition critic_step ::
  "('e, 'o, 'h, 'r, 'k) world \<Rightarrow> ('e, 'o, 'h, 'r, 'k) sac \<Rightarrow> 'h episode
     \<Rightarrow> (py_error \<times> ('e, 'o, 'h, 'r, 'k) sac) + ('e, 'o, 'h, 'r, 'k) sac"
where
  "critic_step w s episode =
     (case compute_critic_loss w s episode of
        Inl x \<Rightarrow> Inl x
      | Inr (loss, s1) \<Rightarrow>
          (let h1 = zero_grad (opt_params (q_optimizer s1)) (heap s1);
               h2 = backward (cl_graph loss) (backward_q w h1 episode) h1;
               h3 = clip_grad_norm w (parameters (ac s1)) (clip_ratio s1) h2;
               stepped = opt_step w (q_optimizer s1) h3
           in Inr (s1\<lparr>heap := snd stepped, q_optimizer := fst stepped\<rparr>)))"

text \<open>
  Lines 234 to 235 and 247 to 248: \<^verbatim>\<open>for p in self.q_params: p.requires_grad = ...\<close>.
  The loop runs over what the iterator \<^verbatim>\<open>self.q_params\<close> still yields, and drains it.
\<close>

definition freeze_q_params :: "('e, 'o, 'h, 'r, 'k) sac \<Rightarrow> ('e, 'o, 'h, 'r, 'k) sac" where
  "freeze_q_params s = s\<lparr>heap := set_requires_grad (q_params s) False (heap s), q_params := []\<rparr>"

definition unfreeze_q_params :: "('e, 'o, 'h, 'r, 'k) sac \<Rightarrow> ('e, 'o, 'h, 'r, 'k) sac" where
  "unfreeze_q_params s = s\<lparr>heap := set_requires_grad (q_params s) True (heap s), q_params := []\<rparr>"

text \<open>Lines 239 to 244: the policy step. It returns \<^verbatim>\<open>logp_pi\<close> with the agent.\<close>

definition policy_step ::
  "('e, 'o, 'h, 'r, 'k) world \<Rightarrow> ('e, 'o, 'h, 'r, 'k) sac \<Rightarrow> 'h episode
     \<Rightarrow> (py_error \<times> ('e, 'o, 'h, 'r, 'k) sac) + (tensor \<times> ('e, 'o, 'h, 'r, 'k) sac)"
where
  "policy_step w s episode =
     (let s0 = s\<lparr>heap := zero_grad (opt_params (pi_optimizer s)) (heap s)\<rparr>
      in case compute_policy_loss w s0 episode of
           Inl x \<Rightarrow> Inl x
         | Inr (loss, s1) \<Rightarrow>
             (let h2 = backward (pl_graph loss) (backward_pi w (heap s1) episode) (heap s1);
                  h3 = clip_grad_norm w (parameters (ac s1)) (clip_ratio s1) h2;
                  stepped = opt_step w (pi_optimizer s1) h3
              in Inr (pl_logp_pi loss,
                      s1\<lparr>heap := snd stepped, pi_optimizer := fst stepped\<rparr>)))"

text \<open>
  Lines 255 to 265: the temperature step. In both branches the local variable
  \<^verbatim>\<open>alpha_loss\<close> is bound; its value goes to the logger only. The log-probabilities
  enter it detached, so its graph reaches \<^verbatim>\<open>log_alpha\<close> only.
\<close>

definition alpha_step ::
  "('e, 'o, 'h, 'r, 'k) world \<Rightarrow> ('e, 'o, 'h, 'r, 'k) sac \<Rightarrow> tensor
     \<Rightarrow> (py_error \<times> ('e, 'o, 'h, 'r, 'k) sac) + ('e, 'o, 'h, 'r, 'k) sac"
where
  "alpha_step w s logp_pi =
     (if use_alpha_annealing s
      then (case log_alpha s of
              None \<Rightarrow> Inl (AttributeError, s)
            | Some la \<Rightarrow>
                (case alpha_optimizer s of
                   None \<Rightarrow> Inl (AttributeError, s)
                 | Some ao \<Rightarrow>
                     (let h1 = zero_grad (opt_params ao) (heap s);
                          h2 = backward [la] (backward_alpha w h1 logp_pi) h1;
                          stepped = opt_step w ao h2
                      in Inr (s\<lparr>heap := snd stepped, alpha_optimizer := Some (fst stepped),
                                alpha := torch_exp w (data (snd stepped la))\<rparr>))))
      else Inr (s\<lparr>alpha := 0.2\<rparr>))"

text \<open>The body of \<^verbatim>\<open>for episode in batch\<close>.\<close>

definition update_episode ::
  "('e, 'o, 'h, 'r, 'k) world \<Rightarrow> ('e, 'o, 'h, 'r, 'k) sac \<Rightarrow> 'h episode
     \<Rightarrow> (py_error \<times> ('e, 'o, 'h, 'r, 'k) sac) + ('e, 'o, 'h, 'r, 'k) sac"
where
  "update_episode w s episode =
     (case critic_step w s episode of
        Inl x \<Rightarrow> Inl x
      | Inr s1 \<Rightarrow>
          (case policy_step w (freeze_q_params s1) episode of
             Inl x \<Rightarrow> Inl x
           | Inr (logp_pi, s2) \<Rightarrow> alpha_step w (unfreeze_q_params s2) logp_pi))"

text \<open>
  The loop over the batch. The flag tells whether the local variable \<^verbatim>\<open>alpha_loss\<close> has
  been bound, which only the body of the loop does.
\<close>

fun update_episodes ::
  "('e, 'o, 'h, 'r, 'k) world \<Rightarrow> 'h episode list \<Rightarrow> ('e, 'o, 'h, 'r, 'k) sac \<times> bool
     \<Rightarrow> (py_error \<times> ('e, 'o, 'h, 'r, 'k) sac) + (('e, 'o, 'h, 'r, 'k) sac \<times> bool)"
where
  "update_episodes w [] sb = Inr sb"
| "update_episodes w (episode # batch) sb =
     (case update_episode w (fst sb) episode of
        Inl x \<Rightarrow> Inl x
      | Inr s' \<Rightarrow> update_episodes w batch (s', True))"

text \<open>
  Lines 272 to 279: \<^verbatim>\<open>p_targ.data.mul_(self.polyak)\<close>, then
  \<^verbatim>\<open>p_targ.data.add_((1 - self.polyak) * p.data)\<close>, pair by pair, in place.
\<close>

fun polyak_pass :: "real \<Rightarrow> (addr \<times> addr) list \<Rightarrow> (addr \<Rightarrow> cell) \<Rightarrow> (addr \<Rightarrow> cell)" where
  "polyak_pass c [] h = h"
| "polyak_pass c ((p, p_targ) # xs) h =
     (let h1 = h(p_targ := (h p_targ)\<lparr>data := data (h p_targ) * c\<rparr>);
          h2 = h1(p_targ := (h1 p_targ)\<lparr>data := data (h1 p_targ) + (1 - c) * data (h1 p)\<rparr>)
      in polyak_pass c xs h2)"

text \<open>
  \<^verbatim>\<open>update\<close>. The calls of the logger are left out, except that line 268 reads the local
  variable \<^verbatim>\<open>alpha_loss\<close>.
\<close>

definition update ::
  "('e, 'o, 'h, 'r, 'k) world \<Rightarrow> ('e, 'o, 'h, 'r, 'k) sac
     \<Rightarrow> (py_error \<times> ('e, 'o, 'h, 'r, 'k) sac) + ('e, 'o, 'h, 'r, 'k) sac"
where
  "update w s =
     (let got = buffer_get w (buffer s) (batch_size s) (rng s);
          s0 = s\<lparr>rng := snd got\<rparr>
      in case update_episodes w (fst got) (s0, False) of
           Inl x \<Rightarrow> Inl x
         | Inr (s1, alpha_loss_bound) \<Rightarrow>
             if \<not> alpha_loss_bound then Inl (UnboundLocalError, s1)
             else Inr (s1\<lparr>heap := polyak_pass (polyak s1)
                                    (zip (parameters (ac s1)) (parameters (ac_targ s1)))
                                    (heap s1)\<rparr>))"

section \<open>The training loop\<close>

text \<open>
  The local variables of \<^verbatim>\<open>train_agent\<close>: those that live across the trajectories of an
  epoch, and all of them inside a trajectory.
\<close>

record 'h carry =
  c_a2 :: int
  c_r2 :: real
  c_h_in :: 'h
  c_h_out :: 'h

record ('o, 'h) train_locals =
  l_a2 :: int
  l_r2 :: real
  l_h_in :: 'h
  l_h_out :: 'h
  l_d :: bool
  l_ep_ret :: real
  l_ep_len :: int
  l_o :: 'o

definition carry_of :: "('o, 'h) train_locals \<Rightarrow> 'h carry" where
  "carry_of l = \<lparr>c_a2 = l_a2 l, c_r2 = l_r2 l, c_h_in = l_h_in l, c_h_out = l_h_out l\<rparr>"

text \<open>\<^verbatim>\<open>range(n)\<close>\<close>

definition range_int :: "int \<Rightarrow> int list" where
  "range_int n = map int [0 ..< nat n]"

text \<open>
  \<^verbatim>\<open>get_action\<close>: the greedy action of \<^verbatim>\<open>ac.act\<close> or the sampled one of
  \<^verbatim>\<open>ac.explore\<close>, with the new recurrent state; sampling advances the generator.
\<close>

definition get_action ::
  "('e, 'o, 'h, 'r, 'k) world \<Rightarrow> ('e, 'o, 'h, 'r, 'k) sac \<Rightarrow> 'o \<Rightarrow> int \<Rightarrow> real \<Rightarrow> 'h \<Rightarrow> bool
     \<Rightarrow> (int \<times> 'h) \<times> 'r"
where
  "get_action w s ob prev_act prev_rew hid_in greedy =
     (if greedy
      then (ac_act w (vals (heap s) (parameters (ac s))) ob prev_act prev_rew hid_in, rng s)
      else ac_explore w (vals (heap s) (parameters (ac s))) ob prev_act prev_rew hid_in (rng s))"

text \<open>
  Lines 365 to 374: \<^verbatim>\<open>h_in = h_out\<close>, then the action. After the warm-up it comes from
  \<^verbatim>\<open>get_action\<close>, with the new recurrent state; during the warm-up it is drawn from the
  action space and \<^verbatim>\<open>h_out\<close> stays as it is. The result is the action, \<^verbatim>\<open>h_out\<close> and
  the agent.
\<close>

definition choose_action ::
  "('e, 'o, 'h, 'r, 'k) world \<Rightarrow> ('e, 'o, 'h, 'r, 'k) sac \<Rightarrow> ('o, 'h) train_locals
     \<Rightarrow> int \<times> 'h \<times> ('e, 'o, 'h, 'r, 'k) sac"
where
  "choose_action w s l =
     (let h_in = l_h_out l
      in if global_steps s > start_steps s
         then (let g = get_action w s (l_o l) (l_a2 l) (l_r2 l) h_in False
               in (fst (fst g), snd (fst g), s\<lparr>rng := snd g\<rparr>))
         else (let sm = action_space_sample w (envs s (env s))
               in (fst sm, l_h_out l, s\<lparr>envs := (envs s)(env s := snd sm)\<rparr>)))"

text \<open>Lines 364 to 407: the body of the \<^verbatim>\<open>while\<close> loop of \<^verbatim>\<open>train_agent\<close>.\<close>

definition train_step ::
  "('e, 'o, 'h, 'r, 'k) world \<Rightarrow> ('e, 'o, 'h, 'r, 'k) sac \<times> ('o, 'h) train_locals
     \<Rightarrow> ('e, 'o, 'h, 'r, 'k) sac \<times> ('o, 'h) train_locals"
where
  "train_step w sl =
     (let s = fst sl; l = snd sl;
          h_in = l_h_out l;
          chosen = choose_action w s l;
          a = fst chosen;
          h_out = fst (snd chosen);
          s1 = snd (snd chosen);
          stepped = env_step w (envs s1 (env s1)) a;
          o2 = fst (fst stepped);
          r = fst (snd (fst stepped));
          ter = fst (snd (snd (fst stepped)));
          trunc = snd (snd (snd (fst stepped)));
          s2 = s1\<lparr>envs := (envs s1)(env s1 := snd stepped)\<rparr>;
          ep_ret = l_ep_ret l + r;
          ep_len = l_ep_len l + 1;
          d = (if ep_len = max_ep_len s2 then False else ter \<or> trunc);
          s3 = s2\<lparr>buffer := buffer s2 @
                 [Store \<lparr>t_obs = l_o l, t_next_obs = o2, t_action = a, t_reward = r,
                         t_done = d, t_prev_action = l_a2 l, t_prev_reward = l_r2 l,
                         t_hidden_in = h_in, t_hidden_out = h_out\<rparr>]\<rparr>;
          s4 = (if d \<or> ep_len = max_ep_len s3
                then s3\<lparr>buffer := buffer s3 @ [Finish_path]\<rparr> else s3)
      in (s4\<lparr>global_steps := global_steps s4 + 1\<rparr>,
          \<lparr>l_a2 = a, l_r2 = r, l_h_in = h_in, l_h_out = h_out, l_d = d,
           l_ep_ret = ep_ret, l_ep_len = ep_len, l_o = o2\<rparr>))"

text \<open>
  \<^verbatim>\<open>while not(d or (ep_len == self.max_ep_len))\<close>. The loop need not end (an environment
  that never ends an episode, with a negative \<^verbatim>\<open>max_ep_len\<close>), so it runs on fuel:
  \<open>None\<close> is a run that is not over when the fuel is.
\<close>

fun train_while ::
  "nat \<Rightarrow> ('e, 'o, 'h, 'r, 'k) world \<Rightarrow> ('e, 'o, 'h, 'r, 'k) sac \<times> ('o, 'h) train_locals
     \<Rightarrow> (('e, 'o, 'h, 'r, 'k) sac \<times> ('o, 'h) train_locals) option"
where
  "train_while 0 w sl =
     (if l_d (snd sl) \<or> l_ep_len (snd sl) = max_ep_len (fst sl) then Some sl else None)"
| "train_while (Suc n) w sl =
     (if l_d (snd sl) \<or> l_ep_len (snd sl) = max_ep_len (fst sl) then Some sl
      else train_while n w (train_step w sl))"

text \<open>Lines 360 to 361: the start of a trajectory.\<close>

definition trajectory_start ::
  "('e, 'o, 'h, 'r, 'k) world \<Rightarrow> ('e, 'o, 'h, 'r, 'k) sac \<Rightarrow> 'h carry
     \<Rightarrow> ('e, 'o, 'h, 'r, 'k) sac \<times> ('o, 'h) train_locals"
where
  "trajectory_start w s c =
     (let r = env_reset w (envs s (env s))
      in (s\<lparr>envs := (envs s)(env s := snd r)\<rparr>,
          \<lparr>l_a2 = c_a2 c, l_r2 = c_r2 c, l_h_in = c_h_in c, l_h_out = c_h_out c,
           l_d = False, l_ep_ret = 0, l_ep_len = 0, l_o = fst r\<rparr>))"

text \<open>
  Lines 410 to 412: the periodic update. \<^verbatim>\<open>_log_trial\<close> is logging, of which the model
  keeps the modulo by \<^verbatim>\<open>self.save_freq\<close>.
\<close>

definition update_handling ::
  "('e, 'o, 'h, 'r, 'k) world \<Rightarrow> int \<Rightarrow> ('e, 'o, 'h, 'r, 'k) sac
     \<Rightarrow> (py_error \<times> ('e, 'o, 'h, 'r, 'k) sac) + ('e, 'o, 'h, 'r, 'k) sac"
where
  "update_handling w tr s =
     (if tr + 1 \<ge> update_every s
      then (if update_every s = 0 then Inl (ZeroDivisionError, s)
            else if (tr + 1) mod update_every s = 0
            then (case update w s of
                    Inl x \<Rightarrow> Inl x
                  | Inr s' \<Rightarrow> if save_freq s' = 0 then Inl (ZeroDivisionError, s') else Inr s')
            else Inr s)
      else Inr s)"

text \<open>The body of \<^verbatim>\<open>for tr in range(self.number_of_trajectories)\<close>.\<close>

definition train_trajectory ::
  "nat \<Rightarrow> ('e, 'o, 'h, 'r, 'k) world \<Rightarrow> int \<Rightarrow> ('e, 'o, 'h, 'r, 'k) sac \<times> 'h carry
     \<Rightarrow> ((py_error \<times> ('e, 'o, 'h, 'r, 'k) sac) + (('e, 'o, 'h, 'r, 'k) sac \<times> 'h carry)) option"
where
  "train_trajectory fuel w tr sc =
     (case train_while fuel w (trajectory_start w (fst sc) (snd sc)) of
        None \<Rightarrow> None
      | Some sl \<Rightarrow>
          Some (case update_handling w tr (fst sl) of
                  Inl x \<Rightarrow> Inl x
                | Inr s' \<Rightarrow> Inr (s', carry_of (snd sl))))"

fun train_trajectories ::
  "nat \<Rightarrow> ('e, 'o, 'h, 'r, 'k) world \<Rightarrow> int list \<Rightarrow> ('e, 'o, 'h, 'r, 'k) sac \<times> 'h carry
     \<Rightarrow> ((py_error \<times> ('e, 'o, 'h, 'r, 'k) sac) + (('e, 'o, 'h, 'r, 'k) sac \<times> 'h carry)) option"
where
  "train_trajectories fuel w [] sc = Some (Inr sc)"
| "train_trajectories fuel w (tr # trs) sc =
     (case train_trajectory fuel w tr sc of
        None \<Rightarrow> None
      | Some (Inl x) \<Rightarrow> Some (Inl x)
      | Some (Inr sc') \<Rightarrow> train_trajectories fuel w trs sc')"

text \<open>
  The body of \<^verbatim>\<open>for epoch in range(self.epochs)\<close>: the recurrent state is set to zero,
  the trajectories run, the buffer is reset and the schedulers step. \<^verbatim>\<open>a2\<close> and
  \<^verbatim>\<open>r2\<close> come from before the loop and go on to the next epoch.
\<close>

definition train_epoch ::
  "nat \<Rightarrow> ('e, 'o, 'h, 'r, 'k) world \<Rightarrow> ('e, 'o, 'h, 'r, 'k) sac \<times> (int \<times> real)
     \<Rightarrow> ((py_error \<times> ('e, 'o, 'h, 'r, 'k) sac) + (('e, 'o, 'h, 'r, 'k) sac \<times> (int \<times> real))) option"
where
  "train_epoch fuel w sa =
     (let s = fst sa;
          c = \<lparr>c_a2 = fst (snd sa), c_r2 = snd (snd sa),
               c_h_in = zeros_hidden w, c_h_out = zeros_hidden w\<rparr>
      in case train_trajectories fuel w (range_int (number_of_trajectories s)) (s, c) of
           None \<Rightarrow> None
         | Some (Inl x) \<Rightarrow> Some (Inl x)
         | Some (Inr sc) \<Rightarrow>
             (let s1 = fst sc;
                  s2 = s1\<lparr>buffer := buffer s1 @ [Reset],
                          current_epoch := current_epoch s1 + 1,
                          pi_optimizer := (pi_optimizer s1)
                            \<lparr>opt_state := scheduler_step w (opt_state (pi_optimizer s1))\<rparr>,
                          q_optimizer := (q_optimizer s1)
                            \<lparr>opt_state := scheduler_step w (opt_state (q_optimizer s1))\<rparr>\<rparr>
              in Some (Inr (s2, (c_a2 (snd sc), c_r2 (snd sc))))))"

fun train_epochs ::
  "nat \<Rightarrow> ('e, 'o, 'h, 'r, 'k) world \<Rightarrow> int list \<Rightarrow> ('e, 'o, 'h, 'r, 'k) sac \<times> (int \<times> real)
     \<Rightarrow> ((py_error \<times> ('e, 'o, 'h, 'r, 'k) sac) + (('e, 'o, 'h, 'r, 'k) sac \<times> (int \<times> real))) option"
where
  "train_epochs fuel w [] sa = Some (Inr sa)"
| "train_epochs fuel w (epoch # es) sa =
     (case train_epoch fuel w sa of
        None \<Rightarrow> None
      | Some (Inl x) \<Rightarrow> Some (Inl x)
      | Some (Inr sa') \<Rightarrow> train_epochs fuel w es sa')"

text \<open>\<^verbatim>\<open>train_agent(env)\<close>: \<^verbatim>\<open>self.env = env\<close>, \<^verbatim>\<open>a2, r2 = 0, 0\<close>, then the epochs.\<close>

definition train_agent ::
  "nat \<Rightarrow> ('e, 'o, 'h, 'r, 'k) world \<Rightarrow> nat \<Rightarrow> ('e, 'o, 'h, 'r, 'k) sac
     \<Rightarrow> ((py_error \<times> ('e, 'o, 'h, 'r, 'k) sac) + ('e, 'o, 'h, 'r, 'k) sac) option"
where
  "train_agent fuel w env_arg s =
     (case train_epochs fuel w (range_int (epochs s)) (s\<lparr>env := env_arg\<rparr>, (0, 0)) of
        None \<Rightarrow> None
      | Some (Inl x) \<Rightarrow> Some (Inl x)
      | Some (Inr sa) \<Rightarrow> Some (Inr (fst sa)))"

section \<open>The evaluation loop\<close>

record ('o, 'h) test_locals =
  e_h :: 'h
  e_a2 :: int
  e_r2 :: real
  e_o :: 'o
  e_d :: bool
  e_ep_len :: int
  e_ep_rew :: real
  e_observations :: "'o list"
  e_rewards :: "real list"

text \<open>Lines 315 to 317: one random warm-up step.\<close>

definition random_init_step ::
  "('e, 'o, 'h, 'r, 'k) world \<Rightarrow> ('e, 'o, 'h, 'r, 'k) sac \<Rightarrow> ('e, 'o, 'h, 'r, 'k) sac"
where
  "random_init_step w s =
     (let sm = action_space_sample w (envs s (env s));
          s1 = s\<lparr>envs := (envs s)(env s := snd sm)\<rparr>;
          stepped = env_step w (envs s1 (env s1)) (fst sm)
      in s1\<lparr>envs := (envs s1)(env s1 := snd stepped)\<rparr>)"

fun random_init_steps ::
  "nat \<Rightarrow> ('e, 'o, 'h, 'r, 'k) world \<Rightarrow> ('e, 'o, 'h, 'r, 'k) sac \<Rightarrow> ('e, 'o, 'h, 'r, 'k) sac"
where
  "random_init_steps 0 w s = s"
| "random_init_steps (Suc n) w s = random_init_steps n w (random_init_step w s)"

text \<open>Lines 320 to 338: the body of the \<^verbatim>\<open>while\<close> loop of \<^verbatim>\<open>test_agent\<close>.\<close>

definition test_step ::
  "('e, 'o, 'h, 'r, 'k) world \<Rightarrow> real \<Rightarrow> ('e, 'o, 'h, 'r, 'k) sac \<times> ('o, 'h) test_locals
     \<Rightarrow> ('e, 'o, 'h, 'r, 'k) sac \<times> ('o, 'h) test_locals"
where
  "test_step w greedy_ratio sl =
     (let s = fst sl; l = snd sl;
          u = np_random w (rng s);
          greedy = (\<not> fst u > greedy_ratio);
          s1 = s\<lparr>rng := snd u\<rparr>;
          g = get_action w s1 (e_o l) (e_a2 l) (e_r2 l) (e_h l) greedy;
          a = fst (fst g);
          h = snd (fst g);
          s2 = s1\<lparr>rng := snd g\<rparr>;
          stepped = env_step w (envs s2 (env s2)) a;
          o2 = fst (fst stepped);
          r = fst (snd (fst stepped));
          ter = fst (snd (snd (fst stepped)));
          trunc = snd (snd (snd (fst stepped)));
          s3 = s2\<lparr>envs := (envs s2)(env s2 := snd stepped)\<rparr>
      in (s3\<lparr>global_test_steps := global_test_steps s3 + 1\<rparr>,
          \<lparr>e_h = h, e_a2 = a, e_r2 = r, e_o = o2, e_d = (ter \<or> trunc),
           e_ep_len = e_ep_len l + 1, e_ep_rew = e_ep_rew l + r,
           e_observations = e_observations l @ [o2], e_rewards = e_rewards l @ [r]\<rparr>))"

fun test_while ::
  "nat \<Rightarrow> ('e, 'o, 'h, 'r, 'k) world \<Rightarrow> real \<Rightarrow> ('e, 'o, 'h, 'r, 'k) sac \<times> ('o, 'h) test_locals
     \<Rightarrow> (('e, 'o, 'h, 'r, 'k) sac \<times> ('o, 'h) test_locals) option"
where
  "test_while 0 w greedy_ratio sl =
     (if e_d (snd sl) \<or> e_ep_len (snd sl) = max_ep_len (fst sl) then Some sl else None)"
| "test_while (Suc n) w greedy_ratio sl =
     (if e_d (snd sl) \<or> e_ep_len (snd sl) = max_ep_len (fst sl) then Some sl
      else test_while n w greedy_ratio (test_step w greedy_ratio sl))"

text \<open>
  The body of \<^verbatim>\<open>for ep in range(num_test_episodes)\<close>. The state that the episodes hand
  on: the agent, \<^verbatim>\<open>h\<close>, \<^verbatim>\<open>a2\<close>, \<^verbatim>\<open>r2\<close>, and the two dictionaries, as lists indexed by
  the episode.
\<close>

record ('e, 'o, 'h, 'r, 'k) test_state =
  ts_agent :: "('e, 'o, 'h, 'r, 'k) sac"
  ts_h :: 'h
  ts_a2 :: int
  ts_r2 :: real
  ts_observations :: "'o list list"
  ts_rewards :: "real list list"

definition test_episode ::
  "nat \<Rightarrow> ('e, 'o, 'h, 'r, 'k) world \<Rightarrow> nat \<Rightarrow> int \<Rightarrow> real \<Rightarrow> ('e, 'o, 'h, 'r, 'k) test_state
     \<Rightarrow> ('e, 'o, 'h, 'r, 'k) test_state option"
where
  "test_episode fuel w test_env_arg random_init greedy_ratio t =
     (let s = ts_agent t;
          r = env_reset w (envs s test_env_arg);
          s1 = s\<lparr>envs := (envs s)(test_env_arg := snd r)\<rparr>;
          s2 = (if random_init \<noteq> 0 then random_init_steps (nat random_init) w s1 else s1);
          l = \<lparr>e_h = ts_h t, e_a2 = ts_a2 t, e_r2 = ts_r2 t, e_o = fst r, e_d = False,
               e_ep_len = 0, e_ep_rew = 0, e_observations = [], e_rewards = []\<rparr>
      in case test_while fuel w greedy_ratio (s2, l) of
           None \<Rightarrow> None
         | Some sl \<Rightarrow>
             Some \<lparr>ts_agent = fst sl, ts_h = e_h (snd sl), ts_a2 = e_a2 (snd sl),
                   ts_r2 = e_r2 (snd sl),
                   ts_observations = ts_observations t @ [e_observations (snd sl)],
                   ts_rewards = ts_rewards t @ [e_rewards (snd sl)]\<rparr>)"

fun test_episodes ::
  "nat \<Rightarrow> ('e, 'o, 'h, 'r, 'k) world \<Rightarrow> nat \<Rightarrow> int \<Rightarrow> real \<Rightarrow> int list
     \<Rightarrow> ('e, 'o, 'h, 'r, 'k) test_state \<Rightarrow> ('e, 'o, 'h, 'r, 'k) test_state option"
where
  "test_episodes fuel w test_env_arg random_init greedy_ratio [] t = Some t"
| "test_episodes fuel w test_env_arg random_init greedy_ratio (ep # eps) t =
     (case test_episode fuel w test_env_arg random_init greedy_ratio t of
        None \<Rightarrow> None
      | Some t' \<Rightarrow> test_episodes fuel w test_env_arg random_init greedy_ratio eps t')"

text \<open>
  \<^verbatim>\<open>test_agent(test_env, num_test_episodes, random_init, greedy_ratio)\<close>: lines 299 to
  303 set \<^verbatim>\<open>self.test_env\<close>, \<^verbatim>\<open>h\<close> to zero, the two dictionaries, and \<^verbatim>\<open>a2, r2 = 0, 0\<close>;
  then the episodes run. Of \<^verbatim>\<open>_log_test_trial\<close> the model keeps the division by
  \<^verbatim>\<open>self.steps_per_epoch\<close> and the modulo by \<^verbatim>\<open>self.save_freq\<close>.
\<close>

definition test_start ::
  "('e, 'o, 'h, 'r, 'k) world \<Rightarrow> nat \<Rightarrow> ('e, 'o, 'h, 'r, 'k) sac
     \<Rightarrow> ('e, 'o, 'h, 'r, 'k) test_state"
where
  "test_start w test_env_arg s =
     \<lparr>ts_agent = s\<lparr>test_env := Some test_env_arg\<rparr>, ts_h = zeros_hidden w,
      ts_a2 = 0, ts_r2 = 0, ts_observations = [], ts_rewards = []\<rparr>"

definition test_agent ::
  "nat \<Rightarrow> ('e, 'o, 'h, 'r, 'k) world \<Rightarrow> nat \<Rightarrow> int \<Rightarrow> int \<Rightarrow> real \<Rightarrow> ('e, 'o, 'h, 'r, 'k) sac
     \<Rightarrow> ((py_error \<times> ('e, 'o, 'h, 'r, 'k) sac)
          + (('o list list \<times> real list list) \<times> ('e, 'o, 'h, 'r, 'k) sac)) option"
where
  "test_agent fuel w test_env_arg num_test_episodes random_init greedy_ratio s =
     (case test_episodes fuel w test_env_arg random_init greedy_ratio
             (range_int num_test_episodes) (test_start w test_env_arg s) of
        None \<Rightarrow> None
      | Some t \<Rightarrow>
          Some (if steps_per_epoch (ts_agent t) = 0 \<or> save_freq (ts_agent t) = 0
                then Inl (ZeroDivisionError, ts_agent t)
                else Inr ((ts_observations t, ts_rewards t), ts_agent t)))"

section \<open>The spec's reading of the soft value\<close>

text \<open>
  The soft value of transition \<open>i\<close> as the specification writes it:
  \<open>next_v = sum_a pi2(a) * (q_targ_min(a) - alpha * logp2(a))\<close>, over \<open>k\<close> actions.
\<close>

definition spec_next_v ::
  "real \<Rightarrow> tensor \<Rightarrow> tensor \<Rightarrow> tensor \<Rightarrow> tensor \<Rightarrow> nat \<Rightarrow> nat \<Rightarrow> real"
where
  "spec_next_v al pi2 logp2 q1_targ q2_targ k i =
     (\<Sum>a<k. elem pi2 i a * (min (elem q1_targ i a) (elem q2_targ i a) - al * elem logp2 i a))"

section \<open>Isolation of the target parameters\<close>

text \<open>The agent that a call leaves behind, whether it returned or raised.\<close>

definition final_agent :: "(py_error \<times> 's) + 's \<Rightarrow> 's" where
  "final_agent r = (case r of Inl x \<Rightarrow> snd x | Inr s \<Rightarrow> s)"

text \<open>
  A parameter that nothing but the target smoothing can write: it does not require a
  gradient, and it is neither an online parameter, nor a parameter of an optimizer, nor
  an item of the iterator \<open>q_params\<close>.
\<close>

definition alpha_params :: "('e, 'o, 'h, 'r, 'k) sac \<Rightarrow> addr list" where
  "alpha_params s = (case alpha_optimizer s of None \<Rightarrow> [] | Some ao \<Rightarrow> opt_params ao)"

definition untouchable :: "('e, 'o, 'h, 'r, 'k) sac \<Rightarrow> addr \<Rightarrow> bool" where
  "untouchable s a =
     (\<not> requires_grad (heap s a)
      \<and> a \<notin> set (parameters (ac s))
      \<and> a \<notin> set (opt_params (q_optimizer s))
      \<and> a \<notin> set (opt_params (pi_optimizer s))
      \<and> a \<notin> set (alpha_params s)
      \<and> a \<notin> set (q_params s))"

text \<open>
  What a step of an update keeps: the modules, the parameters of the optimizers, the
  smoothing coefficient, the calls made on the buffer, and every untouchable cell. The iterator \<open>q_params\<close> can only lose
  items.
\<close>

definition kept :: "('e, 'o, 'h, 'r, 'k) sac \<Rightarrow> ('e, 'o, 'h, 'r, 'k) sac \<Rightarrow> bool" where
  "kept s s' =
     (ac s' = ac s \<and> ac_targ s' = ac_targ s \<and> polyak s' = polyak s
      \<and> opt_params (q_optimizer s') = opt_params (q_optimizer s)
      \<and> opt_params (pi_optimizer s') = opt_params (pi_optimizer s)
      \<and> alpha_params s' = alpha_params s
      \<and> set (q_params s') \<subseteq> set (q_params s)
      \<and> buffer s' = buffer s
      \<and> (\<forall>a. untouchable s a \<longrightarrow> heap s' a = heap s a))"

text \<open>
  Every target parameter is untouchable and holds no gradient; the target parameters
  are pairwise distinct and as many as the online ones.
\<close>

definition target_isolated :: "('e, 'o, 'h, 'r, 'k) sac \<Rightarrow> bool" where
  "target_isolated s =
     ((\<forall>a \<in> set (parameters (ac_targ s)). untouchable s a \<and> grad (heap s a) = None)
      \<and> distinct (parameters (ac_targ s))
      \<and> length (parameters (ac_targ s)) = length (parameters (ac s)))"

text \<open>
  What every operation of the agent keeps: the isolation of the target parameters, the
  target module, and the calls already made on the buffer.
\<close>

definition evolves :: "('e, 'o, 'h, 'r, 'k) sac \<Rightarrow> ('e, 'o, 'h, 'r, 'k) sac \<Rightarrow> bool" where
  "evolves s s' =
     ((target_isolated s \<longrightarrow> target_isolated s')
      \<and> ac_targ s' = ac_targ s
      \<and> (\<exists>calls. buffer s' = buffer s @ calls))"

text \<open>
  Two agents with the same parameters: the same heap, modules, smoothing coefficient,
  lists of optimizer parameters and iterator \<open>q_params\<close>. They may differ in everything
  else: the environments, the buffer, the counters, the generator, the state of the
  optimizers.
\<close>

definition same_parameters :: "('e, 'o, 'h, 'r, 'k) sac \<Rightarrow> ('e, 'o, 'h, 'r, 'k) sac \<Rightarrow> bool" where
  "same_parameters s s' =
     (heap s' = heap s \<and> ac s' = ac s \<and> ac_targ s' = ac_targ s \<and> polyak s' = polyak s
      \<and> opt_params (q_optimizer s') = opt_params (q_optimizer s)
      \<and> opt_params (pi_optimizer s') = opt_params (pi_optimizer s)
      \<and> alpha_params s' = alpha_params s
      \<and> q_params s' = q_params s)"

text \<open>
  \<open>updated_by w s us s'\<close>: the parameters of \<open>s'\<close> come from those of \<open>s\<close> through calls of
  \<^verbatim>\<open>update\<close>, one on each agent of \<open>us\<close> in this order, and through nothing else. The
  first agent of \<open>us\<close> has the parameters of \<open>s\<close>, each later one those that the call
  before it left, and \<open>s'\<close> has those that the last call left.
\<close>

fun updated_by ::
  "('e, 'o, 'h, 'r, 'k) world \<Rightarrow> ('e, 'o, 'h, 'r, 'k) sac \<Rightarrow> ('e, 'o, 'h, 'r, 'k) sac list
     \<Rightarrow> ('e, 'o, 'h, 'r, 'k) sac \<Rightarrow> bool"
where
  "updated_by w s [] s' = same_parameters s s'"
| "updated_by w s (u # us) s' =
     (same_parameters s u \<and> updated_by w (final_agent (update w u)) us s')"

definition agent_of :: "(py_error \<times> 's) + ('s \<times> 'x) \<Rightarrow> 's" where
  "agent_of r = (case r of Inl x \<Rightarrow> snd x | Inr y \<Rightarrow> fst y)"

definition agent_left :: "(py_error \<times> 's) + ('x \<times> 's) \<Rightarrow> 's" where
  "agent_left r = (case r of Inl x \<Rightarrow> snd x | Inr y \<Rightarrow> snd y)"

section \<open>A small world\<close>

text \<open>
  Concrete collaborators on which the model runs. An environment is a pair of its name
  and the number of steps taken since its reset, and its observation is that pair; an
  episode ends at the third step. The recurrent state is a counter that the memory
  encoder increments; it has one entry, so its view fits a hidden size of 1 only.
\<close>

definition ones :: "nat \<Rightarrow> nat \<Rightarrow> real \<Rightarrow> tensor" where
  "ones n k c = \<lparr>nrows = n, ncols = k, elem = (\<lambda>i j. c)\<rparr>"

definition toy_episode :: "int episode" where
  "toy_episode =
     \<lparr>b_obs = ones 2 1 0, b_act = ones 1 2 0, b_rew = ones 1 2 1, b_obs2 = ones 2 1 0,
      b_done = ones 2 1 0, b_prev_act = ones 1 2 0, b_prev_rew = ones 1 2 0,
      b_hid = 0, b_hid_out = 0\<rparr>"

text \<open>
  A tensor written as the list of its rows. \<open>mixed_episode\<close> holds two transitions with
  different actions, rewards and done flags, the done flags as a column;
  \<open>rank_one_episode\<close> holds the same with the done flags as a tensor of rank one.
\<close>

definition tensor_of :: "real list list \<Rightarrow> tensor" where
  "tensor_of xss =
     \<lparr>nrows = length xss, ncols = (case xss of [] \<Rightarrow> 0 | xs # _ \<Rightarrow> length xs),
      elem = (\<lambda>i j. xss ! i ! j)\<rparr>"

definition mixed_episode :: "int episode" where
  "mixed_episode =
     toy_episode\<lparr>b_act := tensor_of [[0, 1]], b_rew := tensor_of [[1, 3]],
                 b_done := tensor_of [[0], [1]]\<rparr>"

definition rank_one_episode :: "int episode" where
  "rank_one_episode = mixed_episode\<lparr>b_done := tensor_of [[0, 1]]\<rparr>"

definition toy_world :: "(int \<times> int, int \<times> int, int, unit, unit) world" where
  "toy_world =
     \<lparr>q1_forward = (\<lambda>vs x. ones (nrows x) 2 (sum_list vs)),
      q2_forward = (\<lambda>vs x. ones (nrows x) 2 (sum_list vs)),
      memory_forward = (\<lambda>vs x a r h. x),
      pi_sample = (\<lambda>vs x g. ((ones (nrows x) 2 (1/2), ones (nrows x) 2 (-1)), g)),
      ac_act = (\<lambda>vs x a r h. (0, h + 1)),
      ac_explore = (\<lambda>vs x a r h g. ((2, h + 1), g)),
      zeros_hidden = 0,
      view_hidden = (\<lambda>h n. if n = 1 then Some h else None),
      env_reset = (\<lambda>e. ((fst e, 0), (fst e, 0))),
      env_step = (\<lambda>e a. (((fst e, snd e + 1), real_of_int a, snd e + 1 \<ge> 3, False),
                          (fst e, snd e + 1))),
      action_space_sample = (\<lambda>e. (1, e)),
      np_random = (\<lambda>g. (1/2, g)),
      buffer_get = (\<lambda>calls n g. (replicate (nat n) toy_episode, g)),
      backward_q = (\<lambda>h ep a. Some 1),
      backward_pi = (\<lambda>h ep a. Some 1),
      backward_alpha = (\<lambda>h lp a. Some 1),
      clip_coef = (\<lambda>c gs. 1),
      adam_step = (\<lambda>k xs. ((), map (\<lambda>x. fst x - (case snd x of None \<Rightarrow> 0 | Some g \<Rightarrow> g)) xs)),
      scheduler_step = (\<lambda>k. k),
      torch_exp = (\<lambda>x. 1 + x)\<rparr>"

definition toy_args :: "(int \<times> int, unit, unit) init_args" where
  "toy_args =
     \<lparr>i_env = 0, i_envs = (\<lambda>n. (int n, 0)), i_rng = (), i_adam = (),
      i_max_ep_len = 2, i_save_every_n_update = 1, i_gamma = 1/2, i_polyak = 1/2,
      i_epochs = 1, i_batch_size = 1, i_hidden_size = 1, i_start_steps = 0,
      i_update_every = 50,
      i_clip_ratio = 1, i_number_of_trajectories = 2, i_use_alpha_annealing = False,
      i_model_file_to_load = None,
      i_fresh_model = \<lparr>mv_pi = [1], mv_q1 = [2], mv_q2 = [3], mv_memory = [4]\<rparr>\<rparr>"

definition toy_agent :: "(int \<times> int, int \<times> int, int, unit, unit) sac" where
  "toy_agent = init toy_world toy_args"

text \<open>
  The training run of the small world: one epoch of two trajectories of two steps, the
  first step of which is a warm-up step.
\<close>

definition buffer_after ::
  "((py_error \<times> ('e, 'o, 'h, 'r, 'k) sac) + ('e, 'o, 'h, 'r, 'k) sac) option
     \<Rightarrow> ('o, 'h) buffer_call list"
where
  "buffer_after r = (case r of None \<Rightarrow> [] | Some x \<Rightarrow> buffer (final_agent x))"

definition toy_carry :: "int carry" where
  "toy_carry = \<lparr>c_a2 = 0, c_r2 = 0, c_h_in = 0, c_h_out = 0\<rparr>"

text \<open>What a call returned, and the state of an environment after it.\<close>

definition returned :: "((py_error \<times> 's) + ('x \<times> 's)) option \<Rightarrow> 'x option" where
  "returned r = (case r of Some (Inr x) \<Rightarrow> Some (fst x) | _ \<Rightarrow> None)"

definition env_after ::
  "((py_error \<times> ('e, 'o, 'h, 'r, 'k) sac) + ('x \<times> ('e, 'o, 'h, 'r, 'k) sac)) option
     \<Rightarrow> nat \<Rightarrow> 'e option"
where
  "env_after r n =
     (case r of
        None \<Rightarrow> None
      | Some (Inl x) \<Rightarrow> Some (envs (snd x) n)
      | Some (Inr x) \<Rightarrow> Some (envs (snd x) n))"

text \<open>Locals in the middle of a trajectory of the small world, one step before the limit.\<close>

definition toy_locals :: "(int \<times> int, int) train_locals" where
  "toy_locals =
     \<lparr>l_a2 = 1, l_r2 = 1, l_h_in = 0, l_h_out = 0, l_d = False, l_ep_ret = 1,
      l_ep_len = 1, l_o = (0, 2)\<rparr>"

text \<open>The agent of the small world built with \<^verbatim>\<open>max_ep_len=0\<close>.\<close>

definition toy_agent_no_steps :: "(int \<times> int, int \<times> int, int, unit, unit) sac" where
  "toy_agent_no_steps = init toy_world (toy_args\<lparr>i_max_ep_len := 0\<rparr>)"

section \<open>Tensor arithmetic\<close>

lemma tbin_same_shape:
  "shape a = (n, k) \<Longrightarrow> shape b = (n, k) \<Longrightarrow>
   \<exists>c. tbin f a b = Inr c \<and> shape c = (n, k) \<and> (\<forall>i<n. \<forall>j<k. elem c i j = f (elem a i j) (elem b i j))"
  by (auto simp: tbin_def shape_def broadcastable_def bcompat_def bdim_def bat_def)

lemma shape_tmap: "shape (tmap f t) = shape t"
  by (simp add: tmap_def shape_def)

lemma elem_tmap: "elem (tmap f t) i j = f (elem t i j)"
  by (simp add: tmap_def)

lemma soft_value_shaped:
  assumes "shape a2 = (n, k)" "shape logp = (n, k)" "shape q1t = (n, k)" "shape q2t = (n, k)"
  shows "\<exists>v. soft_value al a2 logp q1t q2t = Inr v \<and> shape v = (n, 1) \<and>
           (\<forall>i<n. \<forall>j. elem v i j = spec_next_v al a2 logp q1t q2t k i)"
proof -
  obtain q where q: "tbin min q1t q2t = Inr q" "shape q = (n, k)"
    "\<forall>i<n. \<forall>j<k. elem q i j = min (elem q1t i j) (elem q2t i j)"
    using tbin_same_shape [OF assms(3) assms(4)] by blast
  have sl: "shape (tmap ((*) al) logp) = (n, k)" using assms(2) by (simp add: shape_tmap)
  obtain x where x: "tbin (-) q (tmap ((*) al) logp) = Inr x" "shape x = (n, k)"
    "\<forall>i<n. \<forall>j<k. elem x i j = elem q i j - elem (tmap ((*) al) logp) i j"
    using tbin_same_shape [OF q(2) sl] by blast
  obtain y where y: "tbin (*) a2 x = Inr y" "shape y = (n, k)"
    "\<forall>i<n. \<forall>j<k. elem y i j = elem a2 i j * elem x i j"
    using tbin_same_shape [OF assms(1) x(2)] by blast
  have sv: "soft_value al a2 logp q1t q2t = Inr (sum_dim1 y)"
    by (simp add: soft_value_def q(1) x(1) y(1))
  have sh: "shape (sum_dim1 y) = (n, 1)"
    using y(2) by (simp add: sum_dim1_def shape_def)
  have el: "elem (sum_dim1 y) i j = spec_next_v al a2 logp q1t q2t k i"
    if "i < n" for i j
  proof -
    have "ncols y = k" using y(2) by (simp add: shape_def)
    then have "elem (sum_dim1 y) i j = (\<Sum>a<k. elem y i a)" by (simp add: sum_dim1_def)
    also have "\<dots> = (\<Sum>a<k. elem a2 i a * (min (elem q1t i a) (elem q2t i a) - al * elem logp i a))"
      using that q(3) x(3) y(3) by (intro sum.cong) (simp_all add: elem_tmap)
    finally show ?thesis by (simp add: spec_next_v_def)
  qed
  show ?thesis using sv sh el by blast
qed

lemma backup_of_mismatch:
  "shape rew \<noteq> shape nq \<Longrightarrow> backup_of g rew dn nq = Inl AssertionError"
  by (simp add: backup_of_def)

lemma backup_of_refused:
  "shape rew = (n, 1) \<Longrightarrow> shape nq = (n, 1) \<Longrightarrow> \<not> bcompat (nrows dn) n
    \<Longrightarrow> backup_of g rew dn nq = Inl RuntimeError"
  by (auto simp: backup_of_def tbin_def shape_def broadcastable_def bcompat_def tmap_def)

lemma backup_of_entries:
  assumes "shape rew = (n, 1)" "shape nq = (n, 1)" "bcompat (nrows dn) n"
  shows "\<exists>b. backup_of g rew dn nq = Inr b
           \<and> shape b = (if n = 1 then nrows dn else n, ncols dn)
           \<and> (\<forall>i j. i < (if n = 1 then nrows dn else n) \<longrightarrow> j < ncols dn \<longrightarrow>
                 elem b i j = elem rew (if n = 1 then 0 else i) 0
                   + g * (1 - elem dn (if nrows dn = 1 then 0 else i) j)
                     * elem nq (if n = 1 then 0 else i) 0)"
  using assms
  by (auto simp: backup_of_def tbin_def shape_def broadcastable_def bcompat_def bdim_def bat_def tmap_def)

lemma gather_index:
  "gather_dim1 q (long (view_col act)) =
     (if nrows act * ncols act \<le> nrows q
         \<and> (\<forall>i<nrows act * ncols act.
               0 \<le> to_long (elem act (i div ncols act) (i mod ncols act))
             \<and> to_long (elem act (i div ncols act) (i mod ncols act)) < int (ncols q))
      then Inr \<lparr>nrows = nrows act * ncols act, ncols = 1,
                elem = (\<lambda>i j. elem q i (nat (to_long (elem act (i div ncols act) (i mod ncols act)))))\<rparr>
      else Inl RuntimeError)"
  by (auto simp: gather_dim1_def long_def view_col_def tmap_def)

lemma mse_column:
  assumes "nrows a = m" "ncols a = 1"
  shows "bcompat m (nrows b) \<Longrightarrow> \<exists>x. mse a b = Inr x"
    and "\<not> bcompat m (nrows b) \<Longrightarrow> mse a b = Inl RuntimeError"
  using assms by (auto simp: mse_def tbin_def broadcastable_def bcompat_def)

subsection \<open>Frame lemmas for the heap operations\<close>

lemma zero_grad_frame: "a \<notin> set ps \<Longrightarrow> zero_grad ps h a = h a"
  by (simp add: zero_grad_def)

lemma zero_grad_flags [simp]:
  "requires_grad (zero_grad ps h a) = requires_grad (h a)"
  "data (zero_grad ps h a) = data (h a)"
  by (simp_all add: zero_grad_def)

lemma backward_frame: "\<not> requires_grad (h a) \<Longrightarrow> backward gr g h a = h a"
  by (simp add: backward_def)

lemma backward_outside: "a \<notin> set gr \<Longrightarrow> backward gr g h a = h a"
  by (simp add: backward_def)

lemma backward_flags [simp]:
  "requires_grad (backward gr g h a) = requires_grad (h a)"
  "data (backward gr g h a) = data (h a)"
  by (simp_all add: backward_def split: option.splits)

lemma clip_grad_norm_frame: "a \<notin> set ps \<Longrightarrow> clip_grad_norm w ps c h a = h a"
  by (simp add: clip_grad_norm_def Let_def)

lemma clip_grad_norm_flags [simp]:
  "requires_grad (clip_grad_norm w ps c h a) = requires_grad (h a)"
  "data (clip_grad_norm w ps c h a) = data (h a)"
  by (simp_all add: clip_grad_norm_def Let_def)

lemma write_data_frame: "a \<notin> fst ` set xs \<Longrightarrow> write_data xs h a = h a"
  by (induction xs h rule: write_data.induct) auto

lemma write_data_flags [simp]:
  "requires_grad (write_data xs h a) = requires_grad (h a)"
  "grad (write_data xs h a) = grad (h a)"
  by (induction xs h rule: write_data.induct) auto

lemma opt_step_frame: "a \<notin> set (opt_params opt) \<Longrightarrow> snd (opt_step w opt h) a = h a"
proof -
  assume "a \<notin> set (opt_params opt)"
  then have "a \<notin> fst ` set (zip (opt_params opt) ys)" for ys :: "real list"
    by (auto dest: set_zip_leftD)
  then show ?thesis by (simp add: opt_step_def Let_def write_data_frame)
qed

lemma opt_step_flags [simp]:
  "requires_grad (snd (opt_step w opt h) a) = requires_grad (h a)"
  "grad (snd (opt_step w opt h) a) = grad (h a)"
  "opt_params (fst (opt_step w opt h)) = opt_params opt"
  by (simp_all add: opt_step_def Let_def)

lemma set_requires_grad_frame: "a \<notin> set ps \<Longrightarrow> set_requires_grad ps b h a = h a"
  by (simp add: set_requires_grad_def)

lemma set_requires_grad_nil [simp]: "set_requires_grad [] b h = h"
  by (simp add: set_requires_grad_def)

lemma polyak_pass_frame: "a \<notin> snd ` set xs \<Longrightarrow> polyak_pass c xs h a = h a"
  by (induction c xs h rule: polyak_pass.induct) (auto simp: Let_def)

lemma polyak_pass_flags [simp]:
  "requires_grad (polyak_pass c xs h a) = requires_grad (h a)"
  "grad (polyak_pass c xs h a) = grad (h a)"
  by (induction c xs h rule: polyak_pass.induct) (auto simp: Let_def)

lemma polyak_pass_target:
  "distinct (map snd xs) \<Longrightarrow> fst ` set xs \<inter> snd ` set xs = {} \<Longrightarrow> (p, t) \<in> set xs \<Longrightarrow>
   data (polyak_pass c xs h t) = c * data (h t) + (1 - c) * data (h p)"
proof (induction c xs h rule: polyak_pass.induct)
  case (1 c h)
  then show ?case by simp
next
  case (2 c p' t' xs h)
  let ?h1 = "h(t' := (h t')\<lparr>data := data (h t') * c\<rparr>)"
  let ?h2 = "?h1(t' := (?h1 t')\<lparr>data := data (?h1 t') + (1 - c) * data (?h1 p')\<rparr>)"
  have pt: "p' \<noteq> t'" using "2.prems"(2) by auto
  show ?case
  proof (cases "(p, t) = (p', t')")
    case True
    then have "t \<notin> snd ` set xs" using "2.prems"(1) by auto
    then have "polyak_pass c xs ?h2 t = ?h2 t" by (rule polyak_pass_frame)
    then show ?thesis using True pt by (simp add: Let_def mult.commute)
  next
    case False
    then have mem: "(p, t) \<in> set xs" using "2.prems"(3) by auto
    have d: "distinct (map snd xs)" using "2.prems"(1) by simp
    have disj: "fst ` set xs \<inter> snd ` set xs = {}" using "2.prems"(2) by auto
    have tt: "t \<noteq> t'" using mem "2.prems"(1) by (auto simp: image_iff)
    have pp: "p \<noteq> t'" using mem "2.prems"(2) by (auto simp: image_iff) 
    have "data (polyak_pass c xs ?h2 t) = c * data (?h2 t) + (1 - c) * data (?h2 p)"
      using "2.IH" [OF refl refl d disj mem] .
    then show ?thesis using tt pp by (simp add: Let_def)
  qed
qed

subsection \<open>What the steps of an update keep\<close>

lemma kept_refl: "kept s s"
  by (simp add: kept_def)

lemma kept_untouchable: "kept s s' \<Longrightarrow> untouchable s a \<Longrightarrow> untouchable s' a"
  by (auto simp: kept_def untouchable_def)

lemma kept_trans:
  assumes "kept s s'" "kept s' s''"
  shows "kept s s''"
proof -
  have "heap s'' a = heap s a" if u: "untouchable s a" for a
  proof -
    have "untouchable s' a" using assms(1) u by (rule kept_untouchable)
    then have "heap s'' a = heap s' a" using assms(2) by (simp add: kept_def)
    moreover have "heap s' a = heap s a" using assms(1) u by (simp add: kept_def)
    ultimately show ?thesis by simp
  qed
  moreover have "set (q_params s'') \<subseteq> set (q_params s)"
    using assms by (auto simp: kept_def)
  ultimately show ?thesis using assms by (simp add: kept_def)
qed

lemma kept_rng: "kept s (s\<lparr>rng := r\<rparr>)"
  by (simp add: kept_def alpha_params_def)

lemma same_agent: "\<exists>r. s = s\<lparr>rng := r\<rparr>"
  by (rule exI [of _ "rng s"]) simp

lemma compute_critic_loss_agent:
  "compute_critic_loss w s ep = Inl (e, s1) \<Longrightarrow> \<exists>r. s1 = s\<lparr>rng := r\<rparr>"
  "compute_critic_loss w s ep = Inr (b, s1) \<Longrightarrow> \<exists>r. s1 = s\<lparr>rng := r\<rparr>"
  by (auto simp: compute_critic_loss_def Let_def same_agent split: sum.splits option.splits)

lemma compute_critic_loss_graph:
  "compute_critic_loss w s ep = Inr (b, s1) \<Longrightarrow> cl_graph b = ac_q1 (ac s) @ ac_q2 (ac s)"
  by (auto simp: compute_critic_loss_def Let_def split: sum.splits option.splits)

lemma compute_policy_loss_agent:
  "compute_policy_loss w s ep = Inl (e, s1) \<Longrightarrow> \<exists>r. s1 = s\<lparr>rng := r\<rparr>"
  "compute_policy_loss w s ep = Inr (x, s1) \<Longrightarrow> \<exists>r. s1 = s\<lparr>rng := r\<rparr>"
  by (auto simp: compute_policy_loss_def Let_def same_agent split: sum.splits option.splits)

lemma critic_step_kept:
  "critic_step w s ep = Inl (e, s') \<Longrightarrow> kept s s'"
  "critic_step w s ep = Inr s' \<Longrightarrow> kept s s'"
  by (auto simp: critic_step_def Let_def kept_def alpha_params_def untouchable_def
        opt_step_frame clip_grad_norm_frame backward_frame zero_grad_frame
      split: sum.splits prod.splits dest!: compute_critic_loss_agent)

lemma freeze_q_params_kept: "kept s (freeze_q_params s)"
  by (simp add: freeze_q_params_def kept_def alpha_params_def untouchable_def set_requires_grad_frame)

lemma unfreeze_q_params_kept: "kept s (unfreeze_q_params s)"
  by (simp add: unfreeze_q_params_def kept_def alpha_params_def untouchable_def set_requires_grad_frame)

lemma policy_step_kept:
  "policy_step w s ep = Inl (e, s') \<Longrightarrow> kept s s'"
  "policy_step w s ep = Inr (lp, s') \<Longrightarrow> kept s s'"
  by (auto simp: policy_step_def Let_def kept_def alpha_params_def untouchable_def
        opt_step_frame clip_grad_norm_frame backward_frame zero_grad_frame
      split: sum.splits prod.splits dest!: compute_policy_loss_agent)

lemma alpha_step_kept:
  "alpha_step w s lp = Inl (e, s') \<Longrightarrow> kept s s'"
  "alpha_step w s lp = Inr s' \<Longrightarrow> kept s s'"
  by (auto simp: alpha_step_def Let_def kept_def alpha_params_def untouchable_def
        opt_step_frame backward_frame zero_grad_frame
      split: if_splits option.splits)

lemma update_episode_kept:
  "update_episode w s ep = Inl (e, s') \<Longrightarrow> kept s s'"
  "update_episode w s ep = Inr s' \<Longrightarrow> kept s s'"
proof -
  have *: "kept s (final_agent (update_episode w s ep))"
  proof (cases "critic_step w s ep")
    case (Inl x)
    then show ?thesis
      using critic_step_kept(1) [of w s ep "fst x" "snd x"]
      by (simp add: update_episode_def final_agent_def)
  next
    case c: (Inr s1)
    have k1: "kept s (freeze_q_params s1)"
      using critic_step_kept(2) [OF c] freeze_q_params_kept by (rule kept_trans)
    show ?thesis
    proof (cases "policy_step w (freeze_q_params s1) ep")
      case (Inl x)
      then have "kept (freeze_q_params s1) (snd x)"
        using policy_step_kept(1) [of w "freeze_q_params s1" ep "fst x" "snd x"] by simp
      then show ?thesis using c Inl k1
        by (auto simp: update_episode_def final_agent_def intro: kept_trans)
    next
      case p: (Inr y)
      obtain lp s2 where y: "y = (lp, s2)" by (cases y)
      have "kept (freeze_q_params s1) s2" using p y policy_step_kept(2) by blast
      then have k2: "kept s (unfreeze_q_params s2)"
        using k1 unfreeze_q_params_kept by (blast intro: kept_trans)
      have "kept (unfreeze_q_params s2) (final_agent (alpha_step w (unfreeze_q_params s2) lp))"
        using alpha_step_kept [of w "unfreeze_q_params s2" lp]
        by (cases "alpha_step w (unfreeze_q_params s2) lp") (auto simp: final_agent_def)
      then show ?thesis using c p y k2
        by (auto simp: update_episode_def intro: kept_trans)
    qed
  qed
  show "update_episode w s ep = Inl (e, s') \<Longrightarrow> kept s s'"
    using * by (simp add: final_agent_def)
  show "update_episode w s ep = Inr s' \<Longrightarrow> kept s s'"
    using * by (simp add: final_agent_def)
qed

lemma update_episodes_kept:
  "update_episodes w batch sb = Inl (e, s') \<Longrightarrow> kept (fst sb) s'"
  "update_episodes w batch sb = Inr (s', b) \<Longrightarrow> kept (fst sb) s'"
proof (induction batch arbitrary: sb)
  case Nil
  { case 1 then show ?case by simp }
  { case 2 then show ?case by (auto simp: kept_refl) }
next
  case (Cons ep batch)
  { case 1
    show ?case
    proof (cases "update_episode w (fst sb) ep")
      case (Inl x)
      then show ?thesis using 1 update_episode_kept(1) [of w "fst sb" ep e s'] by simp
    next
      case (Inr s1)
      then have "update_episodes w batch (s1, True) = Inl (e, s')" using 1 by simp
      then have "kept s1 s'" using Cons.IH(1) by fastforce
      then show ?thesis using update_episode_kept(2) [OF Inr] by (blast intro: kept_trans)
    qed }
  { case 2
    show ?case
    proof (cases "update_episode w (fst sb) ep")
      case (Inl x)
      then show ?thesis using 2 by simp
    next
      case (Inr s1)
      then have "update_episodes w batch (s1, True) = Inr (s', b)" using 2 by simp
      then have "kept s1 s'" using Cons.IH(2) by fastforce
      then show ?thesis using update_episode_kept(2) [OF Inr] by (blast intro: kept_trans)
    qed }
qed

lemma update_episodes_bound:
  "update_episodes w batch sb = Inr (s', b) \<Longrightarrow> b = (batch \<noteq> [] \<or> snd sb)"
proof (induction batch arbitrary: sb)
  case Nil
  then show ?case by auto
next
  case (Cons ep batch)
  then obtain s1 where "update_episodes w batch (s1, True) = Inr (s', b)"
    by (auto split: sum.splits)
  then have "b = (batch \<noteq> [] \<or> snd (s1, True))" by (rule Cons.IH)
  then show ?case by simp
qed

lemma update_raises_kept:
  assumes "update w s = Inl (e, s')"
  shows "kept s s'"
proof -
  let ?got = "buffer_get w (buffer s) (batch_size s) (rng s)"
  let ?s0 = "s\<lparr>rng := snd ?got\<rparr>"
  have k0: "kept s ?s0" by (rule kept_rng)
  show ?thesis
  proof (cases "update_episodes w (fst ?got) (?s0, False)")
    case (Inl x)
    then have "x = (e, s')" using assms by (simp add: update_def Let_def)
    then have "kept (fst (?s0, False)) s'" using Inl update_episodes_kept(1) by blast
    then show ?thesis using k0 by (auto intro: kept_trans)
  next
    case (Inr y)
    obtain s1 b where y: "y = (s1, b)" by (cases y)
    have "kept (fst (?s0, False)) s1" using Inr y update_episodes_kept(2) by blast
    moreover have "s' = s1" using assms Inr y by (simp add: update_def Let_def split: if_splits)
    ultimately show ?thesis using k0 by (auto intro: kept_trans)
  qed
qed

lemma update_returns:
  assumes "update w s = Inr s'"
  shows "\<exists>s1. update_episodes w (fst (buffer_get w (buffer s) (batch_size s) (rng s)))
                 (s\<lparr>rng := snd (buffer_get w (buffer s) (batch_size s) (rng s))\<rparr>, False)
               = Inr (s1, True)
             \<and> kept s s1
             \<and> s' = s1\<lparr>heap := polyak_pass (polyak s1)
                                  (zip (parameters (ac s1)) (parameters (ac_targ s1))) (heap s1)\<rparr>"
proof -
  let ?got = "buffer_get w (buffer s) (batch_size s) (rng s)"
  let ?s0 = "s\<lparr>rng := snd ?got\<rparr>"
  have k0: "kept s ?s0" by (rule kept_rng)
  show ?thesis
  proof (cases "update_episodes w (fst ?got) (?s0, False)")
    case (Inl x)
    then show ?thesis using assms by (simp add: update_def Let_def)
  next
    case (Inr y)
    obtain s1 b where y: "y = (s1, b)" by (cases y)
    have b: "b" using assms Inr y by (simp add: update_def Let_def split: if_splits)
    have "kept (fst (?s0, False)) s1" using Inr y update_episodes_kept(2) by blast
    then have "kept s s1" using k0 by (auto intro: kept_trans)
    moreover have "s' = s1\<lparr>heap := polyak_pass (polyak s1)
                                  (zip (parameters (ac s1)) (parameters (ac_targ s1))) (heap s1)\<rparr>"
      using assms Inr y b by (simp add: update_def Let_def)
    ultimately show ?thesis using Inr y b by simp
  qed
qed

subsection \<open>The parameters that the constructor allocates\<close>

lemma upt_four:
  "[n ..< n + a] @ [n + a ..< n + a + b] @ [n + a + b ..< n + a + b + c]
     @ [n + a + b + c ..< n + a + b + c + d] = [n ..< n + a + b + c + (d::nat)]"
proof -
  have 1: "[n ..< n + a + b] = [n ..< n + a] @ [n + a ..< n + a + b]"
    using upt_add_eq_append [of n "n + a" b] by simp
  have 2: "[n ..< n + a + b + c] = [n ..< n + a + b] @ [n + a + b ..< n + a + b + c]"
    using upt_add_eq_append [of n "n + a + b" c] by simp
  have 3: "[n ..< n + a + b + c + d] = [n ..< n + a + b + c] @ [n + a + b + c ..< n + a + b + c + d]"
    using upt_add_eq_append [of n "n + a + b + c" d] by simp
  show ?thesis by (simp only: 1 2 3 append_assoc)
qed

lemma nth_four:
  "i < length a \<Longrightarrow> (a @ b @ c @ d) ! i = a ! i"
  "length a \<le> i \<Longrightarrow> i < length a + length b \<Longrightarrow> (a @ b @ c @ d) ! i = b ! (i - length a)"
  "length a + length b \<le> i \<Longrightarrow> i < length a + length b + length c
     \<Longrightarrow> (a @ b @ c @ d) ! i = c ! (i - length a - length b)"
  "length a + length b + length c \<le> i
     \<Longrightarrow> (a @ b @ c @ d) ! i = d ! (i - length a - length b - length c)"
proof -
  show "i < length a \<Longrightarrow> (a @ b @ c @ d) ! i = a ! i" by (simp add: nth_append)
  show "length a \<le> i \<Longrightarrow> i < length a + length b \<Longrightarrow> (a @ b @ c @ d) ! i = b ! (i - length a)"
  proof -
    assume h: "length a \<le> i" "i < length a + length b"
    then have "\<not> i < length a" "i - length a < length b" by linarith+
    then show ?thesis by (simp add: nth_append)
  qed
  show "length a + length b \<le> i \<Longrightarrow> i < length a + length b + length c
     \<Longrightarrow> (a @ b @ c @ d) ! i = c ! (i - length a - length b)"
  proof -
    assume h: "length a + length b \<le> i" "i < length a + length b + length c"
    then have "\<not> i < length a" "\<not> i - length a < length b" "i - length a - length b < length c"
      by linarith+
    then show ?thesis by (simp add: nth_append)
  qed
  show "length a + length b + length c \<le> i
     \<Longrightarrow> (a @ b @ c @ d) ! i = d ! (i - length a - length b - length c)"
  proof -
    assume h: "length a + length b + length c \<le> i"
    then have "\<not> i < length a" "\<not> i - length a < length b" "\<not> i - length a - length b < length c"
      by linarith+
    then show ?thesis by (simp add: nth_append)
  qed
qed

lemma alloc_props:
  assumes "alloc vs h n = (as, h', n')"
  shows "as = [n ..< n + length vs]" and "n' = n + length vs"
    and "\<And>a. a < n \<Longrightarrow> h' a = h a"
    and "\<And>a. n \<le> a \<Longrightarrow> a < n' \<Longrightarrow> requires_grad (h' a) \<and> grad (h' a) = None"
  using assms by (auto simp: alloc_def)

lemma new_module_props:
  assumes "new_module mv h n = (m, h', n')"
  shows "parameters m = [n ..< n']"
    and "\<forall>a \<in> set (parameters m). requires_grad (h' a) \<and> grad (h' a) = None"
    and "\<forall>a<n. h' a = h a"
    and "n \<le> n'"
proof -
  obtain p h1 n1 where c1: "alloc (mv_pi mv) h n = (p, h1, n1)" by (metis prod_cases3)
  obtain q1 h2 n2 where c2: "alloc (mv_q1 mv) h1 n1 = (q1, h2, n2)" by (metis prod_cases3)
  obtain q2 h3 n3 where c3: "alloc (mv_q2 mv) h2 n2 = (q2, h3, n3)" by (metis prod_cases3)
  obtain mm h4 n4 where c4: "alloc (mv_memory mv) h3 n3 = (mm, h4, n4)" by (metis prod_cases3)
  have res: "m = \<lparr>ac_pi = p, ac_q1 = q1, ac_q2 = q2, ac_memory = mm\<rparr>" "h' = h4" "n' = n4"
    using assms by (simp_all add: new_module_def c1 c2 c3 c4)
  note a1 = alloc_props [OF c1] and a2 = alloc_props [OF c2]
   and a3 = alloc_props [OF c3] and a4 = alloc_props [OF c4]
  have ns: "n \<le> n1" "n1 \<le> n2" "n2 \<le> n3" "n3 \<le> n4"
    using a1(2) a2(2) a3(2) a4(2) by simp_all
  show p: "parameters m = [n ..< n']"
    using upt_four [of n "length (mv_pi mv)" "length (mv_q1 mv)" "length (mv_q2 mv)" "length (mv_memory mv)"]
    by (simp add: parameters_def res a1(1,2) a2(1,2) a3(1,2) a4(1,2))
  show "n \<le> n'" using ns res by simp
  show "\<forall>a<n. h' a = h a"
  proof (intro allI impI)
    fix a assume "a < n"
    then have "h4 a = h3 a" "h3 a = h2 a" "h2 a = h1 a" "h1 a = h a"
      using ns a1(3) a2(3) a3(3) a4(3) by simp_all
    then show "h' a = h a" using res by simp
  qed
  show "\<forall>a \<in> set (parameters m). requires_grad (h' a) \<and> grad (h' a) = None"
  proof
    fix a assume "a \<in> set (parameters m)"
    then have a: "n \<le> a" "a < n4" using p res by simp_all
    consider "a < n1" | "n1 \<le> a" "a < n2" | "n2 \<le> a" "a < n3" | "n3 \<le> a"
      by linarith
    then have "requires_grad (h4 a) \<and> grad (h4 a) = None"
    proof cases
      case 1
      then have "h4 a = h1 a" using ns a2(3) a3(3) a4(3) by simp
      then show ?thesis using a1(4) [of a] a 1 by simp
    next
      case 2
      then have "h4 a = h2 a" using ns a3(3) a4(3) by simp
      then show ?thesis using a2(4) [of a] 2 by simp
    next
      case 3
      then have "h4 a = h3 a" using ns a4(3) by simp
      then show ?thesis using a3(4) [of a] 3 by simp
    next
      case 4
      then show ?thesis using a4(4) [of a] a by simp
    qed
    then show "requires_grad (h' a) \<and> grad (h' a) = None" using res by simp
  qed
qed

lemma create_or_load_model_props:
  assumes "create_or_load_model args h n = (m, h', n')"
  shows "parameters m = [n ..< n']"
    and "\<forall>a \<in> set (parameters m). requires_grad (h' a) \<and> grad (h' a) = None"
    and "\<forall>a<n. h' a = h a"
    and "n \<le> n'"
  using assms new_module_props [of _ h n m h' n']
  by (auto simp: create_or_load_model_def split: option.splits)

lemma copy_cells_props:
  assumes "copy_cells as h n = (bs, h', n')"
  shows "bs = [n ..< n + length as]" and "n' = n + length as"
    and "\<And>a. a < n \<Longrightarrow> h' a = h a"
    and "\<And>i. i < length as \<Longrightarrow> h' (n + i) = h (as ! i)"
  using assms by (auto simp: copy_cells_def)

lemma deepcopy_props:
  assumes "deepcopy m h n = (mt, h', n')" and "parameters m = [k ..< n]"
  shows "parameters mt = [n ..< n + (n - k)]"
    and "n' = n + (n - k)"
    and "\<forall>a<n. h' a = h a"
    and "\<forall>i<n - k. h' (n + i) = h (k + i)"
proof -
  let ?a = "length (ac_pi m)" and ?b = "length (ac_q1 m)"
  let ?c = "length (ac_q2 m)" and ?d = "length (ac_memory m)"
  obtain p h1 n1 where c1: "copy_cells (ac_pi m) h n = (p, h1, n1)" by (metis prod_cases3)
  obtain q1 h2 n2 where c2: "copy_cells (ac_q1 m) h1 n1 = (q1, h2, n2)" by (metis prod_cases3)
  obtain q2 h3 n3 where c3: "copy_cells (ac_q2 m) h2 n2 = (q2, h3, n3)" by (metis prod_cases3)
  obtain mm h4 n4 where c4: "copy_cells (ac_memory m) h3 n3 = (mm, h4, n4)" by (metis prod_cases3)
  have res: "mt = \<lparr>ac_pi = p, ac_q1 = q1, ac_q2 = q2, ac_memory = mm\<rparr>" "h' = h4" "n' = n4"
    using assms(1) by (simp_all add: deepcopy_def c1 c2 c3 c4)
  note a1 = copy_cells_props [OF c1] and a2 = copy_cells_props [OF c2]
   and a3 = copy_cells_props [OF c3] and a4 = copy_cells_props [OF c4]
  have ns: "n1 = n + ?a" "n2 = n + ?a + ?b" "n3 = n + ?a + ?b + ?c" "n4 = n + ?a + ?b + ?c + ?d"
    using a1(2) a2(2) a3(2) a4(2) by simp_all
  have len: "?a + ?b + ?c + ?d = n - k"
    using arg_cong [OF assms(2), of length] by (simp add: parameters_def)
  show "parameters mt = [n ..< n + (n - k)]"
    using upt_four [of n ?a ?b ?c ?d] len
    by (simp add: parameters_def res a1(1) a2(1) a3(1) a4(1) ns add.assoc)
  show "n' = n + (n - k)" using res ns len by simp
  have low: "h4 a = h a" if "a < n" for a
  proof -
    have "h4 a = h3 a" "h3 a = h2 a" "h2 a = h1 a" "h1 a = h a"
      using that ns a1(3) a2(3) a3(3) a4(3) by simp_all
    then show ?thesis by simp
  qed
  then show "\<forall>a<n. h' a = h a" using res by simp
  have src: "parameters m ! i = k + i" "parameters m ! i < n" if "i < n - k" for i
    using that assms(2) by simp_all
  show "\<forall>i<n - k. h' (n + i) = h (k + i)"
  proof (intro allI impI)
    fix i assume i: "i < n - k"
    consider "i < ?a" | "?a \<le> i" "i < ?a + ?b" | "?a + ?b \<le> i" "i < ?a + ?b + ?c"
      | "?a + ?b + ?c \<le> i" by linarith
    then have "h4 (n + i) = h (parameters m ! i)"
    proof cases
      case 1
      have "h4 (n + i) = h1 (n + i)" using 1 ns a2(3) a3(3) a4(3) by simp
      also have "\<dots> = h (ac_pi m ! i)" using a1(4) 1 by simp
      also have "ac_pi m ! i = parameters m ! i" using 1 by (simp add: parameters_def nth_four(1))
      finally show ?thesis .
    next
      case 2
      have e: "ac_q1 m ! (i - ?a) = parameters m ! i"
        using 2 by (simp add: parameters_def nth_four(2))
      have "h4 (n + i) = h2 (n1 + (i - ?a))" using 2 ns a3(3) a4(3) by simp
      also have "\<dots> = h1 (ac_q1 m ! (i - ?a))"
      proof -
        have "i - ?a < ?b" using 2 by linarith
        then show ?thesis by (rule a2(4))
      qed
      also have "\<dots> = h (ac_q1 m ! (i - ?a))" using a1(3) src(2) [OF i] e by simp
      finally show ?thesis using e by simp
    next
      case 3
      have e: "ac_q2 m ! (i - ?a - ?b) = parameters m ! i"
        using 3 by (simp add: parameters_def nth_four(3))
      have "h4 (n + i) = h3 (n2 + (i - ?a - ?b))" using 3 ns a4(3) by simp
      also have "\<dots> = h2 (ac_q2 m ! (i - ?a - ?b))"
      proof -
        have "i - ?a - ?b < ?c" using 3 by linarith
        then show ?thesis by (rule a3(4))
      qed
      also have "\<dots> = h (ac_q2 m ! (i - ?a - ?b))"
        using a1(3) a2(3) src(2) [OF i] e ns by simp
      finally show ?thesis using e by simp
    next
      case 4
      have e: "ac_memory m ! (i - ?a - ?b - ?c) = parameters m ! i"
        using 4 by (simp add: parameters_def nth_four(4))
      have lt: "i - ?a - ?b - ?c < ?d" using 4 i len by linarith
      have "h4 (n + i) = h4 (n3 + (i - ?a - ?b - ?c))" using 4 ns by simp
      also have "\<dots> = h3 (ac_memory m ! (i - ?a - ?b - ?c))"
        using lt by (rule a4(4))
      also have "\<dots> = h (ac_memory m ! (i - ?a - ?b - ?c))"
        using a1(3) a2(3) a3(3) src(2) [OF i] e ns by simp
      finally show ?thesis using e by simp
    qed
    then show "h' (n + i) = h (k + i)" using src(1) [OF i] res by simp
  qed
qed

subsection \<open>The agent that the constructor builds\<close>

lemma init_fields:
  assumes c: "create_or_load_model args (\<lambda>a. \<lparr>data = 0, requires_grad = False, grad = None\<rparr>) 0
                = (m, h1, n1)"
      and d: "deepcopy m h1 n1 = (mt, h2, n2)"
  shows "ac (init w args) = m"
    and "ac_targ (init w args) = mt"
    and "q_params (init w args) = []"
    and "opt_params (q_optimizer (init w args)) = ac_q1 m @ ac_q2 m"
    and "opt_params (pi_optimizer (init w args)) = ac_pi m @ ac_memory m"
    and "alpha_params (init w args) = (if i_use_alpha_annealing args then [n2] else [])"
    and "heap (init w args) =
           (if i_use_alpha_annealing args
            then (set_requires_grad (parameters mt) False h2)
                   (n2 := \<lparr>data = 0, requires_grad = True, grad = None\<rparr>)
            else set_requires_grad (parameters mt) False h2)"
  by (simp_all add: init_def c d Adam_def Let_def alpha_params_def)

lemma init_layout:
  obtains m h1 n1 mt h2 where
    "create_or_load_model args (\<lambda>a. \<lparr>data = 0, requires_grad = False, grad = None\<rparr>) 0
       = (m, h1, n1)"
    "deepcopy m h1 n1 = (mt, h2, n1 + n1)"
    "parameters m = [0 ..< n1]"
    "parameters mt = [n1 ..< n1 + n1]"
    "\<forall>a<n1. requires_grad (h1 a) \<and> grad (h1 a) = None"
    "\<forall>a<n1. h2 a = h1 a"
    "\<forall>i<n1. h2 (n1 + i) = h1 i"
proof -
  obtain m h1 n1 where
    c: "create_or_load_model args (\<lambda>a. \<lparr>data = 0, requires_grad = False, grad = None\<rparr>) 0
          = (m, h1, n1)"
    by (metis prod_cases3)
  obtain mt h2 n2 where d: "deepcopy m h1 n1 = (mt, h2, n2)" by (metis prod_cases3)
  note cp = create_or_load_model_props [OF c]
  note dp = deepcopy_props [OF d cp(1)]
  have "n2 = n1 + n1" using dp(2) by simp
  moreover have "\<forall>a<n1. requires_grad (h1 a) \<and> grad (h1 a) = None" using cp(1,2) by simp
  moreover have "parameters mt = [n1 ..< n1 + n1]" using dp(1) by simp
  moreover have "\<forall>i<n1. h2 (n1 + i) = h1 i" using dp(4) by simp
  ultimately show ?thesis using that c d cp(1) dp(3) by blast
qed

lemma init_target_copy:
  "vals (heap (init w args)) (parameters (ac_targ (init w args)))
     = vals (heap (init w args)) (parameters (ac (init w args)))"
proof -
  obtain m h1 n1 mt h2 where l:
    "create_or_load_model args (\<lambda>a. \<lparr>data = 0, requires_grad = False, grad = None\<rparr>) 0
       = (m, h1, n1)"
    "deepcopy m h1 n1 = (mt, h2, n1 + n1)"
    "parameters m = [0 ..< n1]"
    "parameters mt = [n1 ..< n1 + n1]"
    "\<forall>a<n1. requires_grad (h1 a) \<and> grad (h1 a) = None"
    "\<forall>a<n1. h2 a = h1 a"
    "\<forall>i<n1. h2 (n1 + i) = h1 i"
    by (rule init_layout)
  note f = init_fields [OF l(1) l(2), of w]
  have "data (heap (init w args) (n1 + i)) = data (heap (init w args) i)" if "i < n1" for i
    using that l(6,7) by (simp add: f(7) l(4) set_requires_grad_def)
  then show ?thesis
    by (simp add: f(1,2) l(3,4) vals_def list_eq_iff_nth_eq)
qed

lemma init_no_alias:
  "set (parameters (ac_targ (init w args))) \<inter> set (parameters (ac (init w args))) = {}"
proof -
  obtain m h1 n1 mt h2 where l:
    "create_or_load_model args (\<lambda>a. \<lparr>data = 0, requires_grad = False, grad = None\<rparr>) 0
       = (m, h1, n1)"
    "deepcopy m h1 n1 = (mt, h2, n1 + n1)"
    "parameters m = [0 ..< n1]"
    "parameters mt = [n1 ..< n1 + n1]"
    "\<forall>a<n1. requires_grad (h1 a) \<and> grad (h1 a) = None"
    "\<forall>a<n1. h2 a = h1 a"
    "\<forall>i<n1. h2 (n1 + i) = h1 i"
    by (rule init_layout)
  note f = init_fields [OF l(1) l(2), of w]
  show ?thesis by (auto simp: f(1,2) l(3,4))
qed

lemma init_target_isolated: "target_isolated (init w args)"
proof -
  obtain m h1 n1 mt h2 where l:
    "create_or_load_model args (\<lambda>a. \<lparr>data = 0, requires_grad = False, grad = None\<rparr>) 0
       = (m, h1, n1)"
    "deepcopy m h1 n1 = (mt, h2, n1 + n1)"
    "parameters m = [0 ..< n1]"
    "parameters mt = [n1 ..< n1 + n1]"
    "\<forall>a<n1. requires_grad (h1 a) \<and> grad (h1 a) = None"
    "\<forall>a<n1. h2 a = h1 a"
    "\<forall>i<n1. h2 (n1 + i) = h1 i"
    by (rule init_layout)
  note f = init_fields [OF l(1) l(2), of w]
  have sub: "set (ac_q1 m @ ac_q2 m) \<subseteq> set (parameters m)"
            "set (ac_pi m @ ac_memory m) \<subseteq> set (parameters m)"
    by (auto simp: parameters_def)
  have "untouchable (init w args) a \<and> grad (heap (init w args) a) = None"
    if a: "n1 \<le> a" "a < n1 + n1" for a
  proof -
    have "a - n1 < n1" using a by linarith
    then have "h2 (n1 + (a - n1)) = h1 (a - n1)" "grad (h1 (a - n1)) = None"
      using l(5,7) by blast+
    moreover have "n1 + (a - n1) = a" using a by linarith
    ultimately have g: "grad (h2 a) = None" by simp
    have "a \<notin> set (parameters m)" using a l(3) by simp
    then have "a \<notin> set (ac_q1 m @ ac_q2 m)" "a \<notin> set (ac_pi m @ ac_memory m)"
      using sub by blast+
    then show ?thesis
      using a g by (simp add: untouchable_def f l(3,4) set_requires_grad_def)
  qed
  then show ?thesis
    by (simp add: target_isolated_def f(1,2) l(3,4))
qed

lemma vals_append: "vals h (as @ bs) = vals h as @ vals h bs"
  by (simp add: vals_def)

lemma vals_cong: "(\<And>a. a \<in> set as \<Longrightarrow> data (h' a) = data (h a)) \<Longrightarrow> vals h' as = vals h as"
  by (simp add: vals_def)

lemma alloc_vals:
  assumes "alloc vs h n = (as, h', n')"
  shows "vals h' as = vs"
proof -
  have as: "as = [n ..< n + length vs]"
    and h': "h' = (\<lambda>a. if n \<le> a \<and> a < n + length vs
           then \<lparr>data = vs ! (a - n), requires_grad = True, grad = None\<rparr> else h a)"
    using assms by (auto simp: alloc_def)
  show ?thesis
    unfolding as vals_def by (rule nth_equalityI) (simp_all add: h')
qed

lemma new_module_vals:
  assumes "new_module mv h n = (m, h', n')"
  shows "vals h' (parameters m) = mv_pi mv @ mv_q1 mv @ mv_q2 mv @ mv_memory mv"
proof -
  obtain p h1 n1 where c1: "alloc (mv_pi mv) h n = (p, h1, n1)" by (metis prod_cases3)
  obtain q1 h2 n2 where c2: "alloc (mv_q1 mv) h1 n1 = (q1, h2, n2)" by (metis prod_cases3)
  obtain q2 h3 n3 where c3: "alloc (mv_q2 mv) h2 n2 = (q2, h3, n3)" by (metis prod_cases3)
  obtain mm h4 n4 where c4: "alloc (mv_memory mv) h3 n3 = (mm, h4, n4)" by (metis prod_cases3)
  have res: "m = \<lparr>ac_pi = p, ac_q1 = q1, ac_q2 = q2, ac_memory = mm\<rparr>" "h' = h4"
    using assms by (simp_all add: new_module_def c1 c2 c3 c4)
  note a1 = alloc_props [OF c1] and a2 = alloc_props [OF c2]
   and a3 = alloc_props [OF c3] and a4 = alloc_props [OF c4]
  have ns: "n \<le> n1" "n1 \<le> n2" "n2 \<le> n3" "n3 \<le> n4"
    using a1(2) a2(2) a3(2) a4(2) by simp_all
  have "vals h4 p = vals h1 p"
  proof (rule vals_cong)
    fix a assume "a \<in> set p"
    then have "a < n1" using a1(1,2) by simp
    then have "h4 a = h3 a" "h3 a = h2 a" "h2 a = h1 a" using ns a2(3) a3(3) a4(3) by simp_all
    then show "data (h4 a) = data (h1 a)" by simp
  qed
  moreover have "vals h4 q1 = vals h2 q1"
  proof (rule vals_cong)
    fix a assume "a \<in> set q1"
    then have "a < n2" using a2(1,2) by simp
    then have "h4 a = h3 a" "h3 a = h2 a" using ns a3(3) a4(3) by simp_all
    then show "data (h4 a) = data (h2 a)" by simp
  qed
  moreover have "vals h4 q2 = vals h3 q2"
  proof (rule vals_cong)
    fix a assume "a \<in> set q2"
    then have "a < n3" using a3(1,2) by simp
    then have "h4 a = h3 a" using ns a4(3) by simp
    then show "data (h4 a) = data (h3 a)" by simp
  qed
  ultimately show ?thesis
    using alloc_vals [OF c1] alloc_vals [OF c2] alloc_vals [OF c3] alloc_vals [OF c4]
    by (simp add: res parameters_def vals_append)
qed

lemma init_online_values:
  "vals (heap (init w args)) (parameters (ac (init w args)))
     = (case i_model_file_to_load args of
          None \<Rightarrow> mv_pi (i_fresh_model args) @ mv_q1 (i_fresh_model args)
                   @ mv_q2 (i_fresh_model args) @ mv_memory (i_fresh_model args)
        | Some mv \<Rightarrow> mv_pi mv @ mv_q1 mv @ mv_q2 mv @ mv_memory mv)"
proof -
  obtain m h1 n1 mt h2 where l:
    "create_or_load_model args (\<lambda>a. \<lparr>data = 0, requires_grad = False, grad = None\<rparr>) 0
       = (m, h1, n1)"
    "deepcopy m h1 n1 = (mt, h2, n1 + n1)"
    "parameters m = [0 ..< n1]"
    "parameters mt = [n1 ..< n1 + n1]"
    "\<forall>a<n1. requires_grad (h1 a) \<and> grad (h1 a) = None"
    "\<forall>a<n1. h2 a = h1 a"
    "\<forall>i<n1. h2 (n1 + i) = h1 i"
    by (rule init_layout)
  note f = init_fields [OF l(1) l(2), of w]
  have "vals (heap (init w args)) (parameters m) = vals h1 (parameters m)"
  proof (rule vals_cong)
    fix a assume "a \<in> set (parameters m)"
    then have "a < n1" using l(3) by simp
    then show "data (heap (init w args) a) = data (h1 a)"
      using l(6) by (simp add: f(7) l(4) set_requires_grad_def)
  qed
  moreover have "vals h1 (parameters m)
     = (case i_model_file_to_load args of
          None \<Rightarrow> mv_pi (i_fresh_model args) @ mv_q1 (i_fresh_model args)
                   @ mv_q2 (i_fresh_model args) @ mv_memory (i_fresh_model args)
        | Some mv \<Rightarrow> mv_pi mv @ mv_q1 mv @ mv_q2 mv @ mv_memory mv)"
    using l(1) new_module_vals
    by (auto simp: create_or_load_model_def split: option.splits)
  ultimately show ?thesis by (simp add: f(1))
qed

subsection \<open>Isolation is kept\<close>

lemma kept_target_isolated:
  assumes "kept s s'" "target_isolated s"
  shows "target_isolated s'"
    and "\<forall>a \<in> set (parameters (ac_targ s)). heap s' a = heap s a"
proof -
  show h: "\<forall>a \<in> set (parameters (ac_targ s)). heap s' a = heap s a"
    using assms by (simp add: kept_def target_isolated_def)
  have e: "ac s' = ac s" "ac_targ s' = ac_targ s" using assms(1) by (simp_all add: kept_def)
  show "target_isolated s'"
    unfolding target_isolated_def e
    using assms(2) h kept_untouchable [OF assms(1)]
    by (auto simp: target_isolated_def)
qed

lemma polyak_target_isolated:
  assumes "target_isolated s"
  shows "target_isolated (s\<lparr>heap := polyak_pass c xs (heap s)\<rparr>)"
  using assms by (simp add: target_isolated_def untouchable_def alpha_params_def)

subsection \<open>The small world\<close>

lemma toy_agent_layout:
  "parameters (ac toy_agent) = [0, 1, 2, 3]"
  "parameters (ac_targ toy_agent) = [4, 5, 6, 7]"
  "ac_q1 (ac toy_agent) = [1]" "ac_q2 (ac toy_agent) = [2]"
  "polyak toy_agent = 1/2"
  "batch_size toy_agent = 1"
  "use_alpha_annealing toy_agent = False"
  "buffer toy_agent = []"
  "hidden_size toy_agent = 1"
  by (simp_all add: toy_agent_def init_def toy_args_def create_or_load_model_def new_module_def
        alloc_def deepcopy_def copy_cells_def Adam_def Let_def parameters_def)

lemma toy_agent_heap:
  "data (heap toy_agent 0) = 1" "data (heap toy_agent 4) = 1"
  by (simp_all add: toy_agent_def init_def toy_args_def create_or_load_model_def new_module_def
        alloc_def deepcopy_def copy_cells_def Adam_def Let_def parameters_def set_requires_grad_def)

lemma toy_critic_loss:
  "hidden_size s = 1 \<Longrightarrow> \<exists>b. compute_critic_loss toy_world s toy_episode = Inr (b, s)"
  by (simp add: compute_critic_loss_def toy_world_def toy_episode_def Let_def soft_value_def
        backup_of_def tbin_def tmap_def sum_dim1_def view_col_def ones_def shape_def
        broadcastable_def bcompat_def bdim_def gather_dim1_def long_def to_long_def mse_def)

lemma toy_policy_loss:
  "hidden_size s = 1 \<Longrightarrow> \<exists>x. compute_policy_loss toy_world s toy_episode = Inr (x, s)"
  by (simp add: compute_policy_loss_def toy_world_def toy_episode_def Let_def
        tbin_def tmap_def sum_dim1_def view_col_def ones_def shape_def
        broadcastable_def bcompat_def bdim_def)

lemma toy_update_episode:
  "\<not> use_alpha_annealing s \<Longrightarrow> hidden_size s = 1
    \<Longrightarrow> \<exists>s'. update_episode toy_world s toy_episode = Inr s'"
proof -
  assume na: "\<not> use_alpha_annealing s" and hs: "hidden_size s = 1"
  obtain b where "compute_critic_loss toy_world s toy_episode = Inr (b, s)"
    using toy_critic_loss [OF hs] by blast
  then obtain s1 where c: "critic_step toy_world s toy_episode = Inr s1"
    "use_alpha_annealing s1 = use_alpha_annealing s" "hidden_size s1 = hidden_size s"
    by (simp add: critic_step_def Let_def)
  let ?s2 = "(freeze_q_params s1)\<lparr>heap := zero_grad (opt_params (pi_optimizer (freeze_q_params s1)))
                (heap (freeze_q_params s1))\<rparr>"
  have "hidden_size ?s2 = 1" using c(3) hs by (simp add: freeze_q_params_def)
  then obtain x where "compute_policy_loss toy_world ?s2 toy_episode = Inr (x, ?s2)"
    using toy_policy_loss by blast
  then obtain lp s3 where p: "policy_step toy_world (freeze_q_params s1) toy_episode = Inr (lp, s3)"
    "use_alpha_annealing s3 = use_alpha_annealing s1"
    by (simp add: policy_step_def Let_def freeze_q_params_def)
  have "\<exists>s'. alpha_step toy_world (unfreeze_q_params s3) lp = Inr s'"
    using na c(2) p(2) by (simp add: alpha_step_def unfreeze_q_params_def)
  then show ?thesis using c(1) p(1) by (simp add: update_episode_def)
qed

lemma toy_buffer_get:
  "fst (buffer_get toy_world calls n g) = replicate (nat n) toy_episode"
  by (simp add: toy_world_def)

lemma toy_update_returns: "\<exists>s'. update toy_world toy_agent = Inr s'"
proof -
  let ?s0 = "toy_agent\<lparr>rng := snd (buffer_get toy_world (buffer toy_agent)
                                      (batch_size toy_agent) (rng toy_agent))\<rparr>"
  have "\<not> use_alpha_annealing ?s0" "hidden_size ?s0 = 1" by (simp_all add: toy_agent_layout)
  then obtain s1 where "update_episode toy_world ?s0 toy_episode = Inr s1"
    using toy_update_episode by blast
  then show ?thesis
    unfolding update_def Let_def toy_buffer_get by (simp add: toy_agent_layout)
qed

section \<open>The bootstrap target of the critic loss\<close>

lemma zero_grad_none: "grad (h a) = None \<Longrightarrow> grad (zero_grad ps h a) = None"
  by (simp add: zero_grad_def)

lemma clip_grad_norm_none: "grad (h a) = None \<Longrightarrow> grad (clip_grad_norm w ps c h a) = None"
  by (simp add: clip_grad_norm_def Let_def)

lemma critic_step_no_grad:
  assumes "a \<notin> set (ac_q1 (ac s) @ ac_q2 (ac s))" "grad (heap s a) = None"
  shows "grad (heap (final_agent (critic_step w s ep)) a) = None"
proof (cases "compute_critic_loss w s ep")
  case (Inl x)
  obtain e s1 where x: "x = (e, s1)" by (cases x)
  obtain r where "s1 = s\<lparr>rng := r\<rparr>" using Inl x compute_critic_loss_agent(1) by blast
  then show ?thesis using Inl x assms(2) by (simp add: critic_step_def final_agent_def)
next
  case (Inr y)
  obtain l s1 where y: "y = (l, s1)" by (cases y)
  obtain r where s1: "s1 = s\<lparr>rng := r\<rparr>" using Inr y compute_critic_loss_agent(2) by blast
  have g: "cl_graph l = ac_q1 (ac s) @ ac_q2 (ac s)"
    using Inr y compute_critic_loss_graph by blast
  let ?h1 = "zero_grad (opt_params (q_optimizer s1)) (heap s1)"
  let ?h2 = "backward (cl_graph l) (backward_q w ?h1 ep) ?h1"
  let ?h3 = "clip_grad_norm w (parameters (ac s1)) (clip_ratio s1) ?h2"
  have "grad (?h1 a) = None" using assms(2) s1 by (simp add: zero_grad_none)
  moreover have "?h2 a = ?h1 a" using assms(1) g by (simp add: backward_outside)
  ultimately have "grad (?h3 a) = None" by (simp add: clip_grad_norm_none)
  then show ?thesis using Inr y by (simp add: critic_step_def final_agent_def Let_def)
qed

text \<open>
  Claim C1. Take a call of \<^verbatim>\<open>compute_critic_loss\<close> in which the view of the episode's
  recurrent state fits. Let \<open>pi2\<close> and \<open>logp2\<close> be what the online memory encoder and the
  online policy head give on the next observation, and \<open>q1_targ\<close>, \<open>q2_targ\<close> what the two
  target critics give on it, all of them \<open>n \<times> k\<close>; let \<open>q1\<close> and \<open>q2\<close> be what the online
  critics give on the observation. The rewards and the actions are read in row-major
  order, the actions rounded toward zero; there are \<open>m\<close> actions.

  \<^item> If there are more actions than rows of \<open>q1\<close> or \<open>q2\<close>, or an action is not the index
    of a column of them, the gather is refused: \<^verbatim>\<open>RuntimeError\<close>, before anything is
    sampled.
  \<^item> Otherwise, if the number of rewards is not \<open>n\<close>, the shapes of the reward column and
    of the soft value differ and the assertion fails.
  \<^item> Otherwise, if \<^verbatim>\<open>done\<close> does not broadcast against \<open>n\<close> rows, or the \<open>m\<close> gathered
    Q-values do not broadcast against the target, the arithmetic is refused.
  \<^item> Otherwise the call returns, and the bootstrap target is
    \<open>reward + gamma * (1 - done) * next_v\<close>, where \<open>next_v\<close> of transition \<open>i\<close> is the sum
    over the actions \<open>a\<close> of \<open>pi2 i a * (min (q1_targ i a) (q2_targ i a) - alpha * logp2 i a)\<close>.
    With \<^verbatim>\<open>done\<close> a column of \<open>n\<close> flags the target is a column of \<open>n\<close> entries, entry \<open>i\<close>
    made of the reward, the flag and the soft value of transition \<open>i\<close>. A \<^verbatim>\<open>done\<close> of
    another shape is broadcast as the library does: the target has as many columns as
    \<^verbatim>\<open>done\<close>, and its entry \<open>(i, j)\<close> takes the flag in column \<open>j\<close>.

  The soft value is computed under \<^verbatim>\<open>torch.no_grad()\<close>: the graph of the loss reaches the
  parameters of the online critics only, and a parameter outside them that holds no
  gradient holds none after the critic step.
\<close>

theorem critic_backup_target:
  assumes view: "view_hidden w (b_hid_out batch) (hidden_size s) = Some h_out"
    and sampled:
      "pi_sample w (vals (heap s) (ac_pi (ac s)))
         (memory_forward w (vals (heap s) (ac_memory (ac s))) (b_obs2 batch) (b_act batch)
            \<lparr>nrows = nrows (b_rew batch) * ncols (b_rew batch), ncols = 1,
             elem = (\<lambda>i j. elem (b_rew batch) (i div ncols (b_rew batch))
                                             (i mod ncols (b_rew batch)))\<rparr>
            h_out)
         (rng s) = ((pi2, logp2), g')"
    and q1_targ: "q1_forward w (vals (heap s) (ac_q1 (ac_targ s))) (b_obs2 batch) = q1_targ"
    and q2_targ: "q2_forward w (vals (heap s) (ac_q2 (ac_targ s))) (b_obs2 batch) = q2_targ"
    and shapes: "shape pi2 = (n, k)" "shape logp2 = (n, k)"
                "shape q1_targ = (n, k)" "shape q2_targ = (n, k)"
    and q1: "q1_forward w (vals (heap s) (ac_q1 (ac s))) (b_obs batch) = q1"
    and q2: "q2_forward w (vals (heap s) (ac_q2 (ac s))) (b_obs batch) = q2"
  shows
    "(let m = nrows (b_act batch) * ncols (b_act batch);
          action = (\<lambda>i. to_long (elem (b_act batch) (i div ncols (b_act batch))
                                                      (i mod ncols (b_act batch))));
          reward = (\<lambda>i. elem (b_rew batch) (i div ncols (b_rew batch))
                                             (i mod ncols (b_rew batch)));
          rows = (if n = 1 then nrows (b_done batch) else n)
      in if \<not> (m \<le> nrows q1 \<and> m \<le> nrows q2
                \<and> (\<forall>i<m. 0 \<le> action i \<and> action i < int (ncols q1)
                           \<and> action i < int (ncols q2)))
         then compute_critic_loss w s batch = Inl (RuntimeError, s)
         else if nrows (b_rew batch) * ncols (b_rew batch) \<noteq> n
         then compute_critic_loss w s batch = Inl (AssertionError, s\<lparr>rng := g'\<rparr>)
         else if \<not> (bcompat (nrows (b_done batch)) n \<and> bcompat m rows)
         then compute_critic_loss w s batch = Inl (RuntimeError, s\<lparr>rng := g'\<rparr>)
         else \<exists>r. compute_critic_loss w s batch = Inr (r, s\<lparr>rng := g'\<rparr>)
                \<and> cl_graph r = ac_q1 (ac s) @ ac_q2 (ac s)
                \<and> shape (cl_backup r) = (rows, ncols (b_done batch))
                \<and> (\<forall>i j. i < rows \<longrightarrow> j < ncols (b_done batch) \<longrightarrow>
                      elem (cl_backup r) i j
                        = reward (if n = 1 then 0 else i)
                          + gamma s
                            * (1 - elem (b_done batch) (if nrows (b_done batch) = 1 then 0 else i) j)
                            * spec_next_v (alpha s) pi2 logp2 q1_targ q2_targ k
                                (if n = 1 then 0 else i))
                \<and> (shape (b_done batch) = (n, 1) \<longrightarrow>
                      shape (cl_backup r) = (n, 1)
                    \<and> (\<forall>i<n. elem (cl_backup r) i 0
                          = reward i
                            + gamma s * (1 - elem (b_done batch) i 0)
                              * spec_next_v (alpha s) pi2 logp2 q1_targ q2_targ k i)))
     \<and> (\<forall>a. a \<notin> set (ac_q1 (ac s) @ ac_q2 (ac s)) \<longrightarrow> grad (heap s a) = None \<longrightarrow>
            grad (heap (final_agent (critic_step w s batch)) a) = None)"
    (is "?target \<and> ?no_grad")
proof (rule conjI)
  show ?no_grad using critic_step_no_grad by blast
next
  let ?m = "nrows (b_act batch) * ncols (b_act batch)"
  let ?action = "\<lambda>i. to_long (elem (b_act batch) (i div ncols (b_act batch))
                                                      (i mod ncols (b_act batch)))"
  let ?reward = "\<lambda>i. elem (b_rew batch) (i div ncols (b_rew batch)) (i mod ncols (b_rew batch))"
  let ?rows = "if n = 1 then nrows (b_done batch) else n"
  let ?rn = "nrows (b_rew batch) * ncols (b_rew batch)"
  let ?rew = "view_col (b_rew batch)"
  let ?G = "\<lambda>q. ?m \<le> nrows q \<and> (\<forall>i<?m. 0 \<le> ?action i \<and> ?action i < int (ncols q))"
  let ?s' = "s\<lparr>rng := g'\<rparr>"
  have rew: "?rew = \<lparr>nrows = ?rn, ncols = 1,
             elem = (\<lambda>i j. elem (b_rew batch) (i div ncols (b_rew batch))
                                             (i mod ncols (b_rew batch)))\<rparr>"
    by (simp add: view_col_def)
  have smp: "pi_sample w (vals (heap s) (ac_pi (ac s)))
         (memory_forward w (vals (heap s) (ac_memory (ac s))) (b_obs2 batch) (b_act batch)
            ?rew h_out) (rng s) = ((pi2, logp2), g')"
    unfolding rew by (rule sampled)
  have shr: "shape ?rew = (?rn, 1)" "\<And>i. elem ?rew i 0 = ?reward i"
    by (simp_all add: view_col_def shape_def)
  obtain v where v: "soft_value (alpha s) pi2 logp2 q1_targ q2_targ = Inr v" "shape v = (n, 1)"
    "\<forall>i<n. \<forall>j. elem v i j = spec_next_v (alpha s) pi2 logp2 q1_targ q2_targ k i"
    using soft_value_shaped [OF shapes] by blast
  note unf = compute_critic_loss_def view option.case Let_def q1 q2 smp q1_targ q2_targ
     fst_conv snd_conv gather_index [of q1 "b_act batch"] gather_index [of q2 "b_act batch"]
  show ?target
  proof (cases "?G q1 \<and> ?G q2")
    case False
    then have "compute_critic_loss w s batch = Inl (RuntimeError, s)"
      unfolding unf by (auto simp del: of_nat_mult)
    moreover have "(\<not> (?m \<le> nrows q1 \<and> ?m \<le> nrows q2
                \<and> (\<forall>i<?m. 0 \<le> ?action i \<and> ?action i < int (ncols q1)
                           \<and> ?action i < int (ncols q2)))) = True"
      using False by blast
    ultimately show ?thesis unfolding Let_def
      by (simp only: if_True)
  next
    case G: True
    then have g1: "?G q1" and g2: "?G q2" by blast+
    have G': "(\<not> (?m \<le> nrows q1 \<and> ?m \<le> nrows q2
                \<and> (\<forall>i<?m. 0 \<le> ?action i \<and> ?action i < int (ncols q1)
                           \<and> ?action i < int (ncols q2)))) = False"
      using G by blast
    let ?q1a = "\<lparr>nrows = ?m, ncols = 1,
                elem = (\<lambda>i j. elem q1 i (nat (?action i)))\<rparr>"
    let ?q2a = "\<lparr>nrows = ?m, ncols = 1,
                elem = (\<lambda>i j. elem q2 i (nat (?action i)))\<rparr>"
    have ga: "gather_dim1 q1 (long (view_col (b_act batch))) = Inr ?q1a"
             "gather_dim1 q2 (long (view_col (b_act batch))) = Inr ?q2a"
      using g1 g2 by (simp_all add: gather_index)
    note unf2 = compute_critic_loss_def view option.case Let_def q1 q2 smp q1_targ q2_targ
       fst_conv snd_conv ga sum.case v(1)
    show ?thesis
    proof (cases "?rn = n")
      case False
      then have "backup_of (gamma s) ?rew (b_done batch) v = Inl AssertionError"
        using v(2) shr(1) by (simp add: backup_of_mismatch)
      then have "compute_critic_loss w s batch = Inl (AssertionError, ?s')"
        unfolding unf2 by simp
      moreover have rn: "(?rn \<noteq> n) = True" using False by simp
      ultimately show ?thesis unfolding Let_def by (simp only: G' rn if_True if_False)
    next
      case True
      then have rn: "(?rn \<noteq> n) = False" by simp
      have shr': "shape ?rew = (n, 1)" using shr(1) True by simp
      show ?thesis
      proof (cases "bcompat (nrows (b_done batch)) n")
        case False
        then have "backup_of (gamma s) ?rew (b_done batch) v = Inl RuntimeError"
          using shr' v(2) by (simp add: backup_of_refused)
        then have "compute_critic_loss w s batch = Inl (RuntimeError, ?s')"
          unfolding unf2 by simp
        moreover have "(\<not> (bcompat (nrows (b_done batch)) n \<and> bcompat ?m ?rows)) = True"
          using False by simp
        ultimately show ?thesis unfolding Let_def by (simp only: G' rn if_True if_False)
      next
        case bc: True
        obtain b where b: "backup_of (gamma s) ?rew (b_done batch) v = Inr b"
          "shape b = (?rows, ncols (b_done batch))"
          "\<forall>i j. i < ?rows \<longrightarrow> j < ncols (b_done batch) \<longrightarrow>
                 elem b i j = elem ?rew (if n = 1 then 0 else i) 0
                   + gamma s * (1 - elem (b_done batch) (if nrows (b_done batch) = 1 then 0 else i) j)
                     * elem v (if n = 1 then 0 else i) 0"
          using backup_of_entries [OF shr' v(2) bc, of "gamma s"] by blast
        have nb: "nrows b = ?rows" using b(2) by (simp add: shape_def)
        show ?thesis
        proof (cases "bcompat ?m ?rows")
          case False
          have nbc: "\<not> bcompat ?m (nrows b)" unfolding nb by (rule False)
          have "mse ?q1a b = Inl RuntimeError"
            by (rule mse_column(2) [OF _ _ nbc]) simp_all
          then have "compute_critic_loss w s batch = Inl (RuntimeError, ?s')"
            unfolding unf2 b(1) by simp
          moreover have "(\<not> (bcompat (nrows (b_done batch)) n \<and> bcompat ?m ?rows)) = True"
            using False by simp
          ultimately show ?thesis unfolding Let_def by (simp only: G' rn if_True if_False)
        next
          case bm: True
          have bm': "bcompat ?m (nrows b)" unfolding nb by (rule bm)
          have "\<exists>x. mse ?q1a b = Inr x" by (rule mse_column(1) [OF _ _ bm']) simp_all
          then obtain l1 where l1: "mse ?q1a b = Inr l1" by blast
          have "\<exists>x. mse ?q2a b = Inr x" by (rule mse_column(1) [OF _ _ bm']) simp_all
          then obtain l2 where l2: "mse ?q2a b = Inr l2" by blast
          let ?r = "\<lparr>cl_loss_q = l1 + l2, cl_graph = ac_q1 (ac s) @ ac_q2 (ac s),
                     cl_q_info = (tmean ?q1a, tmean ?q1a), cl_backup = b\<rparr>"
          have res: "compute_critic_loss w s batch = Inr (?r, ?s')"
            unfolding unf2 b(1) l1 l2 by simp
          have idx: "(if n = 1 then 0 else i) < n" if "i < ?rows" for i
            using that by (cases "n = 1") simp_all
          have ent: "\<forall>i j. i < ?rows \<longrightarrow> j < ncols (b_done batch) \<longrightarrow>
                      elem b i j
                        = ?reward (if n = 1 then 0 else i)
                          + gamma s
                            * (1 - elem (b_done batch) (if nrows (b_done batch) = 1 then 0 else i) j)
                            * spec_next_v (alpha s) pi2 logp2 q1_targ q2_targ k
                                (if n = 1 then 0 else i)"
            using b(3) v(3) idx shr(2) by simp
          have col: "shape b = (n, 1)
                    \<and> (\<forall>i<n. elem b i 0
                          = ?reward i
                            + gamma s * (1 - elem (b_done batch) i 0)
                              * spec_next_v (alpha s) pi2 logp2 q1_targ q2_targ k i)"
            if d: "shape (b_done batch) = (n, 1)"
          proof -
            have dn: "nrows (b_done batch) = n" "ncols (b_done batch) = 1"
              using d by (simp_all add: shape_def)
            have "shape b = (n, 1)" using b(2) dn by simp
            moreover have "elem b i 0 = ?reward i
                            + gamma s * (1 - elem (b_done batch) i 0)
                              * spec_next_v (alpha s) pi2 logp2 q1_targ q2_targ k i"
              if "i < n" for i
              using ent [rule_format, of i 0] that dn by (cases "n = 1") simp_all
            ultimately show ?thesis by blast
          qed
          have sel: "cl_backup ?r = b" "cl_graph ?r = ac_q1 (ac s) @ ac_q2 (ac s)"
            by simp_all
          have "compute_critic_loss w s batch = Inr (?r, ?s')
                \<and> cl_graph ?r = ac_q1 (ac s) @ ac_q2 (ac s)
                \<and> shape (cl_backup ?r) = (?rows, ncols (b_done batch))
                \<and> (\<forall>i j. i < ?rows \<longrightarrow> j < ncols (b_done batch) \<longrightarrow>
                      elem (cl_backup ?r) i j
                        = ?reward (if n = 1 then 0 else i)
                          + gamma s
                            * (1 - elem (b_done batch) (if nrows (b_done batch) = 1 then 0 else i) j)
                            * spec_next_v (alpha s) pi2 logp2 q1_targ q2_targ k
                                (if n = 1 then 0 else i))
                \<and> (shape (b_done batch) = (n, 1) \<longrightarrow>
                      shape (cl_backup ?r) = (n, 1)
                    \<and> (\<forall>i<n. elem (cl_backup ?r) i 0
                          = ?reward i
                            + gamma s * (1 - elem (b_done batch) i 0)
                              * spec_next_v (alpha s) pi2 logp2 q1_targ q2_targ k i))"
            unfolding sel using res b(2) ent col by blast
          then have "\<exists>r. compute_critic_loss w s batch = Inr (r, ?s')
                \<and> cl_graph r = ac_q1 (ac s) @ ac_q2 (ac s)
                \<and> shape (cl_backup r) = (?rows, ncols (b_done batch))
                \<and> (\<forall>i j. i < ?rows \<longrightarrow> j < ncols (b_done batch) \<longrightarrow>
                      elem (cl_backup r) i j
                        = ?reward (if n = 1 then 0 else i)
                          + gamma s
                            * (1 - elem (b_done batch) (if nrows (b_done batch) = 1 then 0 else i) j)
                            * spec_next_v (alpha s) pi2 logp2 q1_targ q2_targ k
                                (if n = 1 then 0 else i))
                \<and> (shape (b_done batch) = (n, 1) \<longrightarrow>
                      shape (cl_backup r) = (n, 1)
                    \<and> (\<forall>i<n. elem (cl_backup r) i 0
                          = ?reward i
                            + gamma s * (1 - elem (b_done batch) i 0)
                              * spec_next_v (alpha s) pi2 logp2 q1_targ q2_targ k i))"
            by (rule exI [of _ ?r])
          moreover have "(\<not> (bcompat (nrows (b_done batch)) n \<and> bcompat ?m ?rows)) = False"
            using bm bc by simp
          ultimately show ?thesis unfolding Let_def by (simp only: G' rn if_True if_False)
        qed
      qed
    qed
  qed
qed



lemma all_less_2: "(\<forall>i<(2::nat). P i) = (P 0 \<and> P 1)"
  by (auto simp: less_2_cases_iff)

lemma ex_less_2: "(\<exists>i<(2::nat). P i) = (P 0 \<or> P 1)"
  by (auto simp: less_2_cases_iff)

lemma toy_sum: "(\<Sum>a<(2::nat). f a) = f 0 + (f 1 :: real)"
  by (simp add: numeral_2_eq_2)

lemma toy_agent_values:
  "vals (heap toy_agent) (ac_pi (ac toy_agent)) = [1]"
  "vals (heap toy_agent) (ac_q1 (ac toy_agent)) = [2]"
  "vals (heap toy_agent) (ac_q2 (ac toy_agent)) = [3]"
  "vals (heap toy_agent) (ac_memory (ac toy_agent)) = [4]"
  "vals (heap toy_agent) (ac_pi (ac_targ toy_agent)) = [1]"
  "vals (heap toy_agent) (ac_q1 (ac_targ toy_agent)) = [2]"
  "vals (heap toy_agent) (ac_q2 (ac_targ toy_agent)) = [3]"
  "vals (heap toy_agent) (ac_memory (ac_targ toy_agent)) = [4]"
  by (simp_all add: toy_agent_def init_def toy_args_def create_or_load_model_def new_module_def
        alloc_def deepcopy_def copy_cells_def Adam_def Let_def vals_def set_requires_grad_def
        parameters_def)

lemma toy_agent_grads:
  "grad (heap toy_agent a) = None"
  by (simp add: toy_agent_def init_def toy_args_def create_or_load_model_def new_module_def
        alloc_def deepcopy_def copy_cells_def Adam_def Let_def vals_def set_requires_grad_def
        parameters_def)

lemma mixed_episode_fields:
  "b_obs mixed_episode = ones 2 1 0" "b_obs2 mixed_episode = ones 2 1 0"
  "b_act mixed_episode = tensor_of [[0, 1]]" "b_rew mixed_episode = tensor_of [[1, 3]]"
  "b_done mixed_episode = tensor_of [[0], [1]]" "b_hid_out mixed_episode = 0"
  "b_obs rank_one_episode = ones 2 1 0" "b_obs2 rank_one_episode = ones 2 1 0"
  "b_act rank_one_episode = tensor_of [[0, 1]]" "b_rew rank_one_episode = tensor_of [[1, 3]]"
  "b_done rank_one_episode = tensor_of [[0, 1]]" "b_hid_out rank_one_episode = 0"
  by (simp_all add: mixed_episode_def rank_one_episode_def toy_episode_def)

lemma tensor_of_simps:
  "nrows (tensor_of [[a, b]]) = 1" "ncols (tensor_of [[a, b]]) = 2"
  "nrows (tensor_of [[a], [b]]) = 2" "ncols (tensor_of [[a], [b]]) = 1"
  "elem (tensor_of [[a, b]]) 0 0 = a" "elem (tensor_of [[a, b]]) 0 (Suc 0) = b"
  "elem (tensor_of [[a], [b]]) 0 0 = a" "elem (tensor_of [[a], [b]]) (Suc 0) 0 = b"
  "nrows (tensor_of [[a, b, c]]) = 1" "ncols (tensor_of [[a, b, c]]) = 3"
  by (simp_all add: tensor_of_def)

lemma toy_forward:
  "q1_forward toy_world vs x = ones (nrows x) 2 (sum_list vs)"
  "q2_forward toy_world vs x = ones (nrows x) 2 (sum_list vs)"
  "memory_forward toy_world vs x a r h = x"
  "pi_sample toy_world vs x g = ((ones (nrows x) 2 (1/2), ones (nrows x) 2 (-1)), g)"
  "view_hidden toy_world h n = (if n = 1 then Some h else None)"
  by (simp_all add: toy_world_def)

lemma ones_simps:
  "nrows (ones n k c) = n" "ncols (ones n k c) = k" "elem (ones n k c) i j = c"
  "shape (ones n k c) = (n, k)"
  by (simp_all add: ones_def shape_def)

text \<open>
  The theorem on the small world, where every soft value is \<open>11/5\<close> and \<open>gamma\<close> is \<open>1/2\<close>.
  With rewards 1 and 3 and done flags 0 and 1 as a column, the targets are
  \<open>1 + 1/2 * 11/5\<close> and \<open>3\<close>. With the same flags as a tensor of rank one the target is
  \<open>2 \<times> 2\<close>. An action 5 for critics with two columns is refused, and three rewards for
  two soft values fail the assertion. The critic step leaves the policy parameter at
  address 0 without gradient.
\<close>

theorem critic_backup_target_witness:
  "(\<exists>r s'. compute_critic_loss toy_world toy_agent mixed_episode = Inr (r, s')
        \<and> shape (cl_backup r) = (2, 1)
        \<and> elem (cl_backup r) 0 0 = 21/10 \<and> elem (cl_backup r) 1 0 = 3)
   \<and> (\<exists>r s'. compute_critic_loss toy_world toy_agent rank_one_episode = Inr (r, s')
        \<and> shape (cl_backup r) = (2, 2)
        \<and> elem (cl_backup r) 0 0 = 21/10 \<and> elem (cl_backup r) 0 1 = 1
        \<and> elem (cl_backup r) 1 0 = 41/10 \<and> elem (cl_backup r) 1 1 = 3)
   \<and> compute_critic_loss toy_world toy_agent (mixed_episode\<lparr>b_act := tensor_of [[0, 5]]\<rparr>)
       = Inl (RuntimeError, toy_agent)
   \<and> compute_critic_loss toy_world toy_agent (mixed_episode\<lparr>b_rew := tensor_of [[1, 3, 5]]\<rparr>)
       = Inl (AssertionError, toy_agent\<lparr>rng := ()\<rparr>)
   \<and> grad (heap (final_agent (critic_step toy_world toy_agent mixed_episode)) 0) = None"
proof -
  let ?e4 = "mixed_episode\<lparr>b_act := tensor_of [[0, 5]]\<rparr>"
  let ?e5 = "mixed_episode\<lparr>b_rew := tensor_of [[1, 3, 5]]\<rparr>"
  have al: "alpha toy_agent = 1/5" "gamma toy_agent = 1/2" "rng toy_agent = ()"
    by (simp_all add: toy_agent_def init_def toy_args_def Let_def split_beta)
  have nv: "spec_next_v (1/5) (ones 2 2 (1/2)) (ones 2 2 (-1)) (ones 2 2 2) (ones 2 2 3) 2 i = 11/5" for i
    by (simp add: spec_next_v_def toy_sum ones_def)
  have sh: "shape (ones 2 2 c) = (2, 2)" for c by (simp add: ones_simps)
  have view: "view_hidden toy_world (b_hid_out mixed_episode) (hidden_size toy_agent) = Some 0"
             "view_hidden toy_world (b_hid_out rank_one_episode) (hidden_size toy_agent) = Some 0"
    by (simp_all add: toy_forward toy_agent_layout mixed_episode_fields)
  have smp: "pi_sample toy_world (vals (heap toy_agent) (ac_pi (ac toy_agent)))
         (memory_forward toy_world (vals (heap toy_agent) (ac_memory (ac toy_agent)))
            (b_obs2 ep) (b_act ep) r h) (rng toy_agent)
       = ((ones 2 2 (1/2), ones 2 2 (-1)), ())"
    if "b_obs2 ep = ones 2 1 0" for ep r h
    using that by (simp add: toy_forward ones_simps)
  have qt: "q1_forward toy_world (vals (heap toy_agent) (ac_q1 (ac_targ toy_agent))) (b_obs2 ep) = ones 2 2 2"
           "q2_forward toy_world (vals (heap toy_agent) (ac_q2 (ac_targ toy_agent))) (b_obs2 ep) = ones 2 2 3"
    if "b_obs2 ep = ones 2 1 0" for ep
    using that by (simp_all add: toy_forward toy_agent_values ones_simps)
  have qo: "q1_forward toy_world (vals (heap toy_agent) (ac_q1 (ac toy_agent))) (b_obs ep) = ones 2 2 2"
           "q2_forward toy_world (vals (heap toy_agent) (ac_q2 (ac toy_agent))) (b_obs ep) = ones 2 2 3"
    if "b_obs ep = ones 2 1 0" for ep
    using that by (simp_all add: toy_forward toy_agent_values ones_simps)
  note m = mixed_episode_fields
  note t1 = critic_backup_target [OF view(1) smp [OF m(2)] qt [OF m(2)] sh sh sh sh qo [OF m(1)]]
  note t2 = critic_backup_target [OF view(2) smp [OF m(8)] qt [OF m(8)] sh sh sh sh qo [OF m(7)]]
  have v4: "view_hidden toy_world (b_hid_out ?e4) (hidden_size toy_agent) = Some 0"
           "view_hidden toy_world (b_hid_out ?e5) (hidden_size toy_agent) = Some 0"
    by (simp_all add: toy_forward toy_agent_layout mixed_episode_fields)
  have o4: "b_obs2 ?e4 = ones 2 1 0" "b_obs ?e4 = ones 2 1 0"
           "b_obs2 ?e5 = ones 2 1 0" "b_obs ?e5 = ones 2 1 0"
    by (simp_all add: m)
  note t4 = critic_backup_target [OF v4(1) smp [OF o4(1)] qt [OF o4(1)] sh sh sh sh qo [OF o4(2)]]
  note t5 = critic_backup_target [OF v4(2) smp [OF o4(3)] qt [OF o4(3)] sh sh sh sh qo [OF o4(4)]]
  have 4: "compute_critic_loss toy_world toy_agent ?e4 = Inl (RuntimeError, toy_agent)"
    using t4
    by (simp add: Let_def m tensor_of_simps ones_simps all_less_2 ex_less_2 to_long_def)
  have 5: "compute_critic_loss toy_world toy_agent ?e5
             = Inl (AssertionError, toy_agent\<lparr>rng := ()\<rparr>)"
    using t5
    by (simp add: Let_def m tensor_of_simps ones_simps all_less_2 ex_less_2 to_long_def)
  have 1: "\<exists>r s'. compute_critic_loss toy_world toy_agent mixed_episode = Inr (r, s')
        \<and> shape (cl_backup r) = (2, 1)
        \<and> elem (cl_backup r) 0 0 = 21/10 \<and> elem (cl_backup r) 1 0 = 3"
    using t1
    apply (simp add: Let_def m tensor_of_simps ones_simps all_less_2 ex_less_2 to_long_def bcompat_def al nv)
    apply blast
    done
  have 2: "\<exists>r s'. compute_critic_loss toy_world toy_agent rank_one_episode = Inr (r, s')
        \<and> shape (cl_backup r) = (2, 2)
        \<and> elem (cl_backup r) 0 0 = 21/10 \<and> elem (cl_backup r) 0 1 = 1
        \<and> elem (cl_backup r) 1 0 = 41/10 \<and> elem (cl_backup r) 1 1 = 3"
    using t2
    apply (simp add: Let_def m tensor_of_simps ones_simps all_less_2 ex_less_2 to_long_def bcompat_def al nv)
    apply blast
    done
  have 3: "grad (heap (final_agent (critic_step toy_world toy_agent mixed_episode)) 0) = None"
    by (rule t1 [THEN conjunct2, rule_format, of 0])
       (simp_all add: toy_agent_layout toy_agent_grads)
  show ?thesis by (intro conjI; (rule 1 2 3 4 5))
qed


section \<open>The update\<close>

text \<open>
  Claim C10. If the buffer hands out no episode, \<^verbatim>\<open>update\<close> raises
  \<^verbatim>\<open>UnboundLocalError\<close> where it reads \<^verbatim>\<open>alpha_loss\<close>: the agent is left as it was but
  for the random number generator, so the smoothing pass has not run and every
  parameter, target parameters included, is unchanged. A call that returns has
  therefore sampled at least one episode.
\<close>

theorem update_empty_batch:
  "(fst (buffer_get w (buffer s) (batch_size s) (rng s)) = [] \<longrightarrow>
      update w s = Inl (UnboundLocalError,
                        s\<lparr>rng := snd (buffer_get w (buffer s) (batch_size s) (rng s))\<rparr>)
      \<and> heap (final_agent (update w s)) = heap s)
   \<and> (\<forall>s'. update w s = Inr s' \<longrightarrow>
         fst (buffer_get w (buffer s) (batch_size s) (rng s)) \<noteq> [])"
proof -
  have 1: "update w s = Inl (UnboundLocalError,
                        s\<lparr>rng := snd (buffer_get w (buffer s) (batch_size s) (rng s))\<rparr>)"
    if "fst (buffer_get w (buffer s) (batch_size s) (rng s)) = []"
    using that by (simp add: update_def Let_def)
  then show ?thesis by (auto simp: final_agent_def)
qed

theorem update_empty_batch_witness:
  "update toy_world (toy_agent\<lparr>batch_size := 0\<rparr>)
     = Inl (UnboundLocalError, toy_agent\<lparr>batch_size := 0, rng := ()\<rparr>)
   \<and> heap (final_agent (update toy_world (toy_agent\<lparr>batch_size := 0\<rparr>))) = heap toy_agent"
  using update_empty_batch [of toy_world "toy_agent\<lparr>batch_size := 0\<rparr>"]
  by (simp add: toy_buffer_get final_agent_def)

text \<open>
  Claim C2. A call of \<^verbatim>\<open>update\<close> that returns, on an agent whose target parameters are
  isolated (as the constructor leaves them), has run the loop over all the episodes of
  the batch, which left every target parameter as it was, and then one smoothing pass:
  the target parameter number \<open>i\<close> is the same cell, at the same address, with no
  gradient recorded, and its data is \<open>polyak * old_target + (1 - polyak) * online\<close>,
  where \<open>online\<close> is the data of the online parameter number \<open>i\<close> after the loop. (A call
  that does not return is the subject of claim C10.)
\<close>

theorem update_smooths_target_once:
  assumes "target_isolated s" and "update w s = Inr s'"
      and "i < length (parameters (ac_targ s))"
  shows "\<exists>s1. update_episodes w (fst (buffer_get w (buffer s) (batch_size s) (rng s)))
                 (s\<lparr>rng := snd (buffer_get w (buffer s) (batch_size s) (rng s))\<rparr>, False)
               = Inr (s1, True)
           \<and> heap s1 (parameters (ac_targ s) ! i) = heap s (parameters (ac_targ s) ! i)
           \<and> ac_targ s' = ac_targ s \<and> ac s' = ac s
           \<and> heap s' (parameters (ac_targ s) ! i)
               = (heap s (parameters (ac_targ s) ! i))
                   \<lparr>data := polyak s * data (heap s (parameters (ac_targ s) ! i))
                            + (1 - polyak s) * data (heap s1 (parameters (ac s) ! i))\<rparr>
           \<and> data (heap s' (parameters (ac s) ! i)) = data (heap s1 (parameters (ac s) ! i))"
proof -
  let ?T = "parameters (ac_targ s)" and ?P = "parameters (ac s)"
  obtain s1 where s1:
    "update_episodes w (fst (buffer_get w (buffer s) (batch_size s) (rng s)))
                 (s\<lparr>rng := snd (buffer_get w (buffer s) (batch_size s) (rng s))\<rparr>, False)
               = Inr (s1, True)"
    "kept s s1"
    "s' = s1\<lparr>heap := polyak_pass (polyak s1)
                        (zip (parameters (ac s1)) (parameters (ac_targ s1))) (heap s1)\<rparr>"
    using update_returns [OF assms(2)] by blast
  have e: "ac s1 = ac s" "ac_targ s1 = ac_targ s" "polyak s1 = polyak s"
    using s1(2) by (simp_all add: kept_def)
  have len: "length ?T = length ?P" and dist: "distinct ?T"
    and disj: "set ?P \<inter> set ?T = {}"
    using assms(1) by (auto simp: target_isolated_def untouchable_def)
  have t_in: "?T ! i \<in> set ?T" using assms(3) by simp
  have same: "heap s1 (?T ! i) = heap s (?T ! i)"
    using kept_target_isolated(2) [OF s1(2) assms(1)] t_in by blast
  have heap': "heap s' = polyak_pass (polyak s) (zip ?P ?T) (heap s1)"
    using s1(3) e by simp
  have mem: "(?P ! i, ?T ! i) \<in> set (zip ?P ?T)"
    using assms(3) len by (auto simp: set_zip)
  have d2: "distinct (map snd (zip ?P ?T))" using dist len by simp
  have "fst ` set (zip ?P ?T) \<subseteq> set ?P" "snd ` set (zip ?P ?T) \<subseteq> set ?T"
    by (auto dest: set_zip_leftD set_zip_rightD)
  then have dj2: "fst ` set (zip ?P ?T) \<inter> snd ` set (zip ?P ?T) = {}"
    using disj by blast
  have dat: "data (heap s' (?T ! i))
       = polyak s * data (heap s1 (?T ! i)) + (1 - polyak s) * data (heap s1 (?P ! i))"
    unfolding heap' using d2 dj2 mem by (rule polyak_pass_target)
  have cell: "heap s' (?T ! i)
               = (heap s (?T ! i))
                   \<lparr>data := polyak s * data (heap s (?T ! i))
                            + (1 - polyak s) * data (heap s1 (?P ! i))\<rparr>"
    using dat same by (intro cell.equality) (simp_all add: heap')
  have "?P ! i \<in> set ?P" using assms(3) len by simp
  then have "?P ! i \<notin> snd ` set (zip ?P ?T)"
    using disj \<open>snd ` set (zip ?P ?T) \<subseteq> set ?T\<close> by blast
  then have onl: "data (heap s' (?P ! i)) = data (heap s1 (?P ! i))"
    unfolding heap' by (simp add: polyak_pass_frame)
  show ?thesis using s1(1) same cell onl e s1(3) by auto
qed

theorem update_smooths_target_once_witness:
  "\<exists>s' (s1 :: (int \<times> int, int \<times> int, int, unit, unit) sac).
       update toy_world toy_agent = Inr s'
     \<and> heap s1 4 = heap toy_agent 4
     \<and> heap s' 4 = (heap toy_agent 4)\<lparr>data := 1/2 * 1 + (1 - 1/2) * data (heap s1 0)\<rparr>"
proof -
  obtain s' where u: "update toy_world toy_agent = Inr s'"
    using toy_update_returns by blast
  have iso: "target_isolated toy_agent"
    unfolding toy_agent_def by (rule init_target_isolated)
  have i: "0 < length (parameters (ac_targ toy_agent))" by (simp add: toy_agent_layout)
  obtain s1 :: "(int \<times> int, int \<times> int, int, unit, unit) sac" where
    "heap s1 (parameters (ac_targ toy_agent) ! 0) = heap toy_agent (parameters (ac_targ toy_agent) ! 0)"
    "heap s' (parameters (ac_targ toy_agent) ! 0)
               = (heap toy_agent (parameters (ac_targ toy_agent) ! 0))
                   \<lparr>data := polyak toy_agent * data (heap toy_agent (parameters (ac_targ toy_agent) ! 0))
                            + (1 - polyak toy_agent) * data (heap s1 (parameters (ac toy_agent) ! 0))\<rparr>"
    using update_smooths_target_once [OF iso u i] by (elim exE conjE) (rule that)
  then have "heap s1 4 = heap toy_agent 4"
    "heap s' 4 = (heap toy_agent 4)\<lparr>data := 1/2 * 1 + (1 - 1/2) * data (heap s1 0)\<rparr>"
    by (simp_all add: toy_agent_layout toy_agent_heap)
  then show ?thesis using u by blast
qed

section \<open>The training loop, step by step\<close>

lemma choose_action_fields:
  assumes "choose_action w s l = (a, h_out, s1)"
  shows "max_ep_len s1 = max_ep_len s" "buffer s1 = buffer s" "global_steps s1 = global_steps s"
    "env s1 = env s" "heap s1 = heap s"
  using assms by (auto simp: choose_action_def Let_def split: if_splits)


lemma train_step_eq:
  assumes ch: "choose_action w s l = (a, h_out, s1)"
      and st: "env_step w (envs s1 (env s1)) a = ((o2, r, ter, trunc), e')"
  shows "train_step w (s, l) =
     (s1\<lparr>envs := (envs s1)(env s1 := e'),
          buffer := buffer s @
            Store \<lparr>t_obs = l_o l, t_next_obs = o2, t_action = a, t_reward = r,
                   t_done = (l_ep_len l + 1 \<noteq> max_ep_len s \<and> (ter \<or> trunc)),
                   t_prev_action = l_a2 l, t_prev_reward = l_r2 l,
                   t_hidden_in = l_h_out l, t_hidden_out = h_out\<rparr>
            # (if (ter \<or> trunc) \<or> l_ep_len l + 1 = max_ep_len s then [Finish_path] else []),
          global_steps := global_steps s + 1\<rparr>,
      \<lparr>l_a2 = a, l_r2 = r, l_h_in = l_h_out l, l_h_out = h_out,
       l_d = (l_ep_len l + 1 \<noteq> max_ep_len s \<and> (ter \<or> trunc)),
       l_ep_ret = l_ep_ret l + r, l_ep_len = l_ep_len l + 1, l_o = o2\<rparr>)"
proof -
  have f: "max_ep_len s1 = max_ep_len s" "buffer s1 = buffer s" "global_steps s1 = global_steps s"
    using choose_action_fields [OF ch] by simp_all
  show ?thesis
    unfolding train_step_def
    apply (simp only: Let_def fst_conv snd_conv ch st)
    apply (simp add: f)
    done
qed

lemma train_step_summary:
  "\<exists>t. buffer (fst (train_step w sl))
          = buffer (fst sl) @ Store t #
              (if l_d (snd (train_step w sl))
                  \<or> l_ep_len (snd (train_step w sl)) = max_ep_len (fst sl)
               then [Finish_path] else [])
      \<and> t_done t = l_d (snd (train_step w sl))
      \<and> l_ep_len (snd (train_step w sl)) = l_ep_len (snd sl) + 1
      \<and> max_ep_len (fst (train_step w sl)) = max_ep_len (fst sl)
      \<and> t_prev_action t = l_a2 (snd sl) \<and> t_prev_reward t = l_r2 (snd sl)
      \<and> t_hidden_in t = l_h_out (snd sl)
      \<and> carry_of (snd (train_step w sl))
          = \<lparr>c_a2 = t_action t, c_r2 = t_reward t,
             c_h_in = t_hidden_in t, c_h_out = t_hidden_out t\<rparr>"
proof -
  obtain s l where sl: "sl = (s, l)" by (cases sl)
  obtain a h_out s1 where ch: "choose_action w s l = (a, h_out, s1)" by (metis prod_cases3)
  obtain o2 r ter trunc e' where st: "env_step w (envs s1 (env s1)) a = ((o2, r, ter, trunc), e')"
    by (metis prod_cases4 surj_pair)
  have f: "max_ep_len s1 = max_ep_len s" using choose_action_fields [OF ch] by simp
  show ?thesis
    unfolding sl train_step_eq [OF ch st]
    by (simp add: carry_of_def f)
qed

lemma train_while_done:
  "l_d (snd sl) \<or> l_ep_len (snd sl) = max_ep_len (fst sl) \<Longrightarrow> train_while fuel w sl = Some sl"
  by (cases fuel) simp_all

lemma train_while_trace:
  assumes "train_while fuel w sl = Some sl'"
      and "\<not> (l_d (snd sl) \<or> l_ep_len (snd sl) = max_ep_len (fst sl))"
  shows "\<exists>ts. ts \<noteq> []
     \<and> buffer (fst sl') = buffer (fst sl) @ map Store ts @ [Finish_path]
     \<and> (t_done (last ts) \<or> l_ep_len (snd sl) + int (length ts) = max_ep_len (fst sl))
     \<and> (\<forall>k<length ts - 1. \<not> t_done (ts ! k)
                            \<and> l_ep_len (snd sl) + int (k + 1) \<noteq> max_ep_len (fst sl))
     \<and> t_prev_action (hd ts) = l_a2 (snd sl) \<and> t_prev_reward (hd ts) = l_r2 (snd sl)
     \<and> t_hidden_in (hd ts) = l_h_out (snd sl)
     \<and> carry_of (snd sl') = \<lparr>c_a2 = t_action (last ts), c_r2 = t_reward (last ts),
                              c_h_in = t_hidden_in (last ts), c_h_out = t_hidden_out (last ts)\<rparr>"
  using assms
proof (induction fuel arbitrary: sl)
  case 0
  then show ?case by simp
next
  case (Suc n)
  let ?sl1 = "train_step w sl"
  have run: "train_while n w ?sl1 = Some sl'" using Suc.prems by simp
  obtain t where t:
    "buffer (fst ?sl1) = buffer (fst sl) @ Store t #
              (if l_d (snd ?sl1) \<or> l_ep_len (snd ?sl1) = max_ep_len (fst sl)
               then [Finish_path] else [])"
    "t_done t = l_d (snd ?sl1)"
    "l_ep_len (snd ?sl1) = l_ep_len (snd sl) + 1"
    "max_ep_len (fst ?sl1) = max_ep_len (fst sl)"
    "t_prev_action t = l_a2 (snd sl)" "t_prev_reward t = l_r2 (snd sl)"
    "t_hidden_in t = l_h_out (snd sl)"
    "carry_of (snd ?sl1) = \<lparr>c_a2 = t_action t, c_r2 = t_reward t,
             c_h_in = t_hidden_in t, c_h_out = t_hidden_out t\<rparr>"
    using train_step_summary [of w sl] by blast
  show ?case
  proof (cases "l_d (snd ?sl1) \<or> l_ep_len (snd ?sl1) = max_ep_len (fst ?sl1)")
    case True
    then have "sl' = ?sl1" using run train_while_done [of ?sl1 n w] by simp
    then show ?thesis using True t by (intro exI [of _ "[t]"]) auto
  next
    case False
    from Suc.IH [OF run False] obtain ts where ts:
      "ts \<noteq> []"
      "buffer (fst sl') = buffer (fst ?sl1) @ map Store ts @ [Finish_path]"
      "t_done (last ts) \<or> l_ep_len (snd ?sl1) + int (length ts) = max_ep_len (fst ?sl1)"
      "\<forall>k<length ts - 1. \<not> t_done (ts ! k)
                            \<and> l_ep_len (snd ?sl1) + int (k + 1) \<noteq> max_ep_len (fst ?sl1)"
      "carry_of (snd sl') = \<lparr>c_a2 = t_action (last ts), c_r2 = t_reward (last ts),
                              c_h_in = t_hidden_in (last ts), c_h_out = t_hidden_out (last ts)\<rparr>"
      by blast
    have mid: "\<not> t_done ((t # ts) ! k) \<and> l_ep_len (snd sl) + int (k + 1) \<noteq> max_ep_len (fst sl)"
      if k: "k < length (t # ts) - 1" for k
    proof (cases k)
      case 0
      then show ?thesis using False t by simp
    next
      case (Suc j)
      then have "j < length ts - 1" using k by simp
      then show ?thesis using ts(4) t(3,4) Suc by (simp add: algebra_simps)
    qed
    show ?thesis
      using ts(1,2,3,5) t False mid
      by (intro exI [of _ "t # ts"]) (auto simp: algebra_simps)
  qed
qed

lemma train_while_terminates:
  "l_ep_len (snd sl) \<le> max_ep_len (fst sl)
    \<Longrightarrow> nat (max_ep_len (fst sl) - l_ep_len (snd sl)) \<le> fuel
    \<Longrightarrow> \<exists>sl'. train_while fuel w sl = Some sl'"
proof (induction fuel arbitrary: sl)
  case 0
  then show ?case by simp
next
  case (Suc n)
  show ?case
  proof (cases "l_d (snd sl) \<or> l_ep_len (snd sl) = max_ep_len (fst sl)")
    case True
    then show ?thesis by simp
  next
    case False
    obtain t where
      "l_ep_len (snd (train_step w sl)) = l_ep_len (snd sl) + 1"
      "max_ep_len (fst (train_step w sl)) = max_ep_len (fst sl)"
      using train_step_summary [of w sl] by blast
    then have "\<exists>sl'. train_while n w (train_step w sl) = Some sl'"
      using Suc.prems False by (intro Suc.IH) auto
    then show ?thesis using False by simp
  qed
qed

lemma trajectory_start_fields:
  "buffer (fst (trajectory_start w s c)) = buffer s"
  "max_ep_len (fst (trajectory_start w s c)) = max_ep_len s"
  "l_ep_len (snd (trajectory_start w s c)) = 0"
  "l_d (snd (trajectory_start w s c)) = False"
  "l_a2 (snd (trajectory_start w s c)) = c_a2 c"
  "l_r2 (snd (trajectory_start w s c)) = c_r2 c"
  "l_h_in (snd (trajectory_start w s c)) = c_h_in c"
  "l_h_out (snd (trajectory_start w s c)) = c_h_out c"
  "heap (fst (trajectory_start w s c)) = heap s"
  by (simp_all add: trajectory_start_def Let_def)

section \<open>Runs of the small world\<close>

lemma range_int_small: "range_int 1 = [0]" "range_int 2 = [0, 1]"
  by (simp_all add: range_int_def numeral_2_eq_2)

lemma toy_agent_config:
  "global_steps toy_agent = 0" "start_steps toy_agent = 0" "env toy_agent = 0"
  "max_ep_len toy_agent = 2" "epochs toy_agent = 1" "number_of_trajectories toy_agent = 2"
  "update_every toy_agent = 50" "envs toy_agent = (\<lambda>n. (int n, 0))" "rng toy_agent = ()"
  "save_freq toy_agent = 50" "steps_per_epoch toy_agent = 4"
  by (simp_all add: toy_agent_def init_def toy_args_def Let_def split_beta)

lemma toy_world_fields:
  "ac_act toy_world = (\<lambda>vs x a r h. (0, h + 1))"
  "ac_explore toy_world = (\<lambda>vs x a r h g. ((2, h + 1), g))"
  "zeros_hidden toy_world = 0"
  "env_reset toy_world = (\<lambda>e. ((fst e, 0), (fst e, 0)))"
  "env_step toy_world = (\<lambda>e a. (((fst e, snd e + 1), real_of_int a, snd e + 1 \<ge> 3, False),
                          (fst e, snd e + 1)))"
  "action_space_sample toy_world = (\<lambda>e. (1, e))"
  "np_random toy_world = (\<lambda>g. (1/2, g))"
  "scheduler_step toy_world = (\<lambda>k. k)"
  by (simp_all add: toy_world_def)



lemma toy_test_eval:
  "\<exists>S. test_agent 5 toy_world 1 2 1 (4/5) toy_agent
          = Some (Inr (([[(0, 2), (0, 3)], [(0, 5)]], [[0, 0], [0]]), S))
      \<and> envs S 1 = (1, 0) \<and> envs S 0 = (0, 5)"
  by (simp add: test_agent_def test_start_def test_episode_def
        test_step_def random_init_step_def get_action_def Let_def
        range_int_small toy_agent_config toy_world_fields eval_nat_numeral)

lemma toy_test_run:
  "returned (test_agent 5 toy_world 1 2 1 (4/5) toy_agent)
     = Some ([[(0, 2), (0, 3)], [(0, 5)]], [[0, 0], [0]])
   \<and> env_after (test_agent 5 toy_world 1 2 1 (4/5) toy_agent) 1 = Some (1, 0)
   \<and> env_after (test_agent 5 toy_world 1 2 1 (4/5) toy_agent) 0 = Some (0, 5)"
proof -
  obtain S where "test_agent 5 toy_world 1 2 1 (4/5) toy_agent
          = Some (Inr (([[(0, 2), (0, 3)], [(0, 5)]], [[0, 0], [0]]), S))"
    "envs S 1 = (1, 0)" "envs S 0 = (0, 5)"
    using toy_test_eval by blast
  then show ?thesis by (simp add: returned_def env_after_def)
qed

lemma toy_test_returns: "\<exists>r. test_agent 5 toy_world 1 2 1 (4/5) toy_agent = Some r"
  using toy_test_eval by blast

text \<open>
  One update of the small world, and a training run of one trajectory followed by one
  update, evaluated: every online parameter has gone down by 1 and every target
  parameter is the mean of what it was and of its online parameter.
\<close>

lemma toy_agent_modules:
  "ac toy_agent = \<lparr>ac_pi = [0], ac_q1 = [1], ac_q2 = [2], ac_memory = [3]\<rparr>"
  "ac_targ toy_agent = \<lparr>ac_pi = [4], ac_q1 = [5], ac_q2 = [6], ac_memory = [7]\<rparr>"
  "opt_params (q_optimizer toy_agent) = [1, 2]"
  "opt_params (pi_optimizer toy_agent) = [0, 3]"
  "q_params toy_agent = []"
  "clip_ratio toy_agent = 1"
  "alpha toy_agent = 1/5" "gamma toy_agent = 1/2"
  by (simp_all add: toy_agent_def init_def toy_args_def create_or_load_model_def new_module_def
        alloc_def deepcopy_def copy_cells_def Adam_def Let_def parameters_def)

lemma toy_agent_cells:
  "heap toy_agent a =
     (if a < 4 then \<lparr>data = real a + 1, requires_grad = True, grad = None\<rparr>
      else if a < 8 then \<lparr>data = real (a - 4) + 1, requires_grad = False, grad = None\<rparr>
      else \<lparr>data = 0, requires_grad = False, grad = None\<rparr>)"
proof -
  have "a = 0 \<or> a = 1 \<or> a = 2 \<or> a = 3 \<or> a = 4 \<or> a = 5 \<or> a = 6 \<or> a = 7 \<or> 8 \<le> a"
    by linarith
  then show ?thesis
    by (elim disjE)
       (simp_all add: toy_agent_def init_def toy_args_def create_or_load_model_def new_module_def
          alloc_def deepcopy_def copy_cells_def Adam_def Let_def parameters_def
          set_requires_grad_def)
qed

lemma toy_world_rest:
  "buffer_get toy_world = (\<lambda>calls n g. (replicate (nat n) toy_episode, g))"
  "backward_q toy_world = (\<lambda>h ep a. Some 1)"
  "backward_pi toy_world = (\<lambda>h ep a. Some 1)"
  "clip_coef toy_world = (\<lambda>c gs. 1)"
  "adam_step toy_world
     = (\<lambda>k xs. ((), map (\<lambda>x. fst x - (case snd x of None \<Rightarrow> 0 | Some g \<Rightarrow> g)) xs))"
  by (simp_all add: toy_world_def)

lemma toy_update_values:
  "\<exists>s'. update toy_world toy_agent = Inr s'
      \<and> map (\<lambda>a. data (heap s' a)) [0, 1, 2, 3] = [0, 1, 2, 3]
      \<and> map (\<lambda>a. data (heap s' a)) [4, 5, 6, 7] = [1/2, 3/2, 5/2, 7/2]"
  by (simp add: update_def update_episode_def critic_step_def policy_step_def alpha_step_def
        freeze_q_params_def unfreeze_q_params_def compute_critic_loss_def compute_policy_loss_def
        opt_step_def clip_grad_norm_def backward_def zero_grad_def set_requires_grad_def
        soft_value_def backup_of_def tbin_def tmap_def sum_dim1_def view_col_def ones_def shape_def
        broadcastable_def bcompat_def bdim_def gather_dim1_def long_def to_long_def mse_def
        toy_world_def toy_episode_def toy_agent_modules toy_agent_cells toy_agent_layout
        Let_def parameters_def vals_def List.map_filter_def)


lemma toy_updating_run:
  "\<exists>s'. train_agent 5 toy_world 0 (toy_agent\<lparr>update_every := 1, number_of_trajectories := 1\<rparr>)
             = Some (Inr s')
      \<and> map (\<lambda>a. data (heap s' a)) [0, 1, 2, 3] = [0, 1, 2, 3]
      \<and> map (\<lambda>a. data (heap s' a)) [4, 5, 6, 7] = [1/2, 3/2, 5/2, 7/2]"
  by (simp add: train_agent_def train_epoch_def
        train_trajectory_def trajectory_start_def train_step_def choose_action_def
        get_action_def update_handling_def carry_of_def
        range_int_small toy_agent_config toy_world_fields eval_nat_numeral
        update_def update_episode_def critic_step_def policy_step_def alpha_step_def
        freeze_q_params_def unfreeze_q_params_def compute_critic_loss_def compute_policy_loss_def
        opt_step_def clip_grad_norm_def backward_def zero_grad_def set_requires_grad_def
        soft_value_def backup_of_def tbin_def tmap_def sum_dim1_def view_col_def ones_def shape_def
        broadcastable_def bcompat_def bdim_def gather_dim1_def long_def to_long_def mse_def
        toy_forward toy_world_rest
        toy_episode_def toy_agent_modules toy_agent_cells toy_agent_layout
        Let_def parameters_def vals_def List.map_filter_def)


section \<open>What the training loop stores\<close>

text \<open>
  Claim C6. In a step of the training loop, let \<open>a\<close> be the action chosen and
  \<open>(o2, r, ter, trunc)\<close> what the environment answers. The step stores one transition; if
  the episode length reaches \<^verbatim>\<open>max_ep_len\<close> with this step its done flag is false,
  whatever the environment reported, and otherwise it is \<open>ter \<or> trunc\<close>.
\<close>

theorem stored_done_flag:
  assumes "choose_action w s l = (a, h_out, s1)"
      and "env_step w (envs s1 (env s1)) a = ((o2, r, ter, trunc), e')"
  shows "\<exists>t rest. buffer (fst (train_step w (s, l))) = buffer s @ Store t # rest
           \<and> t_action t = a \<and> t_next_obs t = o2 \<and> t_reward t = r
           \<and> l_ep_len (snd (train_step w (s, l))) = l_ep_len l + 1
           \<and> (l_ep_len l + 1 = max_ep_len s \<longrightarrow> t_done t = False)
           \<and> (l_ep_len l + 1 \<noteq> max_ep_len s \<longrightarrow> t_done t = (ter \<or> trunc))"
  unfolding train_step_eq [OF assms] by simp

text \<open>
  On the small world: the environment is two steps into its episode, so the step ends it
  (\<open>ter\<close> is true), and the step is the second of at most two: the stored flag is false.
\<close>

theorem stored_done_flag_witness:
  "\<exists>t rest. buffer (fst (train_step toy_world (toy_agent\<lparr>envs := (\<lambda>n. (int n, 2))\<rparr>, toy_locals)))
               = Store t # rest
      \<and> t_next_obs t = (0, 3) \<and> t_done t = False"
proof -
  let ?s = "toy_agent\<lparr>envs := (\<lambda>n. (int n, 2))\<rparr>"
  have ch: "choose_action toy_world ?s toy_locals = (1, 0, ?s)"
    by (simp add: choose_action_def Let_def toy_agent_config toy_world_fields toy_locals_def)
       (simp add: fun_eq_iff)
  have st: "env_step toy_world (envs ?s (env ?s)) 1 = (((0, 3), 1, True, False), (0, 3))"
    by (simp add: toy_world_fields toy_agent_config)
  from stored_done_flag [OF ch st] obtain t rest where
    "buffer (fst (train_step toy_world (?s, toy_locals))) = buffer ?s @ Store t # rest"
    "t_next_obs t = (0, 3)"
    "l_ep_len toy_locals + 1 = max_ep_len ?s \<longrightarrow> t_done t = False"
    by blast
  then show ?thesis
    by (intro exI [of _ t] exI [of _ rest])
       (simp add: toy_locals_def toy_agent_config toy_agent_layout)
qed


text \<open>
  Claim C7, as stated, fails in the warm-up phase. The first step of the small world is a
  warm-up step: the action is drawn from the action space and the stored recurrent
  state after the step is the one before it, 0, while the memory encoder maps the stored
  observation, previous action, previous reward and recurrent state to 1.
\<close>

theorem stored_hidden_counterexample:
  "buffer (fst (train_step toy_world (trajectory_start toy_world toy_agent toy_carry)))
     = [Store \<lparr>t_obs = (0, 0), t_next_obs = (0, 1), t_action = 1, t_reward = 1,
               t_done = False, t_prev_action = 0, t_prev_reward = 0, t_hidden_in = 0,
               t_hidden_out = 0\<rparr>]
   \<and> snd (fst (ac_explore toy_world (vals (heap toy_agent) (parameters (ac toy_agent)))
                  (0, 0) 0 0 0 ())) = 1"
  by (simp add: trajectory_start_def train_step_def choose_action_def Let_def toy_carry_def
        toy_agent_config toy_agent_layout toy_world_fields)

text \<open>
  Claim C7, amended. Every step of the training loop stores one transition, whose
  observation, previous action and previous reward are the ones the step began with and
  whose \<open>hidden_in\<close> is the \<open>h_out\<close> the step began with. After the warm-up
  (\<^verbatim>\<open>global_steps > start_steps\<close>) the stored action and \<open>hidden_out\<close> are the action and
  the recurrent state that \<^verbatim>\<open>ac.explore\<close> returns on that observation, previous action,
  previous reward and \<open>hidden_in\<close>. In the warm-up the action is the one sampled from the
  action space and \<open>hidden_out\<close> equals \<open>hidden_in\<close>.
\<close>

theorem stored_hidden_pair:
  "\<exists>t rest. buffer (fst (train_step w (s, l))) = buffer s @ Store t # rest
      \<and> t_obs t = l_o l \<and> t_prev_action t = l_a2 l \<and> t_prev_reward t = l_r2 l
      \<and> t_hidden_in t = l_h_out l
      \<and> (global_steps s > start_steps s \<longrightarrow>
           (t_action t, t_hidden_out t)
             = fst (ac_explore w (vals (heap s) (parameters (ac s)))
                      (t_obs t) (t_prev_action t) (t_prev_reward t) (t_hidden_in t) (rng s)))
      \<and> (\<not> global_steps s > start_steps s \<longrightarrow>
           t_action t = fst (action_space_sample w (envs s (env s)))
           \<and> t_hidden_out t = t_hidden_in t)"
proof -
  obtain a h_out s1 where ch: "choose_action w s l = (a, h_out, s1)" by (metis prod_cases3)
  obtain o2 r ter trunc e' where st: "env_step w (envs s1 (env s1)) a = ((o2, r, ter, trunc), e')"
    by (metis prod_cases4 surj_pair)
  have 1: "(a, h_out) = fst (ac_explore w (vals (heap s) (parameters (ac s)))
                      (l_o l) (l_a2 l) (l_r2 l) (l_h_out l) (rng s))"
    if "global_steps s > start_steps s"
    using ch that by (auto simp: choose_action_def get_action_def Let_def)
  have 2: "a = fst (action_space_sample w (envs s (env s))) \<and> h_out = l_h_out l"
    if "\<not> global_steps s > start_steps s"
    using ch that by (auto simp: choose_action_def Let_def)
  show ?thesis
    unfolding train_step_eq [OF ch st] using 1 2 by simp
qed

text \<open>On the small world, one step after the warm-up: \<open>hidden_out\<close> is the encoder's 1.\<close>

theorem stored_hidden_pair_witness:
  "\<exists>t rest. buffer (fst (train_step toy_world (toy_agent\<lparr>global_steps := 1\<rparr>, toy_locals)))
               = Store t # rest
      \<and> t_hidden_in t = 0 \<and> t_action t = 2 \<and> t_hidden_out t = 1"
proof -
  let ?s = "toy_agent\<lparr>global_steps := 1\<rparr>"
  from stored_hidden_pair [of toy_world ?s toy_locals] obtain t rest where t:
    "buffer (fst (train_step toy_world (?s, toy_locals))) = buffer ?s @ Store t # rest"
    "t_hidden_in t = l_h_out toy_locals"
    "global_steps ?s > start_steps ?s \<longrightarrow>
           (t_action t, t_hidden_out t)
             = fst (ac_explore toy_world (vals (heap ?s) (parameters (ac ?s)))
                      (t_obs t) (t_prev_action t) (t_prev_reward t) (t_hidden_in t) (rng ?s))"
    by blast
  have "t_hidden_in t = 0" using t(2) by (simp add: toy_locals_def)
  moreover from this have "t_action t = 2 \<and> t_hidden_out t = 1"
    using t(3) by (simp add: toy_agent_config toy_world_fields)
  ultimately show ?thesis
    using t(1) by (intro exI [of _ t] exI [of _ rest]) (simp add: toy_agent_layout)
qed

section \<open>The end of a trajectory\<close>

text \<open>
  Claim C8, as stated, fails when the step limit is 0: the \<^verbatim>\<open>while\<close> loop of a trajectory
  is left before its first step, and \<^verbatim>\<open>finish_path\<close> is never called. On the small world
  with \<^verbatim>\<open>max_ep_len=0\<close>, one epoch of two trajectories leaves the single call
  \<^verbatim>\<open>buffer.reset()\<close>.
\<close>

lemma toy_agent_no_steps_config:
  "max_ep_len toy_agent_no_steps = 0" "epochs toy_agent_no_steps = 1"
  "number_of_trajectories toy_agent_no_steps = 2" "update_every toy_agent_no_steps = 50"
  "buffer toy_agent_no_steps = []"
  by (simp_all add: toy_agent_no_steps_def init_def toy_args_def Let_def split_beta)

theorem finish_path_counterexample:
  "buffer_after (train_agent 5 toy_world 0 toy_agent_no_steps) = [Reset]
   \<and> epochs toy_agent_no_steps = 1 \<and> number_of_trajectories toy_agent_no_steps = 2"
  by (simp add: buffer_after_def final_agent_def train_agent_def train_epoch_def
        train_trajectory_def trajectory_start_def update_handling_def carry_of_def Let_def
        range_int_small toy_agent_no_steps_config toy_world_fields eval_nat_numeral)

text \<open>
  Claim C8, amended. With a step limit other than 0, a trajectory of the training loop
  that ends has stored at least one transition and has called \<^verbatim>\<open>finish_path\<close> exactly
  once, after the last of them: the calls it made on the buffer are the stores followed
  by \<^verbatim>\<open>finish_path\<close>. The last transition is done or is number \<^verbatim>\<open>max_ep_len\<close>, and no
  earlier one is. With a positive step limit and at least as much fuel, the trajectory
  ends.
\<close>

theorem finish_path_once:
  assumes "max_ep_len s \<noteq> 0"
  shows "(\<forall>s' l'. train_while fuel w (trajectory_start w s c) = Some (s', l') \<longrightarrow>
            (\<exists>ts. ts \<noteq> []
               \<and> buffer s' = buffer s @ map Store ts @ [Finish_path]
               \<and> (t_done (last ts) \<or> int (length ts) = max_ep_len s)
               \<and> (\<forall>k<length ts - 1. \<not> t_done (ts ! k) \<and> int (k + 1) \<noteq> max_ep_len s)))
       \<and> (0 < max_ep_len s \<longrightarrow> nat (max_ep_len s) \<le> fuel \<longrightarrow>
            (\<exists>sl'. train_while fuel w (trajectory_start w s c) = Some sl'))"
proof (intro conjI allI impI)
  fix s' l'
  assume run: "train_while fuel w (trajectory_start w s c) = Some (s', l')"
  have "\<not> (l_d (snd (trajectory_start w s c))
           \<or> l_ep_len (snd (trajectory_start w s c)) = max_ep_len (fst (trajectory_start w s c)))"
    using assms by (simp add: trajectory_start_fields)
  from train_while_trace [OF run this]
  show "\<exists>ts. ts \<noteq> []
               \<and> buffer s' = buffer s @ map Store ts @ [Finish_path]
               \<and> (t_done (last ts) \<or> int (length ts) = max_ep_len s)
               \<and> (\<forall>k<length ts - 1. \<not> t_done (ts ! k) \<and> int (k + 1) \<noteq> max_ep_len s)"
    by (simp add: trajectory_start_fields) blast
next
  assume "0 < max_ep_len s" "nat (max_ep_len s) \<le> fuel"
  then show "\<exists>sl'. train_while fuel w (trajectory_start w s c) = Some sl'"
    by (intro train_while_terminates) (simp_all add: trajectory_start_fields)
qed

theorem finish_path_once_witness:
  "\<exists>sl' ts. train_while 5 toy_world (trajectory_start toy_world toy_agent toy_carry) = Some sl'
      \<and> ts \<noteq> [] \<and> buffer (fst sl') = map Store ts @ [Finish_path]"
proof -
  have m: "max_ep_len toy_agent \<noteq> 0" by (simp add: toy_agent_config)
  note f = finish_path_once [OF m, of 5 toy_world toy_carry]
  obtain sl' where r: "train_while 5 toy_world (trajectory_start toy_world toy_agent toy_carry) = Some sl'"
    using f by (auto simp: toy_agent_config)
  obtain s' l' where sl: "sl' = (s', l')" by (cases sl')
  obtain ts where "ts \<noteq> []" "buffer s' = buffer toy_agent @ map Store ts @ [Finish_path]"
    using f r sl by blast
  then show ?thesis using r sl by (auto simp: toy_agent_layout)
qed

section \<open>The evaluation loop\<close>

text \<open>
  Claim C9 fails on the code: \<^verbatim>\<open>test_agent\<close> resets the environment it is given, but
  takes the warm-up steps and the steps of every trajectory on \<^verbatim>\<open>self.env\<close>. On the
  small world the agent's own environment is number 0 and the held-out one is number 1:
  two test trajectories with one warm-up step each return observations of environment
  0 only, leave it five steps into its episode, and leave environment 1 as its reset
  left it.
\<close>

theorem test_agent_steps_training_env:
  "returned (test_agent 5 toy_world 1 2 1 (4/5) toy_agent)
     = Some ([[(0, 2), (0, 3)], [(0, 5)]], [[0, 0], [0]])
   \<and> env_after (test_agent 5 toy_world 1 2 1 (4/5) toy_agent) 1 = Some (1, 0)
   \<and> env_after (test_agent 5 toy_world 1 2 1 (4/5) toy_agent) 0 = Some (0, 5)
   \<and> env toy_agent = 0"
  using toy_test_run toy_agent_config(3) by (intro conjI) blast+

section \<open>Freezing the critics\<close>

lemma init_online_differentiable:
  "\<forall>a \<in> set (parameters (ac (init w args))). requires_grad (heap (init w args) a)"
proof -
  obtain m h1 n1 mt h2 where l:
    "create_or_load_model args (\<lambda>a. \<lparr>data = 0, requires_grad = False, grad = None\<rparr>) 0
       = (m, h1, n1)"
    "deepcopy m h1 n1 = (mt, h2, n1 + n1)"
    "parameters m = [0 ..< n1]"
    "parameters mt = [n1 ..< n1 + n1]"
    "\<forall>a<n1. requires_grad (h1 a) \<and> grad (h1 a) = None"
    "\<forall>a<n1. h2 a = h1 a"
    "\<forall>i<n1. h2 (n1 + i) = h1 i"
    by (rule init_layout)
  note f = init_fields [OF l(1) l(2), of w]
  show ?thesis
    using l(5,6) by (simp add: f(1,7) l(3,4) set_requires_grad_def)
qed

lemma critic_step_flags:
  "requires_grad (heap (final_agent (critic_step w s ep)) a) = requires_grad (heap s a)"
  "q_params (final_agent (critic_step w s ep)) = q_params s"
  "ac (final_agent (critic_step w s ep)) = ac s"
  by (auto simp: critic_step_def final_agent_def Let_def
      split: sum.splits prod.splits dest!: compute_critic_loss_agent)

text \<open>
  Claim C4 fails on the code. The iterator \<^verbatim>\<open>self.q_params\<close> is drained when the
  constructor hands it to \<^verbatim>\<open>Adam\<close>, so the loop that is to freeze the critics runs over
  nothing: after the critic step of the first episode, when the policy step begins,
  every parameter of the two critics still requires a gradient.
\<close>

theorem critic_parameters_not_frozen:
  "q_params (init w args) = []
   \<and> heap (freeze_q_params (final_agent (critic_step w (init w args) ep)))
       = heap (final_agent (critic_step w (init w args) ep))
   \<and> list_all (\<lambda>a. requires_grad
                      (heap (freeze_q_params (final_agent (critic_step w (init w args) ep))) a))
        (ac_q1 (ac (init w args)) @ ac_q2 (ac (init w args)))"
proof -
  have q: "q_params (init w args) = []"
    by (simp add: init_def Adam_def Let_def split_beta)
  have h: "heap (freeze_q_params (final_agent (critic_step w (init w args) ep)))
             = heap (final_agent (critic_step w (init w args) ep))"
    by (simp add: freeze_q_params_def critic_step_flags q)
  have "set (ac_q1 (ac (init w args)) @ ac_q2 (ac (init w args)))
          \<subseteq> set (parameters (ac (init w args)))"
    by (auto simp: parameters_def)
  then have "\<forall>a \<in> set (ac_q1 (ac (init w args)) @ ac_q2 (ac (init w args))).
               requires_grad (heap (final_agent (critic_step w (init w args) ep)) a)"
    using init_online_differentiable [of w args] by (auto simp: critic_step_flags)
  then show ?thesis using q h by (simp add: list_all_iff)
qed

section \<open>What the whole run keeps\<close>

lemma evolves_refl: "evolves s s"
  by (simp add: evolves_def)

lemma evolves_trans:
  assumes "evolves s s'" "evolves s' s''"
  shows "evolves s s''"
proof -
  obtain c1 c2 where "buffer s' = buffer s @ c1" "buffer s'' = buffer s' @ c2"
    using assms by (auto simp: evolves_def)
  then have "\<exists>calls. buffer s'' = buffer s @ calls" by simp
  then show ?thesis using assms by (simp add: evolves_def)
qed

lemma kept_evolves: "kept s s' \<Longrightarrow> evolves s s'"
  using kept_target_isolated(1) [of s s'] by (simp add: evolves_def kept_def)

lemma target_isolated_cong:
  assumes "heap s' = heap s" "ac s' = ac s" "ac_targ s' = ac_targ s"
    "opt_params (q_optimizer s') = opt_params (q_optimizer s)"
    "opt_params (pi_optimizer s') = opt_params (pi_optimizer s)"
    "alpha_params s' = alpha_params s" "q_params s' = q_params s"
  shows "target_isolated s' = target_isolated s"
  using assms by (simp add: target_isolated_def untouchable_def)

lemma update_evolves: "evolves s (final_agent (update w s))"
proof (cases "update w s")
  case (Inl x)
  then have "kept s (snd x)" using update_raises_kept [of w s "fst x" "snd x"] by simp
  then show ?thesis using Inl by (simp add: final_agent_def kept_evolves)
next
  case (Inr s')
  obtain s1 where s1: "kept s s1"
    "s' = s1\<lparr>heap := polyak_pass (polyak s1)
                        (zip (parameters (ac s1)) (parameters (ac_targ s1))) (heap s1)\<rparr>"
    using update_returns [OF Inr] by blast
  have "evolves s s1" using s1(1) by (rule kept_evolves)
  moreover have "evolves s1 s'"
    unfolding s1(2) using polyak_target_isolated [of s1] by (simp add: evolves_def)
  ultimately show ?thesis using Inr by (auto simp: final_agent_def intro: evolves_trans)
qed


lemma choose_action_agent:
  assumes "choose_action w s l = (a, h_out, s1)"
  shows "heap s1 = heap s" "ac s1 = ac s" "ac_targ s1 = ac_targ s"
    "q_optimizer s1 = q_optimizer s" "pi_optimizer s1 = pi_optimizer s"
    "alpha_optimizer s1 = alpha_optimizer s" "q_params s1 = q_params s"
  using assms by (auto simp: choose_action_def Let_def split: if_splits)

lemma train_step_evolves: "evolves (fst sl) (fst (train_step w sl))"
proof -
  obtain s l where sl: "sl = (s, l)" by (cases sl)
  obtain a h_out s1 where ch: "choose_action w s l = (a, h_out, s1)" by (metis prod_cases3)
  obtain o2 r ter trunc e' where st: "env_step w (envs s1 (env s1)) a = ((o2, r, ter, trunc), e')"
    by (metis prod_cases4 surj_pair)
  note f = choose_action_agent [OF ch]
  have "target_isolated (fst (train_step w (s, l))) = target_isolated s"
    unfolding train_step_eq [OF ch st]
    by (rule target_isolated_cong) (simp_all add: f alpha_params_def)
  then show ?thesis
    unfolding sl evolves_def
    by (simp add: train_step_eq [OF ch st] f)
qed

lemma train_while_evolves:
  "train_while fuel w sl = Some sl' \<Longrightarrow> evolves (fst sl) (fst sl')"
proof (induction fuel arbitrary: sl)
  case 0
  then show ?case by (auto simp: evolves_refl split: if_splits)
next
  case (Suc n)
  show ?case
  proof (cases "l_d (snd sl) \<or> l_ep_len (snd sl) = max_ep_len (fst sl)")
    case True
    then show ?thesis using Suc.prems by (auto simp: evolves_refl)
  next
    case False
    then have "train_while n w (train_step w sl) = Some sl'" using Suc.prems by simp
    then have "evolves (fst (train_step w sl)) (fst sl')" by (rule Suc.IH)
    then show ?thesis using train_step_evolves by (rule evolves_trans [rotated])
  qed
qed

lemma trajectory_start_evolves: "evolves s (fst (trajectory_start w s c))"
proof -
  have "target_isolated (fst (trajectory_start w s c)) = target_isolated s"
    by (rule target_isolated_cong) (simp_all add: trajectory_start_def Let_def alpha_params_def)
  then show ?thesis by (simp add: evolves_def trajectory_start_fields) (simp add: trajectory_start_def Let_def)
qed

lemma update_handling_evolves: "evolves s (final_agent (update_handling w tr s))"
proof -
  have "evolves s (final_agent (case update w s of
                    Inl x \<Rightarrow> Inl x
                  | Inr s' \<Rightarrow> if save_freq s' = 0 then Inl (ZeroDivisionError, s') else Inr s'))"
    using update_evolves [of s w]
    by (cases "update w s") (auto simp: final_agent_def)
  then show ?thesis
    by (simp add: update_handling_def final_agent_def evolves_refl)
qed


lemma train_trajectory_evolves:
  assumes "train_trajectory fuel w tr sc = Some r"
  shows "evolves (fst sc) (agent_of r)"
proof -
  obtain sl where sl: "train_while fuel w (trajectory_start w (fst sc) (snd sc)) = Some sl"
    and r: "r = (case update_handling w tr (fst sl) of
                  Inl x \<Rightarrow> Inl x
                | Inr s' \<Rightarrow> Inr (s', carry_of (snd sl)))"
    using assms by (auto simp: train_trajectory_def split: option.splits)
  have "agent_of r = final_agent (update_handling w tr (fst sl))"
    unfolding r by (cases "update_handling w tr (fst sl)") (simp_all add: agent_of_def final_agent_def)
  then have "evolves (fst sl) (agent_of r)" using update_handling_evolves [of "fst sl" w tr] by simp
  moreover have "evolves (fst sc) (fst sl)"
    using trajectory_start_evolves train_while_evolves [OF sl] by (rule evolves_trans)
  ultimately show ?thesis by (rule evolves_trans [rotated])
qed

lemma train_trajectories_evolves:
  "train_trajectories fuel w trs sc = Some r \<Longrightarrow> evolves (fst sc) (agent_of r)"
proof (induction trs arbitrary: sc)
  case Nil
  then show ?case by (auto simp: agent_of_def evolves_refl)
next
  case (Cons tr trs)
  obtain r1 where r1: "train_trajectory fuel w tr sc = Some r1"
    using Cons.prems by (auto split: option.splits)
  have e1: "evolves (fst sc) (agent_of r1)" using r1 by (rule train_trajectory_evolves)
  show ?case
  proof (cases r1)
    case (Inl x)
    then have "r = r1" using Cons.prems r1 by simp
    then show ?thesis using e1 by simp
  next
    case (Inr sc')
    then have "train_trajectories fuel w trs sc' = Some r" using Cons.prems r1 by simp
    then have "evolves (fst sc') (agent_of r)" by (rule Cons.IH)
    moreover have "agent_of r1 = fst sc'" using Inr by (simp add: agent_of_def)
    ultimately show ?thesis using e1 by (auto intro: evolves_trans)
  qed
qed

lemma train_epoch_evolves:
  assumes "train_epoch fuel w sa = Some r"
  shows "evolves (fst sa) (agent_of r)"
proof -
  let ?c = "\<lparr>c_a2 = fst (snd sa), c_r2 = snd (snd sa),
               c_h_in = zeros_hidden w, c_h_out = zeros_hidden w\<rparr>"
  obtain r1 where r1: "train_trajectories fuel w (range_int (number_of_trajectories (fst sa)))
                         (fst sa, ?c) = Some r1"
    using assms by (auto simp: train_epoch_def Let_def split: option.splits)
  have e1: "evolves (fst sa) (agent_of r1)"
    using train_trajectories_evolves [OF r1] by simp
  show ?thesis
  proof (cases r1)
    case (Inl x)
    then have "r = Inl x" using assms r1 by (simp add: train_epoch_def Let_def)
    then show ?thesis using e1 by (simp add: Inl agent_of_def)
  next
    case (Inr sc)
    let ?s1 = "fst sc"
    let ?s2 = "?s1\<lparr>buffer := buffer ?s1 @ [Reset],
                          current_epoch := current_epoch ?s1 + 1,
                          pi_optimizer := (pi_optimizer ?s1)
                            \<lparr>opt_state := scheduler_step w (opt_state (pi_optimizer ?s1))\<rparr>,
                          q_optimizer := (q_optimizer ?s1)
                            \<lparr>opt_state := scheduler_step w (opt_state (q_optimizer ?s1))\<rparr>\<rparr>"
    have r: "agent_of r = ?s2"
      using assms r1 Inr by (auto simp: train_epoch_def Let_def agent_of_def)
    have "target_isolated ?s2 = target_isolated ?s1"
      by (rule target_isolated_cong) (simp_all add: alpha_params_def)
    then have "evolves ?s1 ?s2" by (simp add: evolves_def)
    moreover have "agent_of r1 = ?s1" using Inr by (simp add: agent_of_def)
    ultimately show ?thesis using e1 r by (auto intro: evolves_trans)
  qed
qed

lemma train_epochs_evolves:
  "train_epochs fuel w es sa = Some r \<Longrightarrow> evolves (fst sa) (agent_of r)"
proof (induction es arbitrary: sa)
  case Nil
  then show ?case by (auto simp: agent_of_def evolves_refl)
next
  case (Cons e es)
  obtain r1 where r1: "train_epoch fuel w sa = Some r1"
    using Cons.prems by (auto split: option.splits)
  have e1: "evolves (fst sa) (agent_of r1)" using r1 by (rule train_epoch_evolves)
  show ?case
  proof (cases r1)
    case (Inl x)
    then have "r = r1" using Cons.prems r1 by simp
    then show ?thesis using e1 by simp
  next
    case (Inr sa')
    then have "train_epochs fuel w es sa' = Some r" using Cons.prems r1 by simp
    then have "evolves (fst sa') (agent_of r)" by (rule Cons.IH)
    moreover have "agent_of r1 = fst sa'" using Inr by (simp add: agent_of_def)
    ultimately show ?thesis using e1 by (auto intro: evolves_trans)
  qed
qed

lemma train_agent_evolves:
  assumes "train_agent fuel w env_arg s = Some r"
  shows "evolves s (final_agent r)"
proof -
  obtain r1 where r1: "train_epochs fuel w (range_int (epochs s)) (s\<lparr>env := env_arg\<rparr>, (0, 0)) = Some r1"
    using assms by (auto simp: train_agent_def split: option.splits)
  have "final_agent r = agent_of r1"
    using assms r1 by (cases r1) (auto simp: train_agent_def final_agent_def agent_of_def)
  moreover have "evolves (s\<lparr>env := env_arg\<rparr>) (agent_of r1)"
    using train_epochs_evolves [OF r1] by simp
  moreover have "evolves s (s\<lparr>env := env_arg\<rparr>)"
  proof -
    have "target_isolated (s\<lparr>env := env_arg\<rparr>) = target_isolated s"
      by (rule target_isolated_cong) (simp_all add: alpha_params_def)
    then show ?thesis by (simp add: evolves_def)
  qed
  ultimately show ?thesis by (auto intro: evolves_trans)
qed

subsection \<open>The parameters change through updates only\<close>

lemma same_parameters_refl: "same_parameters s s"
  by (simp add: same_parameters_def)

lemma same_parameters_trans:
  "same_parameters s s1 \<Longrightarrow> same_parameters s1 s2 \<Longrightarrow> same_parameters s s2"
  by (simp add: same_parameters_def)

lemma updated_by_first:
  "same_parameters s s1 \<Longrightarrow> updated_by w s1 us s2 \<Longrightarrow> updated_by w s us s2"
  by (cases us) (auto intro: same_parameters_trans)

lemma updated_by_append:
  "updated_by w s us s1 \<Longrightarrow> updated_by w s1 vs s2 \<Longrightarrow> updated_by w s (us @ vs) s2"
proof (induction us arbitrary: s)
  case Nil
  then show ?case by (simp add: updated_by_first)
next
  case (Cons u us)
  then show ?case by simp
qed

lemma updated_by_chain:
  assumes "\<exists>us. updated_by w s us s1" "\<exists>vs. updated_by w s1 vs s2"
  shows "\<exists>us. updated_by w s us s2"
  using assms updated_by_append by blast

lemma same_parameters_isolated:
  "same_parameters s s' \<Longrightarrow> target_isolated s' = target_isolated s"
  by (rule target_isolated_cong) (simp_all add: same_parameters_def)

lemma updated_by_isolated:
  "updated_by w s us s' \<Longrightarrow> target_isolated s \<Longrightarrow>
     target_isolated s' \<and> ac_targ s' = ac_targ s \<and> (us = [] \<longrightarrow> heap s' = heap s)"
proof (induction us arbitrary: s)
  case Nil
  then show ?case using same_parameters_isolated [of s s'] by (simp add: same_parameters_def)
next
  case (Cons u us)
  have su: "same_parameters s u" and rest: "updated_by w (final_agent (update w u)) us s'"
    using Cons.prems(1) by simp_all
  have iu: "target_isolated u" using su Cons.prems(2) by (simp add: same_parameters_isolated)
  have e: "evolves u (final_agent (update w u))" by (rule update_evolves)
  then have "target_isolated (final_agent (update w u))" using iu by (simp add: evolves_def)
  from Cons.IH [OF rest this] show ?case
    using e su by (simp add: evolves_def same_parameters_def)
qed

lemma train_step_same: "same_parameters (fst sl) (fst (train_step w sl))"
proof -
  obtain s l where sl: "sl = (s, l)" by (cases sl)
  obtain a h_out s1 where ch: "choose_action w s l = (a, h_out, s1)" by (metis prod_cases3)
  obtain o2 r ter trunc e' where st: "env_step w (envs s1 (env s1)) a = ((o2, r, ter, trunc), e')"
    by (metis prod_cases4 surj_pair)
  note f = choose_action_agent [OF ch]
  have p: "polyak s1 = polyak s" using ch by (auto simp: choose_action_def Let_def split: if_splits)
  show ?thesis
    unfolding sl train_step_eq [OF ch st] same_parameters_def
    by (simp add: f p alpha_params_def)
qed

lemma train_while_same:
  "train_while fuel w sl = Some sl' \<Longrightarrow> same_parameters (fst sl) (fst sl')"
proof (induction fuel arbitrary: sl)
  case 0
  then show ?case by (auto simp: same_parameters_refl split: if_splits)
next
  case (Suc n)
  show ?case
  proof (cases "l_d (snd sl) \<or> l_ep_len (snd sl) = max_ep_len (fst sl)")
    case True
    then show ?thesis using Suc.prems by (auto simp: same_parameters_refl)
  next
    case False
    then have "train_while n w (train_step w sl) = Some sl'" using Suc.prems by simp
    then have "same_parameters (fst (train_step w sl)) (fst sl')" by (rule Suc.IH)
    then show ?thesis using train_step_same by (rule same_parameters_trans [rotated])
  qed
qed

lemma trajectory_start_same: "same_parameters s (fst (trajectory_start w s c))"
  by (simp add: same_parameters_def trajectory_start_def Let_def alpha_params_def)

lemma update_handling_cases:
  "final_agent (update_handling w tr s) = s
   \<or> final_agent (update_handling w tr s) = final_agent (update w s)"
  by (cases "update w s") (auto simp: update_handling_def final_agent_def)

lemma update_handling_updated:
  "\<exists>us. updated_by w s us (final_agent (update_handling w tr s))"
proof -
  consider "final_agent (update_handling w tr s) = s"
    | "final_agent (update_handling w tr s) = final_agent (update w s)"
    using update_handling_cases by blast
  then show ?thesis
  proof cases
    case 1
    then have "updated_by w s [] (final_agent (update_handling w tr s))"
      by (simp add: same_parameters_refl)
    then show ?thesis by blast
  next
    case 2
    then have "updated_by w s [s] (final_agent (update_handling w tr s))"
      by (simp add: same_parameters_refl)
    then show ?thesis by blast
  qed
qed

lemma train_trajectory_updated:
  assumes "train_trajectory fuel w tr sc = Some r"
  shows "\<exists>us. updated_by w (fst sc) us (agent_of r)"
proof -
  obtain sl where sl: "train_while fuel w (trajectory_start w (fst sc) (snd sc)) = Some sl"
    and r: "r = (case update_handling w tr (fst sl) of
                  Inl x \<Rightarrow> Inl x
                | Inr s' \<Rightarrow> Inr (s', carry_of (snd sl)))"
    using assms by (auto simp: train_trajectory_def split: option.splits)
  have "agent_of r = final_agent (update_handling w tr (fst sl))"
    unfolding r by (cases "update_handling w tr (fst sl)") (simp_all add: agent_of_def final_agent_def)
  then obtain us where us: "updated_by w (fst sl) us (agent_of r)"
    using update_handling_updated [of w "fst sl" tr] by auto
  have "same_parameters (fst sc) (fst sl)"
    using trajectory_start_same train_while_same [OF sl] by (rule same_parameters_trans)
  then have "updated_by w (fst sc) us (agent_of r)" using us by (rule updated_by_first)
  then show ?thesis by blast
qed

lemma train_trajectories_updated:
  "train_trajectories fuel w trs sc = Some r \<Longrightarrow> \<exists>us. updated_by w (fst sc) us (agent_of r)"
proof (induction trs arbitrary: sc)
  case Nil
  then have "updated_by w (fst sc) [] (agent_of r)"
    by (auto simp: agent_of_def same_parameters_refl)
  then show ?case by blast
next
  case (Cons tr trs)
  obtain r1 where r1: "train_trajectory fuel w tr sc = Some r1"
    using Cons.prems by (auto split: option.splits)
  have e1: "\<exists>us. updated_by w (fst sc) us (agent_of r1)" using r1 by (rule train_trajectory_updated)
  show ?case
  proof (cases r1)
    case (Inl x)
    then have "r = r1" using Cons.prems r1 by simp
    then show ?thesis using e1 by simp
  next
    case (Inr sc')
    then have "train_trajectories fuel w trs sc' = Some r" using Cons.prems r1 by simp
    then have "\<exists>vs. updated_by w (fst sc') vs (agent_of r)" by (rule Cons.IH)
    moreover have "agent_of r1 = fst sc'" using Inr by (simp add: agent_of_def)
    ultimately show ?thesis using e1 updated_by_chain [of w "fst sc" "fst sc'" "agent_of r"] by simp
  qed
qed

lemma train_epoch_updated:
  assumes "train_epoch fuel w sa = Some r"
  shows "\<exists>us. updated_by w (fst sa) us (agent_of r)"
proof -
  let ?c = "\<lparr>c_a2 = fst (snd sa), c_r2 = snd (snd sa),
               c_h_in = zeros_hidden w, c_h_out = zeros_hidden w\<rparr>"
  obtain r1 where r1: "train_trajectories fuel w (range_int (number_of_trajectories (fst sa)))
                         (fst sa, ?c) = Some r1"
    using assms by (auto simp: train_epoch_def Let_def split: option.splits)
  have e1: "\<exists>us. updated_by w (fst sa) us (agent_of r1)"
    using train_trajectories_updated [OF r1] by simp
  show ?thesis
  proof (cases r1)
    case (Inl x)
    then have "r = Inl x" using assms r1 by (simp add: train_epoch_def Let_def)
    then show ?thesis using e1 by (simp add: Inl agent_of_def)
  next
    case (Inr sc)
    let ?s1 = "fst sc"
    let ?s2 = "?s1\<lparr>buffer := buffer ?s1 @ [Reset],
                          current_epoch := current_epoch ?s1 + 1,
                          pi_optimizer := (pi_optimizer ?s1)
                            \<lparr>opt_state := scheduler_step w (opt_state (pi_optimizer ?s1))\<rparr>,
                          q_optimizer := (q_optimizer ?s1)
                            \<lparr>opt_state := scheduler_step w (opt_state (q_optimizer ?s1))\<rparr>\<rparr>"
    have r: "agent_of r = ?s2"
      using assms r1 Inr by (auto simp: train_epoch_def Let_def agent_of_def)
    have "same_parameters ?s1 ?s2" by (simp add: same_parameters_def alpha_params_def)
    then have "updated_by w ?s1 [] ?s2" by simp
    then have "\<exists>vs. updated_by w ?s1 vs ?s2" by blast
    moreover have "agent_of r1 = ?s1" using Inr by (simp add: agent_of_def)
    ultimately show ?thesis using e1 r updated_by_chain [of w "fst sa" ?s1 ?s2] by simp
  qed
qed

lemma train_epochs_updated:
  "train_epochs fuel w es sa = Some r \<Longrightarrow> \<exists>us. updated_by w (fst sa) us (agent_of r)"
proof (induction es arbitrary: sa)
  case Nil
  then have "updated_by w (fst sa) [] (agent_of r)"
    by (auto simp: agent_of_def same_parameters_refl)
  then show ?case by blast
next
  case (Cons e es)
  obtain r1 where r1: "train_epoch fuel w sa = Some r1"
    using Cons.prems by (auto split: option.splits)
  have e1: "\<exists>us. updated_by w (fst sa) us (agent_of r1)" using r1 by (rule train_epoch_updated)
  show ?case
  proof (cases r1)
    case (Inl x)
    then have "r = r1" using Cons.prems r1 by simp
    then show ?thesis using e1 by simp
  next
    case (Inr sa')
    then have "train_epochs fuel w es sa' = Some r" using Cons.prems r1 by simp
    then have "\<exists>vs. updated_by w (fst sa') vs (agent_of r)" by (rule Cons.IH)
    moreover have "agent_of r1 = fst sa'" using Inr by (simp add: agent_of_def)
    ultimately show ?thesis using e1 updated_by_chain [of w "fst sa" "fst sa'" "agent_of r"] by simp
  qed
qed

lemma train_agent_updated:
  assumes "train_agent fuel w env_arg s = Some r"
  shows "\<exists>us. updated_by w s us (final_agent r)"
proof -
  obtain r1 where r1: "train_epochs fuel w (range_int (epochs s)) (s\<lparr>env := env_arg\<rparr>, (0, 0)) = Some r1"
    using assms by (auto simp: train_agent_def split: option.splits)
  have fr: "final_agent r = agent_of r1"
    using assms r1 by (cases r1) (auto simp: train_agent_def final_agent_def agent_of_def)
  obtain us where "updated_by w (s\<lparr>env := env_arg\<rparr>) us (agent_of r1)"
    using train_epochs_updated [OF r1] by auto
  moreover have "same_parameters s (s\<lparr>env := env_arg\<rparr>)"
    by (simp add: same_parameters_def alpha_params_def)
  ultimately have "updated_by w s us (final_agent r)" unfolding fr by (rule updated_by_first [rotated])
  then show ?thesis by blast
qed

subsection \<open>The evaluation loop leaves the parameters alone\<close>

lemma random_init_steps_heap:
  "heap (random_init_steps n w s) = heap s \<and> ac_targ (random_init_steps n w s) = ac_targ s"
  by (induction n arbitrary: s) (simp_all add: random_init_step_def Let_def)

lemma test_step_heap:
  "heap (fst (test_step w g sl)) = heap (fst sl)"
  "ac_targ (fst (test_step w g sl)) = ac_targ (fst sl)"
  by (simp_all add: test_step_def Let_def)

lemma test_while_heap:
  "test_while fuel w g sl = Some sl'
    \<Longrightarrow> heap (fst sl') = heap (fst sl) \<and> ac_targ (fst sl') = ac_targ (fst sl)"
proof (induction fuel arbitrary: sl)
  case 0
  then show ?case by (auto split: if_splits)
next
  case (Suc n)
  show ?case
  proof (cases "e_d (snd sl) \<or> e_ep_len (snd sl) = max_ep_len (fst sl)")
    case True
    then show ?thesis using Suc.prems by auto
  next
    case False
    then have "test_while n w g (test_step w g sl) = Some sl'" using Suc.prems by simp
    from Suc.IH [OF this] show ?thesis by (simp add: test_step_heap)
  qed
qed

lemma test_episode_heap:
  assumes "test_episode fuel w te ri g t = Some t'"
  shows "heap (ts_agent t') = heap (ts_agent t) \<and> ac_targ (ts_agent t') = ac_targ (ts_agent t)"
proof -
  let ?s1 = "(ts_agent t)\<lparr>envs := (envs (ts_agent t))
                 (te := snd (env_reset w (envs (ts_agent t) te)))\<rparr>"
  let ?s2 = "if ri \<noteq> 0 then random_init_steps (nat ri) w ?s1 else ?s1"
  obtain l sl where sl: "test_while fuel w g (?s2, l) = Some sl" and t': "ts_agent t' = fst sl"
    using assms by (auto simp: test_episode_def Let_def split: option.splits)
  have "heap ?s2 = heap (ts_agent t) \<and> ac_targ ?s2 = ac_targ (ts_agent t)"
    by (simp add: random_init_steps_heap)
  then show ?thesis using test_while_heap [OF sl] t' by simp
qed

lemma test_episodes_heap:
  "test_episodes fuel w te ri g eps t = Some t'
    \<Longrightarrow> heap (ts_agent t') = heap (ts_agent t) \<and> ac_targ (ts_agent t') = ac_targ (ts_agent t)"
proof (induction eps arbitrary: t)
  case Nil
  then show ?case by simp
next
  case (Cons ep eps)
  then obtain t1 where t1: "test_episode fuel w te ri g t = Some t1"
    "test_episodes fuel w te ri g eps t1 = Some t'"
    by (auto split: option.splits)
  show ?case using test_episode_heap [OF t1(1)] Cons.IH [OF t1(2)] by simp
qed

lemma test_agent_heap:
  assumes "test_agent fuel w te n ri g s = Some r"
  shows "heap (agent_left r) = heap s \<and> ac_targ (agent_left r) = ac_targ s"
proof -
  obtain t where t: "test_episodes fuel w te ri g (range_int n) (test_start w te s) = Some t"
    and r: "agent_left r = ts_agent t"
    using assms by (auto simp: test_agent_def agent_left_def split: option.splits if_splits)
  show ?thesis using test_episodes_heap [OF t] r by (simp add: test_start_def)
qed

section \<open>The target parameters\<close>

text \<open>
  Claim C3. In the agent that the constructor builds, the online parameters hold the
  values that the model was created or loaded with, and the target parameters hold the
  same values at other addresses; no target parameter requires or holds a gradient, and
  none is a parameter of an optimizer (\<open>target_isolated\<close>). An update keeps this, and the
  target module: if it raises, every target cell is as it was; if it returns, its heap
  is that of the smoothing pass on a heap whose target cells are as they were. A step
  of the training loop and a step of the evaluation loop leave the whole heap as it is.
  Over a whole call of \<^verbatim>\<open>train_agent\<close> the parameters change through the calls of
  \<^verbatim>\<open>update\<close> and through nothing else (\<open>updated_by\<close>): before the first call, between
  two calls and after the last one the heap, the modules and the lists of optimizer
  parameters stay as they are. Such a chain of updates keeps the isolation and the
  target module, and a chain without update keeps the heap. A whole evaluation keeps the
  heap.
\<close>

theorem target_parameters_isolated:
  "vals (heap (init w args)) (parameters (ac (init w args)))
     = (case i_model_file_to_load args of
          None \<Rightarrow> mv_pi (i_fresh_model args) @ mv_q1 (i_fresh_model args)
                   @ mv_q2 (i_fresh_model args) @ mv_memory (i_fresh_model args)
        | Some mv \<Rightarrow> mv_pi mv @ mv_q1 mv @ mv_q2 mv @ mv_memory mv)
   \<and> vals (heap (init w args)) (parameters (ac_targ (init w args)))
     = vals (heap (init w args)) (parameters (ac (init w args)))
   \<and> set (parameters (ac_targ (init w args))) \<inter> set (parameters (ac (init w args))) = {}
   \<and> target_isolated (init w args)
   \<and> (\<forall>s. target_isolated s \<longrightarrow>
          target_isolated (final_agent (update w s))
        \<and> ac_targ (final_agent (update w s)) = ac_targ s
        \<and> (\<forall>e s'. update w s = Inl (e, s') \<longrightarrow>
              (\<forall>a \<in> set (parameters (ac_targ s)). heap s' a = heap s a))
        \<and> (\<forall>s'. update w s = Inr s' \<longrightarrow>
              (\<exists>h1. (\<forall>a \<in> set (parameters (ac_targ s)). h1 a = heap s a)
                  \<and> heap s' = polyak_pass (polyak s)
                                 (zip (parameters (ac s)) (parameters (ac_targ s))) h1)))
   \<and> (\<forall>sl. heap (fst (train_step w sl)) = heap (fst sl))
   \<and> (\<forall>g sl. heap (fst (test_step w g sl)) = heap (fst sl))
   \<and> (\<forall>fuel e s r. train_agent fuel w e s = Some r \<longrightarrow>
          (\<exists>us. updated_by w s us (final_agent r)))
   \<and> (\<forall>s us s'. target_isolated s \<longrightarrow> updated_by w s us s' \<longrightarrow>
          target_isolated s' \<and> ac_targ s' = ac_targ s \<and> (us = [] \<longrightarrow> heap s' = heap s))
   \<and> (\<forall>fuel e s r. target_isolated s \<longrightarrow> train_agent fuel w e s = Some r \<longrightarrow>
          target_isolated (final_agent r) \<and> ac_targ (final_agent r) = ac_targ s)
   \<and> (\<forall>fuel te n ri g s r. test_agent fuel w te n ri g s = Some r \<longrightarrow>
          heap (agent_left r) = heap s \<and> ac_targ (agent_left r) = ac_targ s)"
proof -
  have upd: "target_isolated (final_agent (update w s))
        \<and> ac_targ (final_agent (update w s)) = ac_targ s
        \<and> (\<forall>e s'. update w s = Inl (e, s') \<longrightarrow>
              (\<forall>a \<in> set (parameters (ac_targ s)). heap s' a = heap s a))
        \<and> (\<forall>s'. update w s = Inr s' \<longrightarrow>
              (\<exists>h1. (\<forall>a \<in> set (parameters (ac_targ s)). h1 a = heap s a)
                  \<and> heap s' = polyak_pass (polyak s)
                                 (zip (parameters (ac s)) (parameters (ac_targ s))) h1))"
    if iso: "target_isolated s" for s
  proof (intro conjI allI impI)
    show "target_isolated (final_agent (update w s))"
      using update_evolves [of s w] iso by (simp add: evolves_def)
    show "ac_targ (final_agent (update w s)) = ac_targ s"
      using update_evolves [of s w] by (simp add: evolves_def)
  next
    fix e s' assume "update w s = Inl (e, s')"
    then have "kept s s'" by (rule update_raises_kept)
    then show "\<forall>a \<in> set (parameters (ac_targ s)). heap s' a = heap s a"
      using iso by (rule kept_target_isolated(2))
  next
    fix s' assume "update w s = Inr s'"
    then obtain s1 where s1: "kept s s1"
      "s' = s1\<lparr>heap := polyak_pass (polyak s1)
                        (zip (parameters (ac s1)) (parameters (ac_targ s1))) (heap s1)\<rparr>"
      using update_returns by blast
    have "ac s1 = ac s" "ac_targ s1 = ac_targ s" "polyak s1 = polyak s"
      using s1(1) by (simp_all add: kept_def)
    then have "heap s' = polyak_pass (polyak s)
                                 (zip (parameters (ac s)) (parameters (ac_targ s))) (heap s1)"
      using s1(2) by simp
    moreover have "\<forall>a \<in> set (parameters (ac_targ s)). heap s1 a = heap s a"
      using s1(1) iso by (rule kept_target_isolated(2))
    ultimately show "\<exists>h1. (\<forall>a \<in> set (parameters (ac_targ s)). h1 a = heap s a)
                  \<and> heap s' = polyak_pass (polyak s)
                                 (zip (parameters (ac s)) (parameters (ac_targ s))) h1"
      by blast
  qed
  have tr: "heap (fst (train_step w sl)) = heap (fst sl)" for sl
    using train_step_same [of sl w] by (simp add: same_parameters_def)
  have run: "target_isolated (final_agent r) \<and> ac_targ (final_agent r) = ac_targ s"
    if "target_isolated s" "train_agent fuel w e s = Some r" for fuel e s r
    using train_agent_evolves [OF that(2)] that(1) by (simp add: evolves_def)
  have c4: "\<forall>s. target_isolated s \<longrightarrow>
          target_isolated (final_agent (update w s))
        \<and> ac_targ (final_agent (update w s)) = ac_targ s
        \<and> (\<forall>e s'. update w s = Inl (e, s') \<longrightarrow>
              (\<forall>a \<in> set (parameters (ac_targ s)). heap s' a = heap s a))
        \<and> (\<forall>s'. update w s = Inr s' \<longrightarrow>
              (\<exists>h1. (\<forall>a \<in> set (parameters (ac_targ s)). h1 a = heap s a)
                  \<and> heap s' = polyak_pass (polyak s)
                                 (zip (parameters (ac s)) (parameters (ac_targ s))) h1))"
    using upd by (intro allI impI)
  have c5: "\<forall>sl. heap (fst (train_step w sl)) = heap (fst sl)"
    using tr by (intro allI)
  have c6: "\<forall>g sl. heap (fst (test_step w g sl)) = heap (fst sl)"
    using test_step_heap(1) by (intro allI)
  have c7: "\<forall>fuel e s r. train_agent fuel w e s = Some r \<longrightarrow>
          (\<exists>us. updated_by w s us (final_agent r))"
    using train_agent_updated by (intro allI impI)
  have c8: "\<forall>s us s'. target_isolated s \<longrightarrow> updated_by w s us s' \<longrightarrow>
          target_isolated s' \<and> ac_targ s' = ac_targ s \<and> (us = [] \<longrightarrow> heap s' = heap s)"
    using updated_by_isolated by (intro allI impI)
  have c9: "\<forall>fuel e s r. target_isolated s \<longrightarrow> train_agent fuel w e s = Some r \<longrightarrow>
          target_isolated (final_agent r) \<and> ac_targ (final_agent r) = ac_targ s"
    using run by (intro allI impI)
  have c10: "\<forall>fuel te n ri g s r. test_agent fuel w te n ri g s = Some r \<longrightarrow>
          heap (agent_left r) = heap s \<and> ac_targ (agent_left r) = ac_targ s"
    using test_agent_heap by (intro allI impI)
  show ?thesis
    by (intro conjI; (rule init_online_values init_target_copy init_no_alias init_target_isolated
                        c4 c5 c6 c7 c8 c9 c10))
qed

text \<open>
  On the small world: the online parameters are at the addresses 0 to 3 and hold 1 to 4,
  the target parameters are at the addresses 4 to 7 and hold the same. One update moves
  the online parameters to 0, 1, 2, 3 and the target parameters half the way to them; a
  training run of one trajectory, which ends with one update, leaves the same target
  parameters.
\<close>

theorem target_parameters_isolated_witness:
  "parameters (ac toy_agent) = [0, 1, 2, 3]
   \<and> parameters (ac_targ toy_agent) = [4, 5, 6, 7]
   \<and> vals (heap toy_agent) [0, 1, 2, 3] = [1, 2, 3, 4]
   \<and> vals (heap toy_agent) [4, 5, 6, 7] = [1, 2, 3, 4]
   \<and> target_isolated toy_agent
   \<and> (\<exists>s'. update toy_world toy_agent = Inr s' \<and> target_isolated s'
          \<and> vals (heap s') [0, 1, 2, 3] = [0, 1, 2, 3]
          \<and> vals (heap s') [4, 5, 6, 7] = [1/2, 3/2, 5/2, 7/2])
   \<and> (\<exists>s' us. train_agent 5 toy_world 0
                  (toy_agent\<lparr>update_every := 1, number_of_trajectories := 1\<rparr>) = Some (Inr s')
          \<and> updated_by toy_world (toy_agent\<lparr>update_every := 1, number_of_trajectories := 1\<rparr>)
               us s'
          \<and> target_isolated s'
          \<and> vals (heap s') [4, 5, 6, 7] = [1/2, 3/2, 5/2, 7/2])
   \<and> (\<exists>r. test_agent 5 toy_world 1 2 1 (4/5) toy_agent = Some r
          \<and> heap (agent_left r) = heap toy_agent)"
proof -
  let ?u = "toy_agent\<lparr>update_every := 1, number_of_trajectories := 1\<rparr>"
  note t = target_parameters_isolated [of toy_world toy_args, folded toy_agent_def]
  note t1 = t [THEN conjunct1]
  note t2 = t [THEN conjunct2, THEN conjunct1]
  note t4 = t [THEN conjunct2, THEN conjunct2, THEN conjunct2, THEN conjunct1]
  note t5 = t [THEN conjunct2, THEN conjunct2, THEN conjunct2, THEN conjunct2, THEN conjunct1]
  note t8 = t [THEN conjunct2, THEN conjunct2, THEN conjunct2, THEN conjunct2, THEN conjunct2,
               THEN conjunct2, THEN conjunct2, THEN conjunct1]
  note t10 = t [THEN conjunct2, THEN conjunct2, THEN conjunct2, THEN conjunct2, THEN conjunct2,
                THEN conjunct2, THEN conjunct2, THEN conjunct2, THEN conjunct2, THEN conjunct1]
  note t11 = t [THEN conjunct2, THEN conjunct2, THEN conjunct2, THEN conjunct2, THEN conjunct2,
                THEN conjunct2, THEN conjunct2, THEN conjunct2, THEN conjunct2, THEN conjunct2]
  have iso: "target_isolated toy_agent" by (rule t4)
  have v: "vals (heap toy_agent) (parameters (ac toy_agent)) = [1, 2, 3, 4]"
    using t1 by (simp add: toy_args_def)
  have 1: "vals (heap toy_agent) [0, 1, 2, 3] = [1, 2, 3, 4]"
          "vals (heap toy_agent) [4, 5, 6, 7] = [1, 2, 3, 4]"
    using v t2 by (simp_all add: toy_agent_layout)
  obtain s' where s': "update toy_world toy_agent = Inr s'"
    "map (\<lambda>a. data (heap s' a)) [0, 1, 2, 3] = [0, 1, 2, 3]"
    "map (\<lambda>a. data (heap s' a)) [4, 5, 6, 7] = [1/2, 3/2, 5/2, 7/2]"
    using toy_update_values by (elim exE conjE) (rule that; assumption)
  have "target_isolated (final_agent (update toy_world toy_agent))"
    using t5 [rule_format, OF iso] by (rule conjunct1)
  then have 2: "\<exists>s'. update toy_world toy_agent = Inr s' \<and> target_isolated s'
          \<and> vals (heap s') [0, 1, 2, 3] = [0, 1, 2, 3]
          \<and> vals (heap s') [4, 5, 6, 7] = [1/2, 3/2, 5/2, 7/2]"
    using s' by (intro exI [of _ s']) (simp add: final_agent_def vals_def)
  have isou: "target_isolated ?u"
    using iso target_isolated_cong [of ?u toy_agent] by (simp add: alpha_params_def)
  obtain r where r: "train_agent 5 toy_world 0 ?u = Some (Inr r)"
    "map (\<lambda>a. data (heap r a)) [4, 5, 6, 7] = [1/2, 3/2, 5/2, 7/2]"
    using toy_updating_run by (elim exE conjE) (rule that; assumption)
  obtain us where us: "updated_by toy_world ?u us (final_agent (Inr r))"
    using t8 [rule_format, OF r(1)] by (elim exE)
  have "target_isolated (final_agent (Inr r))"
    using t10 [rule_format, OF isou r(1)] by (rule conjunct1)
  then have 3: "\<exists>s' us. train_agent 5 toy_world 0 ?u = Some (Inr s')
          \<and> updated_by toy_world ?u us s' \<and> target_isolated s'
          \<and> vals (heap s') [4, 5, 6, 7] = [1/2, 3/2, 5/2, 7/2]"
    using r us by (intro exI [of _ r] exI [of _ us]) (simp add: final_agent_def vals_def)
  obtain r' where r': "test_agent 5 toy_world 1 2 1 (4/5) toy_agent = Some r'"
    using toy_test_returns by (elim exE)
  have "heap (agent_left r') = heap toy_agent"
    using t11 [rule_format, OF r'] by (rule conjunct1)
  then have 4: "\<exists>r. test_agent 5 toy_world 1 2 1 (4/5) toy_agent = Some r
          \<and> heap (agent_left r) = heap toy_agent"
    using r' by (intro exI [of _ r']) simp
  show ?thesis
    by (intro conjI; (rule toy_agent_layout(1) toy_agent_layout(2) 1 iso 2 3 4))
qed


section \<open>The carry between trajectories\<close>
















end
